(* ===== verification/Prelude.thy ===== *)
theory Prelude
  imports Main "HOL-Library.Multiset"
begin

text \<open>
  Shared vocabulary of the blog-site development: the types that name primary keys,
  dates and timestamps, the Python string primitives the Django layers rely on
  (\<open>str.isspace\<close>, \<open>str.strip\<close>, \<open>str(int)\<close>, \<open>int(str)\<close>), and the
  generic list lemmas the component theories share. The two \<open>named_theorems\<close>
  collections gather the characteristic equations of the ORM operations
  (\<open>orm_simps\<close>) and of the invariant (\<open>wf_simps\<close>), so that the component
  proofs are a \<open>simp add:\<close> over them.
\<close>

named_theorems orm_simps "characteristic equations of the ORM operations"
named_theorems wf_simps "unfolding rules of the database invariant"

type_synonym pk = nat
  \<comment> \<open>an AutoField primary key\<close>
type_synonym date = int
  \<comment> \<open>a DateField value, as a day number counted from 1970-01-01 (negative before)\<close>
type_synonym timestamp = int
  \<comment> \<open>a DateTimeField value (an aware datetime), in microseconds from 1970-01-01 00:00 UTC\<close>

section \<open>Python string primitives\<close>

text \<open>
  Characters are the 8-bit \<open>char\<close> of HOL; \<open>py_isspace\<close> is Python's
  \<open>str.isspace\<close> on that range as far as ASCII goes (tab to carriage return,
  the four separators 28--31 and the space).
\<close>

definition py_isspace :: "char \<Rightarrow> bool" where
  "py_isspace c = (let n = of_char c in (9 \<le> n \<and> n \<le> (13::nat)) \<or> (28 \<le> n \<and> n \<le> 32))"

definition py_strip :: "string \<Rightarrow> string" where
  "py_strip s = rev (dropWhile py_isspace (rev (dropWhile py_isspace s)))"

definition digit_char :: "nat \<Rightarrow> char" where
  "digit_char d = char_of (48 + d)"

definition py_isdigit :: "char \<Rightarrow> bool" where
  "py_isdigit c = (let n = (of_char c :: nat) in 48 \<le> n \<and> n \<le> 57)"

definition digit_val :: "char \<Rightarrow> nat" where
  "digit_val c = of_char c - 48"

text \<open>\<open>str(n)\<close> for a non-negative Python int: its decimal digits.\<close>

fun py_str_nat :: "nat \<Rightarrow> string" where
  "py_str_nat n =
     (if n < 10 then [digit_char n] else py_str_nat (n div 10) @ [digit_char (n mod 10)])"

declare py_str_nat.simps [simp del]

text \<open>The value of a string of decimal digits, as \<open>int()\<close> reads it.\<close>

definition digits_value :: "string \<Rightarrow> nat" where
  "digits_value s = foldl (\<lambda>acc c. 10 * acc + digit_val c) 0 s"

section \<open>Lemmas on the string primitives\<close>

lemma digit_char_is_digit [simp]: "d < 10 \<Longrightarrow> py_isdigit (digit_char d)"
  by (simp add: digit_char_def py_isdigit_def)

lemma digit_val_digit_char [simp]: "d < 10 \<Longrightarrow> digit_val (digit_char d) = d"
  by (simp add: digit_char_def digit_val_def)

lemma digits_value_snoc [simp]:
  "digits_value (s @ [c]) = 10 * digits_value s + digit_val c"
  by (simp add: digits_value_def)

lemma py_str_nat_nonempty [simp]: "py_str_nat n \<noteq> []"
  by (subst py_str_nat.simps) simp

lemma py_str_nat_digits: "\<forall>c \<in> set (py_str_nat n). py_isdigit c"
proof (induction n rule: py_str_nat.induct)
  case (1 n)
  show ?case
  proof (cases "n < 10")
    case True then show ?thesis by (simp add: py_str_nat.simps [of n])
  next
    case False with "1.IH" show ?thesis by (simp add: py_str_nat.simps [of n])
  qed
qed

lemma digits_value_py_str_nat [simp]: "digits_value (py_str_nat n) = n"
proof (induction n rule: py_str_nat.induct)
  case (1 n)
  show ?case
  proof (cases "n < 10")
    case True then show ?thesis by (simp add: py_str_nat.simps [of n] digits_value_def)
  next
    case False with "1.IH" show ?thesis by (simp add: py_str_nat.simps [of n])
  qed
qed

text \<open>Evaluation of \<open>str(n)\<close> at a numeral, for closed instances.\<close>

lemma char_of_eq_iff_sym: "c = char_of n \<longleftrightarrow> take_bit 8 n = of_char c"
  by (metis char_of_eq_iff)

lemmas py_str_nat_eval = py_str_nat.simps digit_char_def char_of_eq_iff char_of_eq_iff_sym

lemma py_str_nat_inj: "py_str_nat m = py_str_nat n \<Longrightarrow> m = n"
  by (metis digits_value_py_str_nat)

lemma py_strip_length: "length (py_strip s) \<le> length s"
  unfolding py_strip_def by (metis length_dropWhile_le length_rev order_trans)

lemma py_strip_no_space [simp]: "\<forall>c \<in> set s. \<not> py_isspace c \<Longrightarrow> py_strip s = s"
proof -
  assume "\<forall>c \<in> set s. \<not> py_isspace c"
  then have "dropWhile py_isspace s = s" and "dropWhile py_isspace (rev s) = rev s"
    by (auto simp: dropWhile_eq_self_iff hd_rev)
  then show ?thesis by (simp add: py_strip_def)
qed

lemma dropWhile_nonempty_head:
  "s \<noteq> [] \<Longrightarrow> \<not> P (hd s) \<Longrightarrow> dropWhile P (s @ r) = s @ r"
  by (cases s) auto

lemma py_strip_pad:
  assumes "\<forall>c \<in> set l. py_isspace c" "\<forall>c \<in> set r. py_isspace c"
    and "s \<noteq> []" "\<not> py_isspace (hd s)" "\<not> py_isspace (last s)"
  shows "py_strip (l @ s @ r) = s"
proof -
  have "dropWhile py_isspace (l @ s @ r) = s @ r"
    using assms by (simp add: dropWhile_append2 dropWhile_nonempty_head)
  moreover have "dropWhile py_isspace (rev r @ rev s) = dropWhile py_isspace (rev s)"
    using assms(2) dropWhile_append2 [of "rev r" py_isspace "rev s"] by simp
  moreover have "dropWhile py_isspace (rev s) = rev s"
    using assms(3,5) dropWhile_nonempty_head [of "rev s" py_isspace "[]"] by (simp add: hd_rev)
  ultimately show ?thesis by (simp add: py_strip_def)
qed

text \<open>One step of splitting at whitespace consumes at least one character.\<close>

lemma dropWhile_word_shorter:
  "dropWhile py_isspace s \<noteq> [] \<Longrightarrow>
   length (dropWhile (\<lambda>c. \<not> py_isspace c) (dropWhile py_isspace s)) < length s"
proof -
  assume ne: "dropWhile py_isspace s \<noteq> []"
  then obtain c r where cr: "dropWhile py_isspace s = c # r" by (cases "dropWhile py_isspace s") auto
  then have "\<not> py_isspace c" using hd_dropWhile [of py_isspace s] ne by auto
  then have "length (dropWhile (\<lambda>c. \<not> py_isspace c) (c # r)) \<le> length r"
    by (simp add: length_dropWhile_le)
  moreover have "length (c # r) \<le> length s" using cr by (metis length_dropWhile_le)
  ultimately show ?thesis using cr by simp
qed

section \<open>Generic list lemmas\<close>

lemma find_Some_mem: "find P xs = Some x \<Longrightarrow> x \<in> set xs \<and> P x"
  by (induction xs) (auto split: if_splits)

lemma map_replace_absent:
  "\<forall>x \<in> set xs. f x \<noteq> k \<Longrightarrow> map (\<lambda>x. if f x = k then y else x) xs = xs"
  by (induction xs) auto

lemma map_keep_key: "(\<And>x. x \<in> set xs \<Longrightarrow> f (g x) = f x) \<Longrightarrow> map f (map g xs) = map f xs"
  by (induction xs) auto

lemma in_map_filter_iff: "u \<in> set (List.map_filter f xs) \<longleftrightarrow> Some u \<in> set (map f xs)"
  by (induction xs) (auto simp: map_filter_simps split: option.splits)

lemma distinct_map_filter_snoc:
  "distinct (List.map_filter f xs) \<Longrightarrow> f x = None \<or> f x \<notin> set (map f xs) \<Longrightarrow>
   distinct (List.map_filter f (xs @ [x]))"
  by (induction xs) (auto simp: map_filter_simps in_map_filter_iff split: option.splits)

lemma distinct_map_filter_filter:
  "distinct (List.map_filter f xs) \<Longrightarrow> distinct (List.map_filter f (filter P xs))"
  by (induction xs) (auto simp: map_filter_simps in_map_filter_iff split: option.splits)

lemma distinct_map_filter_same:
  "distinct (List.map_filter f xs) \<Longrightarrow> x \<in> set xs \<Longrightarrow> y \<in> set xs \<Longrightarrow>
   f x = Some u \<Longrightarrow> f y = Some u \<Longrightarrow> x = y"
  by (induction xs) (auto simp: map_filter_simps in_map_filter_iff image_iff split: option.splits)

lemma find_distinct_key:
  "distinct (map f xs) \<Longrightarrow> x \<in> set xs \<Longrightarrow> find (\<lambda>y. f y = f x) xs = Some x"
  by (induction xs) (auto simp: image_iff)

lemma find_key_map_of: "find (\<lambda>y. f y = k) xs = map_of (map (\<lambda>y. (f y, y)) xs) k"
  by (induction xs) auto

lemma map_of_filter_key:
  "map_of (map (\<lambda>y. (f y, y)) (filter (\<lambda>y. f y \<noteq> k) xs)) = (map_of (map (\<lambda>y. (f y, y)) xs))(k := None)"
  by (induction xs) (auto simp: fun_eq_iff)

lemma map_of_snoc_fresh:
  "f x \<notin> set (map f xs) \<Longrightarrow>
   map_of (map (\<lambda>y. (f y, y)) (xs @ [x])) = (map_of (map (\<lambda>y. (f y, y)) xs))(f x \<mapsto> x)"
  by (induction xs) (auto simp: fun_eq_iff)


lemma distinct_map_filter_update:
  "distinct (map key xs) \<Longrightarrow> distinct (List.map_filter f xs) \<Longrightarrow>
   f a = None \<or> f a \<notin> set (map f (filter (\<lambda>x. key x \<noteq> key a) xs)) \<Longrightarrow>
   distinct (List.map_filter f (map (\<lambda>x. if key x = key a then a else x) xs))"
proof (induction xs)
  case Nil then show ?case by simp
next
  case (Cons y ys)
  show ?case
  proof (cases "key y = key a")
    case True
    with Cons.prems(1) have nk: "\<forall>x \<in> set ys. key x \<noteq> key a"
      by (auto simp: image_iff)
    then have "map (\<lambda>x. if key x = key a then a else x) ys = ys"
      by (intro map_idI) simp
    moreover have "filter (\<lambda>x. key x \<noteq> key a) ys = ys"
      using nk by simp
    ultimately show ?thesis using True Cons.prems
      by (auto simp: map_filter_simps in_map_filter_iff split: option.splits)
  next
    case False
    with Cons.prems Cons.IH show ?thesis
      by (auto simp: map_filter_simps in_map_filter_iff split: option.splits split: if_splits)
  qed
qed

lemma distinct_map_filter_insort:
  "distinct (List.map_filter f xs) \<Longrightarrow> f a = None \<or> f a \<notin> set (map f xs) \<Longrightarrow>
   distinct (List.map_filter f (insort_key k a xs))"
  by (induction xs) (auto simp: map_filter_simps in_map_filter_iff set_insort_key split: option.splits)

end
