(* ===== verification/Models.thy ===== *)
theory Models
  imports Prelude "HOL-Library.Product_Lexorder"
begin

text \<open>
  The data layer of \<open>src/blog/models.py\<close>: the three model classes \<open>Blog\<close>,
  \<open>Author\<close> and \<open>Comment\<close> (and the \<open>User\<close> of \<open>django.contrib.auth\<close> they
  refer to) as records, one row type per table; the database as a record of four
  tables kept in primary-key order with one AUTOINCREMENT counter per table; the ORM
  operations the application uses (\<open>objects.get\<close>, \<open>objects.create\<close>,
  \<open>save\<close>, \<open>delete\<close> with the \<open>on_delete\<close> actions the fields declare, and
  the default \<open>Meta.ordering\<close>); the \<open>__str__\<close> and \<open>display_comment\<close>
  methods. The invariant \<open>db_wf\<close> (keys fresh and ordered, every foreign key
  pointing at a row, at most one author per user) is proved to be kept by every
  operation, and the tables are related to maps by an abstraction function.
\<close>

section \<open>Rows and the database\<close>

text \<open>\<open>django.contrib.auth.models.User\<close>: only the key and the username are used.\<close>

record user =
  user_id :: pk
  username :: string

text \<open>\<open>class Author\<close>: \<open>name\<close> is a nullable \<open>OneToOneField(User)\<close>.\<close>

record author =
  author_id :: pk
  author_name :: "pk option"
  biography :: string

text \<open>\<open>class Blog\<close>: \<open>author\<close> is a nullable \<open>ForeignKey('Author')\<close>.\<close>

record blog =
  blog_id :: pk
  title :: string
  blog_author :: "pk option"
  blog_content :: string
  blog_post_date :: "date option"

text \<open>\<open>class Comment\<close>: nullable foreign keys to \<open>Blog\<close> and \<open>User\<close>.\<close>

record comment =
  comment_id :: pk
  comment_blog :: "pk option"
  comment_content :: string
  comment_post_date :: "timestamp option"
  comment_author :: "pk option"

text \<open>
  The database: each table in primary-key order (the order of rows without an
  \<open>ORDER BY\<close>), and the next key its AUTOINCREMENT sequence hands out.
\<close>

record db =
  users :: "user list"
  authors :: "author list"
  blogs :: "blog list"
  comments :: "comment list"
  next_user :: pk
  next_author :: pk
  next_blog :: pk
  next_comment :: pk

definition empty_db :: db where
  "empty_db = \<lparr>users = [], authors = [], blogs = [], comments = [],
     next_user = 1, next_author = 1, next_blog = 1, next_comment = 1\<rparr>"

text \<open>
  The exceptions the ORM raises, \<open>AttributeError\<close> of \<open>Comment.__str__\<close>, and
  \<open>NoReverseMatch\<close> of \<open>django.urls.reverse\<close>.
\<close>

datatype py_error =
    DoesNotExist
  | IntegrityError
  | RestrictedError
  | AttributeError
  | NoReverseMatch

section \<open>Lookups: \<open>Model.objects.get(pk=...)\<close>\<close>

definition get_user :: "db \<Rightarrow> pk \<Rightarrow> user option" where
  "get_user d k = find (\<lambda>u. user_id u = k) (users d)"

definition get_author :: "db \<Rightarrow> pk \<Rightarrow> author option" where
  "get_author d k = find (\<lambda>a. author_id a = k) (authors d)"

definition get_blog :: "db \<Rightarrow> pk \<Rightarrow> blog option" where
  "get_blog d k = find (\<lambda>b. blog_id b = k) (blogs d)"

definition get_comment :: "db \<Rightarrow> pk \<Rightarrow> comment option" where
  "get_comment d k = find (\<lambda>c. comment_id c = k) (comments d)"

text \<open>A nullable foreign key is accepted by the database when it is NULL or names a row.\<close>

definition fk_ok :: "pk list \<Rightarrow> pk option \<Rightarrow> bool" where
  "fk_ok ks r = (case r of None \<Rightarrow> True | Some k \<Rightarrow> k \<in> set ks)"

abbreviation user_ids :: "db \<Rightarrow> pk list" where
  "user_ids d \<equiv> map user_id (users d)"

abbreviation author_ids :: "db \<Rightarrow> pk list" where
  "author_ids d \<equiv> map author_id (authors d)"

abbreviation blog_ids :: "db \<Rightarrow> pk list" where
  "blog_ids d \<equiv> map blog_id (blogs d)"

abbreviation comment_ids :: "db \<Rightarrow> pk list" where
  "comment_ids d \<equiv> map comment_id (comments d)"

section \<open>Inserts: \<open>Model.objects.create(...)\<close>\<close>

text \<open>
  \<open>objects.create\<close> builds the instance and saves it with \<open>force_insert\<close>: the row
  gets the next key of its table's sequence; a foreign key naming no row, or a second
  author for one user (the UNIQUE constraint of the \<open>OneToOneField\<close>), is refused
  with \<open>IntegrityError\<close> and leaves the database as it was. Usernames are unique in
  \<open>auth_user\<close>.
\<close>

definition create_user :: "db \<Rightarrow> string \<Rightarrow> py_error + (user \<times> db)" where
  "create_user d nm =
     (if nm \<in> set (map username (users d)) then Inl IntegrityError
      else let u = \<lparr>user_id = next_user d, username = nm\<rparr>
           in Inr (u, d\<lparr>users := users d @ [u], next_user := Suc (next_user d)\<rparr>))"

definition create_author :: "db \<Rightarrow> pk option \<Rightarrow> string \<Rightarrow> py_error + (author \<times> db)" where
  "create_author d nm bio =
     (if \<not> fk_ok (user_ids d) nm \<or> (nm \<noteq> None \<and> nm \<in> set (map author_name (authors d)))
      then Inl IntegrityError
      else let a = \<lparr>author_id = next_author d, author_name = nm, biography = bio\<rparr>
           in Inr (a, d\<lparr>authors := authors d @ [a], next_author := Suc (next_author d)\<rparr>))"

definition create_blog ::
  "db \<Rightarrow> string \<Rightarrow> pk option \<Rightarrow> string \<Rightarrow> date option \<Rightarrow> py_error + (blog \<times> db)" where
  "create_blog d t au ct pd =
     (if \<not> fk_ok (author_ids d) au then Inl IntegrityError
      else let b = \<lparr>blog_id = next_blog d, title = t, blog_author = au,
                    blog_content = ct, blog_post_date = pd\<rparr>
           in Inr (b, d\<lparr>blogs := blogs d @ [b], next_blog := Suc (next_blog d)\<rparr>))"

definition create_comment ::
  "db \<Rightarrow> pk option \<Rightarrow> string \<Rightarrow> timestamp option \<Rightarrow> pk option \<Rightarrow> py_error + (comment \<times> db)" where
  "create_comment d bl ct pd au =
     (if \<not> fk_ok (blog_ids d) bl \<or> \<not> fk_ok (user_ids d) au then Inl IntegrityError
      else let c = \<lparr>comment_id = next_comment d, comment_blog = bl, comment_content = ct,
                    comment_post_date = pd, comment_author = au\<rparr>
           in Inr (c, d\<lparr>comments := comments d @ [c], next_comment := Suc (next_comment d)\<rparr>))"

text \<open>
  \<open>Model.save()\<close> on an instance that has a key: an UPDATE of the row with that
  key, or, when no row has it, an INSERT under that key (which moves the sequence past
  it). Only \<open>Comment.save\<close> is called by the application.
\<close>

definition save_comment :: "db \<Rightarrow> comment \<Rightarrow> py_error + db" where
  "save_comment d c =
     (if \<not> fk_ok (blog_ids d) (comment_blog c) \<or> \<not> fk_ok (user_ids d) (comment_author c)
      then Inl IntegrityError
      else if comment_id c \<in> set (comment_ids d)
      then Inr (d\<lparr>comments := map (\<lambda>x. if comment_id x = comment_id c then c else x) (comments d)\<rparr>)
      else Inr (d\<lparr>comments := insort_key comment_id c (comments d),
                  next_comment := max (next_comment d) (Suc (comment_id c))\<rparr>))"

section \<open>Deletes and the \<open>on_delete\<close> actions\<close>

text \<open>
  \<open>instance.delete()\<close> on the row with a given key (\<open>DoesNotExist\<close> when there
  is none). The referential actions are those the fields declare:
  \<^item> \<open>Comment.blog\<close> is \<open>RESTRICT\<close>: a blog that a comment names is not deleted;
  \<^item> \<open>Blog.author\<close> is \<open>SET_NULL\<close>: deleting an author clears the field of its blogs;
  \<^item> \<open>Author.name\<close> and \<open>Comment.author\<close> are \<open>SET_NULL\<close>: deleting a user clears
    the link of its author profile and the author of its comments.
\<close>

definition delete_comment :: "db \<Rightarrow> pk \<Rightarrow> py_error + db" where
  "delete_comment d k =
     (if get_comment d k = None then Inl DoesNotExist
      else Inr (d\<lparr>comments := filter (\<lambda>c. comment_id c \<noteq> k) (comments d)\<rparr>))"

definition delete_blog :: "db \<Rightarrow> pk \<Rightarrow> py_error + db" where
  "delete_blog d k =
     (if get_blog d k = None then Inl DoesNotExist
      else if list_ex (\<lambda>c. comment_blog c = Some k) (comments d) then Inl RestrictedError
      else Inr (d\<lparr>blogs := filter (\<lambda>b. blog_id b \<noteq> k) (blogs d)\<rparr>))"

definition set_null :: "pk \<Rightarrow> pk option \<Rightarrow> pk option" where
  "set_null k r = (if r = Some k then None else r)"

definition delete_author :: "db \<Rightarrow> pk \<Rightarrow> py_error + db" where
  "delete_author d k =
     (if get_author d k = None then Inl DoesNotExist
      else Inr (d\<lparr>blogs := map (\<lambda>b. b\<lparr>blog_author := set_null k (blog_author b)\<rparr>) (blogs d),
                  authors := filter (\<lambda>a. author_id a \<noteq> k) (authors d)\<rparr>))"

definition delete_user :: "db \<Rightarrow> pk \<Rightarrow> py_error + db" where
  "delete_user d k =
     (if get_user d k = None then Inl DoesNotExist
      else Inr (d\<lparr>authors := map (\<lambda>a. a\<lparr>author_name := set_null k (author_name a)\<rparr>) (authors d),
                  comments := map (\<lambda>c. c\<lparr>comment_author := set_null k (comment_author c)\<rparr>) (comments d),
                  users := filter (\<lambda>u. user_id u \<noteq> k) (users d)\<rparr>))"

section \<open>Default ordering: \<open>Meta.ordering\<close>\<close>

text \<open>
  \<open>Blog.Meta.ordering = ['-post_date']\<close> and \<open>Comment.Meta.ordering =
  ['post_date']\<close>. The SQL backend (SQLite) sorts NULL below every date, so an
  undated post comes last in the descending blog order and an undated comment first in
  the ascending comment order. Each order is a stable sort of the table by an integer
  key that encodes exactly this comparison; rows with equal keys keep their key order.
\<close>

definition blog_order_key :: "blog \<Rightarrow> bool \<times> int" where
  "blog_order_key b = (case blog_post_date b of Some dt \<Rightarrow> (False, - dt) | None \<Rightarrow> (True, 0))"

definition order_blogs :: "blog list \<Rightarrow> blog list" where
  "order_blogs bs = sort_key blog_order_key bs"

definition comment_order_key :: "comment \<Rightarrow> bool \<times> int" where
  "comment_order_key c = (case comment_post_date c of None \<Rightarrow> (False, 0) | Some t \<Rightarrow> (True, t))"

definition order_comments :: "comment list \<Rightarrow> comment list" where
  "order_comments cs = sort_key comment_order_key cs"

text \<open>\<open>Blog.objects.all()\<close> and \<open>Blog.objects.filter(author=...)\<close> under the default ordering.\<close>

definition blogs_all :: "db \<Rightarrow> blog list" where
  "blogs_all d = order_blogs (blogs d)"

definition blogs_by_author :: "db \<Rightarrow> pk \<Rightarrow> blog list" where
  "blogs_by_author d a = order_blogs (filter (\<lambda>b. blog_author b = Some a) (blogs d))"

definition comments_all :: "db \<Rightarrow> comment list" where
  "comments_all d = order_comments (comments d)"

section \<open>String representations\<close>

definition blog_str :: "blog \<Rightarrow> string" where
  "blog_str b = title b"

text \<open>
  \<open>Author.__str__\<close> is \<open>f'{self.name}'\<close>: the username of the linked user
  (\<open>User.__str__\<close>), or \<open>'None'\<close> once the link has been cleared.
\<close>

definition author_str :: "db \<Rightarrow> author \<Rightarrow> py_error + string" where
  "author_str d a =
     (case author_name a of
        None \<Rightarrow> Inr ''None''
      | Some u \<Rightarrow> (case get_user d u of None \<Rightarrow> Inl DoesNotExist | Some usr \<Rightarrow> Inr (username usr)))"

text \<open>
  \<open>Comment.__str__\<close> is \<open>f'{self.id} ({self.blog.title})'\<close>: with a NULL blog,
  \<open>self.blog\<close> is \<open>None\<close> and reading \<open>.title\<close> raises \<open>AttributeError\<close>.
\<close>

definition comment_str :: "db \<Rightarrow> comment \<Rightarrow> py_error + string" where
  "comment_str d c =
     (case comment_blog c of
        None \<Rightarrow> Inl AttributeError
      | Some k \<Rightarrow> (case get_blog d k of
          None \<Rightarrow> Inl DoesNotExist
        | Some b \<Rightarrow> Inr (py_str_nat (comment_id c) @ '' ('' @ title b @ '')'')))"

text \<open>\<open>Comment.display_comment\<close>: \<open>self.content[:50]\<close>.\<close>

definition display_comment :: "comment \<Rightarrow> string" where
  "display_comment c = take 50 (comment_content c)"

text \<open>The \<open>max_length\<close> each model field declares, as
  \<open>Model._meta.get_field(name).max_length\<close> reads it (\<open>None\<close> for a field without
  one): \<open>Blog.title\<close>, \<open>Blog.content\<close>, \<open>Author.biography\<close> and
  \<open>Comment.content\<close>.\<close>

definition field_max_length :: "string \<Rightarrow> string \<Rightarrow> nat option" where
  "field_max_length model fld =
     map_of [((''Blog'', ''title''), 200), ((''Blog'', ''content''), 5000),
             ((''Author'', ''biography''), 1000), ((''Comment'', ''content''), 200)] (model, fld)"

section \<open>The invariant of the database\<close>

text \<open>
  Keys of a table are increasing (primary-key order) and below the next
  key of the sequence; every foreign key is NULL or names a row; usernames are unique;
  no two authors share a user (the UNIQUE constraint of the one-to-one field).
\<close>

definition keys_ok :: "pk list \<Rightarrow> pk \<Rightarrow> bool" where
  "keys_ok ks nxt = (sorted_wrt (<) ks \<and> list_all (\<lambda>k. k < nxt) ks)"

definition db_wf :: "db \<Rightarrow> bool" where
  "db_wf d =
     (keys_ok (user_ids d) (next_user d) \<and> keys_ok (author_ids d) (next_author d)
      \<and> keys_ok (blog_ids d) (next_blog d) \<and> keys_ok (comment_ids d) (next_comment d)
      \<and> distinct (map username (users d))
      \<and> list_all (\<lambda>a. fk_ok (user_ids d) (author_name a)) (authors d)
      \<and> distinct (List.map_filter author_name (authors d))
      \<and> list_all (\<lambda>b. fk_ok (author_ids d) (blog_author b)) (blogs d)
      \<and> list_all (\<lambda>c. fk_ok (blog_ids d) (comment_blog c) \<and> fk_ok (user_ids d) (comment_author c))
          (comments d))"

section \<open>The ORM operations as one step function\<close>

text \<open>
  Every write the application or the admin site issues is one of these operations;
  \<open>apply_db_op\<close> runs it, and \<open>reachable_db\<close> is the set of databases a
  sequence of successful writes builds from the empty one.
\<close>

datatype db_op =
    CreateUser string
  | CreateAuthor "pk option" string
  | CreateBlog string "pk option" string "date option"
  | CreateComment "pk option" string "timestamp option" "pk option"
  | SaveComment comment
  | DeleteUser pk
  | DeleteAuthor pk
  | DeleteBlog pk
  | DeleteComment pk

fun apply_db_op :: "db \<Rightarrow> db_op \<Rightarrow> py_error + db" where
  "apply_db_op d (CreateUser nm) = map_sum id snd (create_user d nm)"
| "apply_db_op d (CreateAuthor nm bio) = map_sum id snd (create_author d nm bio)"
| "apply_db_op d (CreateBlog t au ct pd) = map_sum id snd (create_blog d t au ct pd)"
| "apply_db_op d (CreateComment bl ct pd au) = map_sum id snd (create_comment d bl ct pd au)"
| "apply_db_op d (SaveComment c) = save_comment d c"
| "apply_db_op d (DeleteUser k) = delete_user d k"
| "apply_db_op d (DeleteAuthor k) = delete_author d k"
| "apply_db_op d (DeleteBlog k) = delete_blog d k"
| "apply_db_op d (DeleteComment k) = delete_comment d k"

text \<open>A sequence of writes, stopping at the first exception as the calling code would.\<close>

fun run_db_ops :: "db \<Rightarrow> db_op list \<Rightarrow> py_error + db" where
  "run_db_ops d [] = Inr d"
| "run_db_ops d (op # ops) = (case apply_db_op d op of Inl e \<Rightarrow> Inl e | Inr d' \<Rightarrow> run_db_ops d' ops)"

inductive reachable_db :: "db \<Rightarrow> bool" where
  empty: "reachable_db empty_db"
| step: "reachable_db d \<Longrightarrow> apply_db_op d op = Inr d' \<Longrightarrow> reachable_db d'"

section \<open>The orders the default orderings promise\<close>

text \<open>
  \<open>newest_first b1 b2\<close>: \<open>b1\<close> may come before \<open>b2\<close> in
  \<open>ORDER BY post_date DESC\<close> (a dated post before an undated one, later dates first);
  \<open>oldest_first\<close> likewise for \<open>ORDER BY post_date\<close> on comments.
\<close>

definition newest_first :: "blog \<Rightarrow> blog \<Rightarrow> bool" where
  "newest_first b1 b2 = (case (blog_post_date b1, blog_post_date b2) of
      (_, None) \<Rightarrow> True
    | (None, Some _) \<Rightarrow> False
    | (Some x, Some y) \<Rightarrow> y \<le> x)"

definition oldest_first :: "comment \<Rightarrow> comment \<Rightarrow> bool" where
  "oldest_first c1 c2 = (case (comment_post_date c1, comment_post_date c2) of
      (None, _) \<Rightarrow> True
    | (Some _, None) \<Rightarrow> False
    | (Some x, Some y) \<Rightarrow> x \<le> y)"

text \<open>
  The abstract view of the blog table: the finite map from keys to rows that
  \<open>Blog.objects\<close> stands for. The table itself is a list in key order.
\<close>

definition blog_table :: "db \<Rightarrow> pk \<rightharpoonup> blog" where
  "blog_table d = map_of (map (\<lambda>b. (blog_id b, b)) (blogs d))"

section \<open>Lemmas: lookups and inserts\<close>

lemma get_user_Some: "get_user d k = Some u \<Longrightarrow> user_id u = k \<and> u \<in> set (users d)"
  unfolding get_user_def by (drule find_Some_mem) simp

lemma get_author_Some: "get_author d k = Some a \<Longrightarrow> author_id a = k \<and> a \<in> set (authors d)"
  unfolding get_author_def by (drule find_Some_mem) simp

lemma get_blog_Some: "get_blog d k = Some b \<Longrightarrow> blog_id b = k \<and> b \<in> set (blogs d)"
  unfolding get_blog_def by (drule find_Some_mem) simp

lemma get_user_None_iff: "get_user d k = None \<longleftrightarrow> k \<notin> set (user_ids d)"
  by (auto simp: get_user_def find_None_iff)

lemma get_author_None_iff: "get_author d k = None \<longleftrightarrow> k \<notin> set (author_ids d)"
  by (auto simp: get_author_def find_None_iff)

lemma get_blog_None_iff: "get_blog d k = None \<longleftrightarrow> k \<notin> set (blog_ids d)"
  by (auto simp: get_blog_def find_None_iff)

lemma create_comment_Inr:
  "fk_ok (blog_ids d) bl \<Longrightarrow> fk_ok (user_ids d) au \<Longrightarrow>
   create_comment d bl ct pd au =
     Inr (\<lparr>comment_id = next_comment d, comment_blog = bl, comment_content = ct,
            comment_post_date = pd, comment_author = au\<rparr>,
          d\<lparr>comments := comments d @ [\<lparr>comment_id = next_comment d, comment_blog = bl,
              comment_content = ct, comment_post_date = pd, comment_author = au\<rparr>],
            next_comment := Suc (next_comment d)\<rparr>)"
  by (simp add: create_comment_def Let_def)

lemma save_created_comment:
  assumes wf: "db_wf d" and cr: "create_comment d bl ct pd au = Inr (c, d1)"
  shows "save_comment d1 c = Inr d1"
proof -
  from cr have fk: "fk_ok (blog_ids d) bl" "fk_ok (user_ids d) au"
    by (auto simp: create_comment_def split: if_splits)
  from wf have lt: "\<forall>x \<in> set (comments d). comment_id x \<noteq> next_comment d"
    by (auto simp: db_wf_def keys_ok_def list_all_iff)
  from cr fk lt show ?thesis
    by (auto simp: create_comment_def save_comment_def Let_def map_replace_absent)
qed

section \<open>Lemmas: the invariant is kept by every operation\<close>

lemma keys_ok_snoc: "keys_ok ks n \<Longrightarrow> keys_ok (ks @ [n]) (Suc n)"
  by (auto simp: keys_ok_def sorted_wrt_append list_all_iff)

lemma keys_ok_filter: "keys_ok (map f xs) n \<Longrightarrow> keys_ok (map f (filter P xs)) n"
  by (auto simp: keys_ok_def sorted_wrt_map list_all_iff intro: sorted_wrt_filter)

lemma fk_ok_snoc: "fk_ok ks r \<Longrightarrow> fk_ok (ks @ [n]) r"
  by (auto simp: fk_ok_def split: option.splits)

lemma fk_ok_filter_set_null:
  "fk_ok (map f xs) r \<Longrightarrow> fk_ok (map f (filter (\<lambda>x. f x \<noteq> k) xs)) (set_null k r)"
  by (auto simp: fk_ok_def set_null_def split: option.splits)

lemma fk_ok_filter_other:
  "fk_ok (map f xs) r \<Longrightarrow> r \<noteq> Some k \<Longrightarrow> fk_ok (map f (filter (\<lambda>x. f x \<noteq> k) xs)) r"
  by (auto simp: fk_ok_def split: option.splits)

lemma set_null_ne [simp]: "set_null k r \<noteq> Some k"
  by (simp add: set_null_def)

lemma map_filter_set_null:
  "List.map_filter g (map (\<lambda>a. h a (set_null k (g a))) xs) = filter (\<lambda>u. u \<noteq> k) (List.map_filter g xs)"
  if "\<And>a r. g (h a r) = r"
  using that by (induction xs) (auto simp: map_filter_simps set_null_def split: option.splits)


lemma create_user_wf: "db_wf d \<Longrightarrow> create_user d nm = Inr (u, d') \<Longrightarrow> db_wf d'"
  by (auto simp: create_user_def db_wf_def keys_ok_snoc list_all_iff fk_ok_snoc Let_def
           split: if_splits)

lemma create_author_wf: "db_wf d \<Longrightarrow> create_author d nm bio = Inr (a, d') \<Longrightarrow> db_wf d'"
  by (auto simp: create_author_def db_wf_def keys_ok_snoc list_all_iff fk_ok_snoc Let_def
        intro!: distinct_map_filter_snoc split: if_splits)

lemma create_blog_wf: "db_wf d \<Longrightarrow> create_blog d t au ct pd = Inr (b, d') \<Longrightarrow> db_wf d'"
  by (auto simp: create_blog_def db_wf_def keys_ok_snoc list_all_iff fk_ok_snoc Let_def
           split: if_splits)

lemma create_comment_wf:
  "db_wf d \<Longrightarrow> create_comment d bl ct pd au = Inr (c, d') \<Longrightarrow> db_wf d'"
  by (auto simp: create_comment_def db_wf_def keys_ok_snoc list_all_iff Let_def
           split: if_splits)

lemma delete_comment_wf: "db_wf d \<Longrightarrow> delete_comment d k = Inr d' \<Longrightarrow> db_wf d'"
  by (auto simp: delete_comment_def db_wf_def keys_ok_filter list_all_iff split: if_splits)

lemma delete_blog_wf: "db_wf d \<Longrightarrow> delete_blog d k = Inr d' \<Longrightarrow> db_wf d'"
  by (auto simp: delete_blog_def db_wf_def keys_ok_filter list_all_iff list_ex_iff
           intro!: fk_ok_filter_other split: if_splits)


lemma delete_author_wf: "db_wf d \<Longrightarrow> delete_author d k = Inr d' \<Longrightarrow> db_wf d'"
  by (auto simp: delete_author_def db_wf_def keys_ok_filter list_all_iff comp_def
        distinct_map_filter_filter fk_ok_filter_set_null split: if_splits)

lemma delete_user_wf: "db_wf d \<Longrightarrow> delete_user d k = Inr d' \<Longrightarrow> db_wf d'"
proof -
  assume wf: "db_wf d" and del: "delete_user d k = Inr d'"
  have names: "List.map_filter author_name
      (map (\<lambda>a. a\<lparr>author_name := set_null k (author_name a)\<rparr>) (authors d))
    = filter (\<lambda>u. u \<noteq> k) (List.map_filter author_name (authors d))"
    by (rule map_filter_set_null) simp
  from wf del names show ?thesis
    by (auto simp: delete_user_def db_wf_def keys_ok_filter list_all_iff comp_def
          distinct_map_filter fk_ok_filter_set_null split: if_splits)
qed


lemma keys_ok_insort_key:
  "keys_ok (map f xs) n \<Longrightarrow> f x \<notin> set (map f xs) \<Longrightarrow>
   keys_ok (map f (insort_key f x xs)) (max n (Suc (f x)))"
  by (auto simp: keys_ok_def strict_sorted_iff sorted_insort_key distinct_insort_key
        list_all_iff set_insort_key)

lemma save_comment_set: "save_comment d c = Inr d' \<Longrightarrow> set (comments d') \<subseteq> insert c (set (comments d))"
  by (auto simp: save_comment_def set_insort_key split: if_splits)

lemma save_comment_wf: "db_wf d \<Longrightarrow> save_comment d c = Inr d' \<Longrightarrow> db_wf d'"
proof -
  assume wf: "db_wf d" and sv: "save_comment d c = Inr d'"
  then have fk: "fk_ok (blog_ids d) (comment_blog c)" "fk_ok (user_ids d) (comment_author c)"
    by (auto simp: save_comment_def split: if_splits)
  have same: "users d' = users d" "authors d' = authors d" "blogs d' = blogs d"
    "next_user d' = next_user d" "next_author d' = next_author d" "next_blog d' = next_blog d"
    using sv by (auto simp: save_comment_def split: if_splits)
  have cs: "set (comments d') \<subseteq> insert c (set (comments d))"
    using sv by (rule save_comment_set)
  have keys: "keys_ok (comment_ids d') (next_comment d')"
  proof (cases "comment_id c \<in> set (comment_ids d)")
    case True
    then have "comment_ids d' = comment_ids d" and "next_comment d' = next_comment d"
      using sv fk by (auto simp: save_comment_def map_eq_conv)
    with wf show ?thesis by (simp add: db_wf_def)
  next
    case False
    then have "comments d' = insort_key comment_id c (comments d)"
      and "next_comment d' = max (next_comment d) (Suc (comment_id c))"
      using sv fk by (auto simp: save_comment_def)
    with wf False show ?thesis by (simp add: db_wf_def keys_ok_insort_key)
  qed
  from wf fk cs have "list_all (\<lambda>x. fk_ok (blog_ids d') (comment_blog x)
      \<and> fk_ok (user_ids d') (comment_author x)) (comments d')"
    by (auto simp: db_wf_def list_all_iff same)
  with wf keys show ?thesis
    by (simp add: db_wf_def same)
qed

lemma db_wf_empty: "db_wf empty_db"
  by (simp add: db_wf_def empty_db_def keys_ok_def)

lemma map_sum_snd_Inr: "map_sum id snd r = Inr d' \<longleftrightarrow> (\<exists>x. r = Inr (x, d'))"
  by (cases r) auto

lemma apply_db_op_wf: "db_wf d \<Longrightarrow> apply_db_op d op = Inr d' \<Longrightarrow> db_wf d'"
proof (cases op)
  case (CreateUser nm)
  then show "db_wf d \<Longrightarrow> apply_db_op d op = Inr d' \<Longrightarrow> db_wf d'"
    by (auto simp: map_sum_snd_Inr intro: create_user_wf)
next
  case (CreateAuthor nm bio)
  then show "db_wf d \<Longrightarrow> apply_db_op d op = Inr d' \<Longrightarrow> db_wf d'"
    by (auto simp: map_sum_snd_Inr intro: create_author_wf)
next
  case (CreateBlog t au ct pd)
  then show "db_wf d \<Longrightarrow> apply_db_op d op = Inr d' \<Longrightarrow> db_wf d'"
    by (auto simp: map_sum_snd_Inr intro: create_blog_wf)
next
  case (CreateComment bl ct pd au)
  then show "db_wf d \<Longrightarrow> apply_db_op d op = Inr d' \<Longrightarrow> db_wf d'"
    by (auto simp: map_sum_snd_Inr intro: create_comment_wf)
qed (auto intro: save_comment_wf delete_user_wf delete_author_wf delete_blog_wf delete_comment_wf)

text \<open>
  C6. Every database built from the empty one by successful ORM writes (creates, saves
  and deletes with their \<open>on_delete\<close> actions) satisfies \<open>db_wf\<close>: keys
  increasing and below their sequence, every foreign key NULL or naming a row,
  usernames unique, and no two authors linked to the same user.
\<close>

theorem reachable_db_wf: "reachable_db d \<Longrightarrow> db_wf d"
proof (induction rule: reachable_db.induct)
  case empty
  show ?case by (rule db_wf_empty)
next
  case (step d op d')
  then show ?case by (blast intro: apply_db_op_wf)
qed

text \<open>
  C10. In every database built from the empty one by ORM writes, no two author profiles
  are linked to the same user (\<open>Author.name\<close> is a \<open>OneToOneField\<close>), and
  creating another profile for a user who already has one is refused with
  \<open>IntegrityError\<close> (the UNIQUE constraint).
\<close>

theorem one_author_per_user:
  assumes "reachable_db d"
  shows "distinct (List.map_filter author_name (authors d))
    \<and> (\<forall>a \<in> set (authors d). \<forall>u bio. author_name a = Some u \<longrightarrow>
          create_author d (Some u) bio = Inl IntegrityError)"
proof
  from assms have "db_wf d"
    by (induction rule: reachable_db.induct) (blast intro: db_wf_empty apply_db_op_wf)+
  then show "distinct (List.map_filter author_name (authors d))" by (simp add: db_wf_def)
  show "\<forall>a \<in> set (authors d). \<forall>u bio. author_name a = Some u \<longrightarrow>
      create_author d (Some u) bio = Inl IntegrityError"
    by (force simp: create_author_def)
qed

lemma run_db_ops_reachable: "reachable_db d \<Longrightarrow> run_db_ops d ops = Inr d' \<Longrightarrow> reachable_db d'"
proof (induction ops arbitrary: d)
  case Nil
  then show ?case by simp
next
  case (Cons op ops)
  then show ?case by (auto intro: reachable_db.step split: sum.splits)
qed

section \<open>Lemmas: keys and the abstract table\<close>

lemma db_wf_distinct_blog_ids: "db_wf d \<Longrightarrow> distinct (blog_ids d)"
  by (simp add: db_wf_def keys_ok_def strict_sorted_iff)

lemma get_blog_member: "db_wf d \<Longrightarrow> b \<in> set (blogs d) \<Longrightarrow> get_blog d (blog_id b) = Some b"
  unfolding get_blog_def by (rule find_distinct_key [OF db_wf_distinct_blog_ids])

lemma get_blog_table: "get_blog d = blog_table d"
  by (simp add: fun_eq_iff get_blog_def blog_table_def find_key_map_of)

lemma get_comment_None_iff: "get_comment d k = None \<longleftrightarrow> k \<notin> set (comment_ids d)"
  by (auto simp: get_comment_def find_None_iff)

lemma blog_order_key_newest_first: "blog_order_key x \<le> blog_order_key y \<Longrightarrow> newest_first x y"
  by (auto simp: blog_order_key_def newest_first_def less_eq_prod_def split: option.splits)

lemma db_wf_distinct_comment_ids: "db_wf d \<Longrightarrow> distinct (comment_ids d)"
  by (simp add: db_wf_def keys_ok_def strict_sorted_iff)

section \<open>Properties of the data layer\<close>

text \<open>
  C7. \<open>Comment.blog\<close> is \<open>on_delete=RESTRICT\<close>: in a well-formed database,
  deleting a post that some comment refers to is refused with
  \<open>RestrictedError\<close>.
\<close>

theorem delete_blog_restricted:
  assumes "db_wf d" "c \<in> set (comments d)" "comment_blog c = Some k"
  shows "delete_blog d k = Inl RestrictedError"
proof -
  from assms have "k \<in> set (blog_ids d)"
    by (auto simp: db_wf_def list_all_iff fk_ok_def)
  then have "get_blog d k \<noteq> None" by (simp add: get_blog_None_iff)
  moreover have "list_ex (\<lambda>c. comment_blog c = Some k) (comments d)"
    using assms(2,3) by (auto simp: list_ex_iff)
  ultimately show ?thesis by (simp add: delete_blog_def)
qed

text \<open>
  C8. Deleting an existing user (\<open>SET_NULL\<close> on \<open>Author.name\<close> and
  \<open>Comment.author\<close>) succeeds and acts row by row: the user's row is gone, every
  author profile and every comment stays in place, the ones linked to that user have the
  link cleared and nothing else changed, all other rows are unchanged, and the posts are
  untouched.
\<close>

theorem delete_user_set_null:
  assumes "u \<in> set (user_ids d)"
  shows "\<exists>d'. delete_user d u = Inr d' \<and> users d' = filter (\<lambda>x. user_id x \<noteq> u) (users d)
    \<and> blogs d' = blogs d
    \<and> list_all2 (\<lambda>a a'. a' = (if author_name a = Some u then a\<lparr>author_name := None\<rparr> else a))
         (authors d) (authors d')
    \<and> list_all2 (\<lambda>c c'. c' = (if comment_author c = Some u then c\<lparr>comment_author := None\<rparr> else c))
         (comments d) (comments d')"
  using assms by (simp add: delete_user_def get_user_None_iff set_null_def list_all2_conv_all_nth)

text \<open>
  C9. Deleting an existing author (\<open>SET_NULL\<close> on \<open>Blog.author\<close>) succeeds
  and acts row by row: the author's row is gone, every post stays in place, the posts of
  that author have their author cleared and nothing else changed, the other posts are
  unchanged, and users and comments are untouched.
\<close>

theorem delete_author_set_null:
  assumes "a \<in> set (author_ids d)"
  shows "\<exists>d'. delete_author d a = Inr d' \<and> authors d' = filter (\<lambda>x. author_id x \<noteq> a) (authors d)
    \<and> users d' = users d \<and> comments d' = comments d
    \<and> list_all2 (\<lambda>b b'. b' = (if blog_author b = Some a then b\<lparr>blog_author := None\<rparr> else b))
         (blogs d) (blogs d')"
  using assms by (simp add: delete_author_def get_author_None_iff set_null_def list_all2_conv_all_nth)

text \<open>
  Creating a second author profile for a user who already has one is refused
  with \<open>IntegrityError\<close> (the UNIQUE constraint of the one-to-one field).
\<close>

theorem create_author_duplicate_user:
  assumes "a \<in> set (authors d)" "author_name a = Some u"
  shows "create_author d (Some u) bio = Inl IntegrityError"
  using assms by (force simp: create_author_def)

text \<open>
  C12. \<open>Blog.objects.all()\<close> under \<open>ordering = ['-post_date']\<close> is a
  permutation of the table in which dated posts come first, newest first, undated
  posts last, and posts with the same date keep their key order.
\<close>

theorem blogs_all_ordered:
  "mset (blogs_all d) = mset (blogs d) \<and> sorted_wrt newest_first (blogs_all d)
   \<and> (\<forall>x. filter (\<lambda>b. blog_post_date b = x) (blogs_all d) = filter (\<lambda>b. blog_post_date b = x) (blogs d))"
proof (intro conjI allI)
  show "mset (blogs_all d) = mset (blogs d)" by (simp add: blogs_all_def order_blogs_def)
  have "sorted_wrt (\<lambda>x y. blog_order_key x \<le> blog_order_key y) (blogs_all d)"
    using sorted_sort_key [of blog_order_key "blogs d"]
    by (simp add: blogs_all_def order_blogs_def sorted_map)
  then show "sorted_wrt newest_first (blogs_all d)"
    by (rule sorted_wrt_mono_rel [rotated]) (rule blog_order_key_newest_first)
  fix x
  have key: "\<And>b. blog_post_date b = x \<longleftrightarrow> blog_order_key b = (case x of Some dt \<Rightarrow> (False, - dt) | None \<Rightarrow> (True, 0))"
    by (auto simp: blog_order_key_def split: option.splits)
  show "filter (\<lambda>b. blog_post_date b = x) (blogs_all d) = filter (\<lambda>b. blog_post_date b = x) (blogs d)"
    by (simp only: key blogs_all_def order_blogs_def sort_key_stable)
qed

text \<open>
  C13. The comments under \<open>ordering = ['post_date']\<close> are a permutation of the table
  with undated comments first and the rest oldest first.
\<close>

theorem comments_all_ordered:
  "mset (comments_all d) = mset (comments d) \<and> sorted_wrt oldest_first (comments_all d)"
proof
  show "mset (comments_all d) = mset (comments d)" by (simp add: comments_all_def order_comments_def)
  have "sorted_wrt (\<lambda>x y. comment_order_key x \<le> comment_order_key y) (comments_all d)"
    using sorted_sort_key [of comment_order_key "comments d"]
    by (simp add: comments_all_def order_comments_def sorted_map)
  then show "sorted_wrt oldest_first (comments_all d)"
    by (rule sorted_wrt_mono_rel [rotated])
       (auto simp: comment_order_key_def oldest_first_def less_eq_prod_def split: option.splits)
qed

text \<open>
  C23. \<open>Comment.__str__\<close> on a comment of a well-formed database raises exactly
  when the comment's blog is NULL (\<open>AttributeError\<close>: the field is declared
  \<open>null=True\<close>); otherwise it is \<open>'<id> (<title>)'\<close> of the existing post.
\<close>

theorem comment_str_wf:
  assumes "db_wf d" "c \<in> set (comments d)"
  shows "(comment_str d c = Inl AttributeError \<longleftrightarrow> comment_blog c = None)
    \<and> (\<forall>k. comment_blog c = Some k \<longrightarrow>
          (\<exists>b. get_blog d k = Some b \<and> comment_str d c = Inr (py_str_nat (comment_id c) @ '' ('' @ title b @ '')'')))"
proof (cases "comment_blog c")
  case None
  then show ?thesis by (simp add: comment_str_def)
next
  case (Some k)
  with assms have "k \<in> set (blog_ids d)" by (auto simp: db_wf_def list_all_iff fk_ok_def)
  then obtain b where "get_blog d k = Some b" by (cases "get_blog d k") (auto simp: get_blog_None_iff)
  with Some show ?thesis by (simp add: comment_str_def)
qed

text \<open>
  C25. The blog table refines a finite map from keys to posts (the map
  specification: lookup, update, deletion): \<open>objects.get\<close> is lookup,
  \<open>objects.create\<close> adds a key that was not in the map; \<open>delete\<close> succeeds
  exactly for a key in the map that no comment refers to (\<open>RESTRICT\<close>), and then
  removes that key and nothing else, leaving the comments as they were.
\<close>

theorem blog_table_refinement:
  assumes wf: "db_wf d"
  shows "get_blog d = blog_table d
    \<and> (create_blog d t au ct pd = Inr (b, d') \<longrightarrow>
         blog_id b \<notin> dom (blog_table d) \<and> blog_table d' = (blog_table d)(blog_id b \<mapsto> b)
         \<and> comments d' = comments d)
    \<and> ((\<exists>d''. delete_blog d k = Inr d'') \<longleftrightarrow>
         k \<in> dom (blog_table d) \<and> Some k \<notin> set (map comment_blog (comments d)))
    \<and> (delete_blog d k = Inr d'' \<longrightarrow>
         blog_table d'' = (blog_table d)(k := None) \<and> comments d'' = comments d)"
proof (intro conjI impI)
  show "get_blog d = blog_table d" by (rule get_blog_table)
next
  assume cr: "create_blog d t au ct pd = Inr (b, d')"
  then have b: "blog_id b = next_blog d" and bs: "blogs d' = blogs d @ [b]"
    and cs: "comments d' = comments d"
    by (auto simp: create_blog_def Let_def split: if_splits)
  have fresh: "blog_id b \<notin> set (blog_ids d)"
    using wf b by (auto simp: db_wf_def keys_ok_def list_all_iff)
  then have "get_blog d (blog_id b) = None" by (simp only: get_blog_None_iff not_False_eq_True)
  then show "blog_id b \<notin> dom (blog_table d)" by (simp add: get_blog_table domIff)
  show "blog_table d' = (blog_table d)(blog_id b \<mapsto> b)"
    unfolding blog_table_def bs by (rule map_of_snoc_fresh [OF fresh])
  show "comments d' = comments d" by (rule cs)
next
  show "(\<exists>d''. delete_blog d k = Inr d'') \<longleftrightarrow>
      k \<in> dom (blog_table d) \<and> Some k \<notin> set (map comment_blog (comments d))"
    by (force simp: delete_blog_def get_blog_table [symmetric] domIff list_ex_iff image_iff)
next
  assume del: "delete_blog d k = Inr d''"
  then have bs: "blogs d'' = filter (\<lambda>b. blog_id b \<noteq> k) (blogs d)" and cs: "comments d'' = comments d"
    by (auto simp: delete_blog_def split: if_splits)
  show "blog_table d'' = (blog_table d)(k := None)"
    by (simp add: blog_table_def bs map_of_filter_key)
  show "comments d'' = comments d" by (rule cs)
qed

end
