(* ===== verification/Forms.thy ===== *)
theory Forms
  imports Prelude
begin

text \<open>
  The form layer of \<open>src/blog/forms.py\<close>: \<open>CommentForm\<close>, the \<open>ModelForm\<close>
  over \<open>Comment\<close> with the one field \<open>content\<close>. The model field is
  \<open>TextField(max_length=200)\<close> with \<open>blank=False\<close>, so the form field Django
  derives from it is a required \<open>forms.CharField(max_length=200)\<close> with the
  default \<open>strip=True\<close>. Its \<open>clean\<close> is modelled as Django runs it:
  \<open>to_python\<close> (a missing value becomes \<open>''\<close>, whitespace is stripped),
  \<open>validate\<close> (the required check) and \<open>run_validators\<close> (skipped on an empty
  value; otherwise \<open>MaxLengthValidator\<close> and
  \<open>ProhibitNullCharactersValidator\<close>, whose errors are all collected). The
  submitted data is \<open>request.POST\<close>, a \<open>QueryDict\<close> whose \<open>get\<close> returns the
  last value given for a key.
\<close>

datatype field_error =
    Required
  | MaxLength nat nat
      \<comment> \<open>the limit and the length of the cleaned value\<close>
  | NullCharacters
  | InvalidChoice
      \<comment> \<open>a \<open>ModelChoiceField\<close> value that names no row\<close>
  | UniqueError string string
      \<comment> \<open>the model's and the field's verbose names\<close>
  | InvalidDate
      \<comment> \<open>a \<open>DateField\<close> value that no input format reads\<close>
  | InvalidTime
      \<comment> \<open>a \<open>TimeField\<close> value that no input format reads\<close>

definition error_message :: "field_error \<Rightarrow> string" where
  "error_message e = (case e of
      Required \<Rightarrow> ''This field is required.''
    | MaxLength lim n \<Rightarrow> ''Ensure this value has at most '' @ py_str_nat lim
        @ '' characters (it has '' @ py_str_nat n @ '').''
    | NullCharacters \<Rightarrow> ''Null characters are not allowed.''
    | InvalidChoice \<Rightarrow> ''Select a valid choice. That choice is not one of the available choices.''
    | UniqueError m f \<Rightarrow> m @ '' with this '' @ f @ '' already exists.''
    | InvalidDate \<Rightarrow> ''Enter a valid date.''
    | InvalidTime \<Rightarrow> ''Enter a valid time.'')"

type_synonym query_dict = "(string \<times> string) list"

definition querydict_get :: "query_dict \<Rightarrow> string \<Rightarrow> string option" where
  "querydict_get q k = (case filter (\<lambda>kv. fst kv = k) q of [] \<Rightarrow> None | kvs \<Rightarrow> Some (snd (last kvs)))"

section \<open>\<open>forms.CharField.clean\<close>\<close>

definition charfield_to_python :: "string option \<Rightarrow> string" where
  "charfield_to_python raw = (case raw of None \<Rightarrow> [] | Some s \<Rightarrow> py_strip s)"

definition charfield_validators :: "nat option \<Rightarrow> string \<Rightarrow> field_error list" where
  "charfield_validators max_len v =
     (case max_len of Some m \<Rightarrow> if m < length v then [MaxLength m (length v)] else [] | None \<Rightarrow> [])
     @ (if CHR 0x00 \<in> set v then [NullCharacters] else [])"

definition charfield_clean :: "nat option \<Rightarrow> bool \<Rightarrow> string option \<Rightarrow> field_error list + string" where
  "charfield_clean max_len required raw =
     (let v = charfield_to_python raw in
      if v = [] then (if required then Inl [Required] else Inr [])
      else (let errs = charfield_validators max_len v in if errs = [] then Inr v else Inl errs))"

section \<open>\<open>CommentForm\<close>\<close>

definition comment_form_label :: string where
  "comment_form_label = ''Comment''"

definition comment_form_help_text :: string where
  "comment_form_help_text = ''Enter a comment''"

definition comment_content_max_length :: nat where
  "comment_content_max_length = 200"

text \<open>
  \<open>CommentForm(request.POST)\<close> followed by \<open>is_valid()\<close> and
  \<open>cleaned_data['content']\<close>: the errors of the \<open>content\<close> field, or its cleaned
  value. The model-level \<open>full_clean\<close> that \<open>ModelForm\<close> runs afterwards adds no
  error: a \<open>TextField\<close> has no model validator and the value is not blank.
\<close>

definition comment_form_clean :: "query_dict \<Rightarrow> field_error list + string" where
  "comment_form_clean post =
     charfield_clean (Some comment_content_max_length) True (querydict_get post ''content'')"

definition comment_form_is_valid :: "query_dict \<Rightarrow> bool" where
  "comment_form_is_valid post = (case comment_form_clean post of Inl _ \<Rightarrow> False | Inr _ \<Rightarrow> True)"

section \<open>Lemmas on field cleaning\<close>

lemma charfield_validators_Nil_iff:
  "charfield_validators (Some m) v = [] \<longleftrightarrow> length v \<le> m \<and> CHR 0x00 \<notin> set v"
  by (auto simp: charfield_validators_def)

lemma charfield_clean_required_Inr:
  "charfield_clean (Some m) True raw = Inr v \<longleftrightarrow>
     v = charfield_to_python raw \<and> v \<noteq> [] \<and> length v \<le> m \<and> CHR 0x00 \<notin> set v"
  by (auto simp: charfield_clean_def Let_def charfield_validators_Nil_iff)

lemma comment_form_clean_Inr_bounds:
  "comment_form_clean post = Inr v \<Longrightarrow> v \<noteq> [] \<and> length v \<le> 200 \<and> CHR 0x00 \<notin> set v"
  by (auto simp: comment_form_clean_def charfield_clean_required_Inr comment_content_max_length_def)

section \<open>Properties of \<open>CommentForm\<close>\<close>

text \<open>
  C5. \<open>CommentForm\<close> accepts a submission exactly when the submitted
  \<open>content\<close>, stripped of surrounding whitespace, is non-empty, at most 200
  characters long and free of NUL characters; the cleaned value is the stripped text.
\<close>

theorem comment_form_clean_valid_iff:
  "comment_form_clean post = Inr v \<longleftrightarrow>
     (v = py_strip (case querydict_get post ''content'' of None \<Rightarrow> [] | Some s \<Rightarrow> s)
      \<and> v \<noteq> [] \<and> length v \<le> 200 \<and> CHR 0x00 \<notin> set v)"
proof -
  have "charfield_to_python (querydict_get post ''content'')
      = py_strip (case querydict_get post ''content'' of None \<Rightarrow> [] | Some s \<Rightarrow> s)"
    by (simp add: charfield_to_python_def py_strip_def split: option.splits)
  then show ?thesis
    by (simp add: comment_form_clean_def charfield_clean_required_Inr comment_content_max_length_def)
qed

end
