(* ===== verification/Urls.thy ===== *)
theory Urls
  imports Models
begin

text \<open>
  The routing of \<open>src/blog/urls.py\<close>: the seven \<open>path()\<close> patterns in their
  order, matched against the part of the request path below the \<open>blog/\<close> prefix
  under which the project includes the application (the project's own URLconf is not
  part of the repository; the prefix is the one the tests expect, \<open>/blog/...\<close>).
  \<open><int:pk>\<close> is Django's \<open>IntConverter\<close>: the regular expression
  \<open>[0-9]+\<close>, read with \<open>int()\<close>, written back with \<open>str()\<close>. A pattern must
  match the whole remaining path, and the first pattern that matches wins. The
  theory also holds \<open>reverse\<close>, the \<open>get_absolute_url\<close> methods of
  \<open>models.py\<close> that call it, and the login redirect of \<open>@login_required\<close>
  (\<open>redirect_to_login\<close> with the default \<open>LOGIN_URL\<close>).
\<close>

datatype url_part = Lit string | IntArg

datatype url_name =
    UIndex | UAuthors | UAuthorDetail | UBlogsByAuthor | UBlogs | UBlogDetail | UCreateComment

definition url_name_str :: "url_name \<Rightarrow> string" where
  "url_name_str n = (case n of
      UIndex \<Rightarrow> ''index'' | UAuthors \<Rightarrow> ''authors'' | UAuthorDetail \<Rightarrow> ''author-detail''
    | UBlogsByAuthor \<Rightarrow> ''blogs-by-author'' | UBlogs \<Rightarrow> ''blogs''
    | UBlogDetail \<Rightarrow> ''blog-detail'' | UCreateComment \<Rightarrow> ''create-comment'')"

definition urlpatterns :: "(url_part list \<times> url_name) list" where
  "urlpatterns =
     [([], UIndex),
      ([Lit ''bloggers/''], UAuthors),
      ([Lit ''bloggers/'', IntArg], UAuthorDetail),
      ([Lit ''bloggers2/'', IntArg], UBlogsByAuthor),
      ([Lit ''blogs/''], UBlogs),
      ([Lit ''blogs/'', IntArg], UBlogDetail),
      ([Lit ''blogs/'', IntArg, Lit ''/create''], UCreateComment)]"

definition app_prefix :: string where
  "app_prefix = ''/blog/''"

section \<open>Resolving a path\<close>

text \<open>
  The converter's \<open>[0-9]+\<close> is greedy; no literal of the patterns starts with a
  digit, so taking the longest run of digits is the only way a pattern can match.
\<close>

fun match_parts :: "url_part list \<Rightarrow> string \<Rightarrow> nat list option" where
  "match_parts [] s = (if s = [] then Some [] else None)"
| "match_parts (Lit l # ps) s =
     (if take (length l) s = l then match_parts ps (drop (length l) s) else None)"
| "match_parts (IntArg # ps) s =
     (let ds = takeWhile py_isdigit s in
      if ds = [] then None
      else map_option (Cons (digits_value ds)) (match_parts ps (dropWhile py_isdigit s)))"

fun resolve_in :: "(url_part list \<times> url_name) list \<Rightarrow> string \<Rightarrow> (url_name \<times> nat list) option" where
  "resolve_in [] s = None"
| "resolve_in ((ps, n) # pats) s =
     (case match_parts ps s of Some args \<Rightarrow> Some (n, args) | None \<Rightarrow> resolve_in pats s)"

definition resolve :: "string \<Rightarrow> (url_name \<times> nat list) option" where
  "resolve path =
     (if take (length app_prefix) path = app_prefix
      then resolve_in urlpatterns (drop (length app_prefix) path) else None)"

section \<open>Reversing a name\<close>

text \<open>
  \<open>reverse(name, args)\<close>: the pattern of that name whose number of arguments is the
  number given, each argument written with \<open>str()\<close>; \<open>NoReverseMatch\<close> is
  \<open>None\<close>.
\<close>

fun render_parts :: "url_part list \<Rightarrow> nat list \<Rightarrow> string option" where
  "render_parts [] [] = Some []"
| "render_parts [] (a # as) = None"
| "render_parts (Lit l # ps) as = map_option ((@) l) (render_parts ps as)"
| "render_parts (IntArg # ps) [] = None"
| "render_parts (IntArg # ps) (a # as) = map_option ((@) (py_str_nat a)) (render_parts ps as)"

fun reverse_in :: "(url_part list \<times> url_name) list \<Rightarrow> url_name \<Rightarrow> nat list \<Rightarrow> string option" where
  "reverse_in [] n args = None"
| "reverse_in ((ps, m) # pats) n args =
     (if m = n then (case render_parts ps args of Some s \<Rightarrow> Some s | None \<Rightarrow> reverse_in pats n args)
      else reverse_in pats n args)"

definition reverse :: "url_name \<Rightarrow> nat list \<Rightarrow> string option" where
  "reverse n args = map_option ((@) app_prefix) (reverse_in urlpatterns n args)"

text \<open>\<open>Blog.get_absolute_url\<close> and \<open>Author.get_absolute_url\<close>.\<close>

definition blog_get_absolute_url :: "blog \<Rightarrow> string option" where
  "blog_get_absolute_url b = reverse UBlogDetail [blog_id b]"

definition author_get_absolute_url :: "author \<Rightarrow> string option" where
  "author_get_absolute_url a = reverse UAuthorDetail [author_id a]"

section \<open>The login redirect\<close>

text \<open>
  \<open>urllib.parse.quote(s, safe='/')\<close>: ASCII letters, digits, \<open>_.-~\<close> and the safe
  characters stay, every other byte becomes \<open>%XX\<close> in upper-case hexadecimal.
\<close>

definition hex_digit :: "nat \<Rightarrow> char" where
  "hex_digit n = (if n < 10 then char_of (48 + n) else char_of (55 + n))"

definition url_unreserved :: "char \<Rightarrow> bool" where
  "url_unreserved c = (let n = (of_char c :: nat) in
     (48 \<le> n \<and> n \<le> 57) \<or> (65 \<le> n \<and> n \<le> 90) \<or> (97 \<le> n \<and> n \<le> 122) \<or> c \<in> set ''_.-~'')"

definition url_quote :: "string \<Rightarrow> string \<Rightarrow> string" where
  "url_quote safe s = concat (map (\<lambda>c. if url_unreserved c \<or> c \<in> set safe then [c]
       else [CHR ''%'', hex_digit (of_char c div 16), hex_digit (of_char c mod 16)]) s)"

definition login_url :: string where
  "login_url = ''/accounts/login/''"

text \<open>
  \<open>redirect_to_login(request.get_full_path())\<close>: the login page with the current
  path, query string included, in the \<open>next\<close> parameter.
\<close>

definition redirect_to_login :: "string \<Rightarrow> string" where
  "redirect_to_login next = login_url @ ''?next='' @ url_quote ''/'' next"

section \<open>Lemmas: digit runs, reverse and resolve\<close>

lemma takeWhile_py_str_nat [simp]: "takeWhile py_isdigit (py_str_nat n) = py_str_nat n"
  using py_str_nat_digits [of n] by (simp add: takeWhile_eq_all_conv)

lemma dropWhile_py_str_nat [simp]: "dropWhile py_isdigit (py_str_nat n) = []"
  using py_str_nat_digits [of n] by (simp add: dropWhile_eq_Nil_conv)

lemma takeWhile_py_str_nat_Cons [simp]:
  "\<not> py_isdigit c \<Longrightarrow> takeWhile py_isdigit (py_str_nat n @ c # s) = py_str_nat n"
  using py_str_nat_digits [of n] by (simp add: takeWhile_append2)

lemma dropWhile_py_str_nat_Cons [simp]:
  "\<not> py_isdigit c \<Longrightarrow> dropWhile py_isdigit (py_str_nat n @ c # s) = c # s"
  using py_str_nat_digits [of n] by (simp add: dropWhile_append2)

lemma slash_not_digit [simp]: "\<not> py_isdigit (CHR ''/'')"
  by (simp add: py_isdigit_def)

lemmas url_simps = reverse_def resolve_def urlpatterns_def app_prefix_def

lemma reverse_Some_args:
  "reverse n args = Some p \<Longrightarrow>
     (n \<in> {UIndex, UAuthors, UBlogs} \<and> args = []) \<or> (n \<notin> {UIndex, UAuthors, UBlogs} \<and> (\<exists>k. args = [k]))"
proof (cases args)
  case Nil
  then show "reverse n args = Some p \<Longrightarrow> ?thesis" by (cases n) (auto simp: url_simps)
next
  case (Cons k rest)
  then show "reverse n args = Some p \<Longrightarrow> ?thesis"
    by (cases n; cases rest) (auto simp: url_simps)
qed

lemma blog_get_absolute_url_eq:
  "blog_get_absolute_url b = Some (''/blog/blogs/'' @ py_str_nat (blog_id b))"
  by (simp add: blog_get_absolute_url_def url_simps)

lemma author_get_absolute_url_eq:
  "author_get_absolute_url a = Some (''/blog/bloggers/'' @ py_str_nat (author_id a))"
  by (simp add: author_get_absolute_url_def url_simps)

lemma reverse_blog_detail: "reverse UBlogDetail [k] = Some (''/blog/blogs/'' @ py_str_nat k)"
  by (simp add: url_simps)

lemma reverse_create_comment:
  "reverse UCreateComment [k] = Some (''/blog/blogs/'' @ py_str_nat k @ ''/create'')"
  by (simp add: url_simps)

lemma url_quote_keep:
  "\<forall>c \<in> set s. url_unreserved c \<or> c \<in> set safe \<Longrightarrow> url_quote safe s = s"
  by (induction s) (auto simp: url_quote_def)

lemma digit_unreserved: "py_isdigit c \<Longrightarrow> url_unreserved c"
  by (simp add: py_isdigit_def url_unreserved_def Let_def)

lemma redirect_to_login_create_path:
  "redirect_to_login (''/blog/blogs/'' @ py_str_nat k @ ''/create'')
     = ''/accounts/login/?next=/blog/blogs/'' @ py_str_nat k @ ''/create''"
proof -
  have "\<forall>c \<in> set (py_str_nat k). url_unreserved c"
    using py_str_nat_digits [of k] by (auto intro: digit_unreserved)
  then have "url_quote ''/'' (''/blog/blogs/'' @ py_str_nat k @ ''/create'')
      = ''/blog/blogs/'' @ py_str_nat k @ ''/create''"
    by (intro url_quote_keep) (auto simp: url_unreserved_def)
  then show ?thesis by (simp add: redirect_to_login_def login_url_def)
qed

lemma resolve_index: "resolve ''/blog/'' = Some (UIndex, [])"
  by (simp add: url_simps)

lemma resolve_authors: "resolve ''/blog/bloggers/'' = Some (UAuthors, [])"
  by (simp add: url_simps)

lemma resolve_blogs: "resolve ''/blog/blogs/'' = Some (UBlogs, [])"
  by (simp add: url_simps)

lemma resolve_blog_detail: "resolve (''/blog/blogs/'' @ py_str_nat k) = Some (UBlogDetail, [k])"
  by (simp add: url_simps)

lemma resolve_create_comment:
  "resolve (''/blog/blogs/'' @ py_str_nat k @ ''/create'') = Some (UCreateComment, [k])"
  by (simp add: url_simps)

lemma match_parts_length:
  "match_parts ps s = Some args \<Longrightarrow> length args = length (filter (\<lambda>p. p = IntArg) ps)"
proof (induction ps s arbitrary: args rule: match_parts.induct)
  case (1 s)
  then show ?case by (simp split: if_splits)
next
  case (2 l ps s)
  then show ?case by (simp split: if_splits)
next
  case (3 ps s)
  then show ?case by (auto simp: Let_def split: if_splits)
qed

lemma resolve_in_Some:
  "resolve_in pats s = Some (n, args) \<Longrightarrow> \<exists>ps. (ps, n) \<in> set pats \<and> match_parts ps s = Some args"
  by (induction pats s rule: resolve_in.induct) (auto split: option.splits)

lemma resolve_Some_args:
  assumes "resolve p = Some (n, args)"
  shows "(n \<in> {UIndex, UAuthors, UBlogs} \<and> args = []) \<or> (n \<notin> {UIndex, UAuthors, UBlogs} \<and> (\<exists>k. args = [k]))"
proof -
  from assms obtain ps where ps: "(ps, n) \<in> set urlpatterns" and m: "match_parts ps (drop (length app_prefix) p) = Some args"
    by (auto simp: resolve_def dest: resolve_in_Some split: if_splits)
  from match_parts_length [OF m] ps show ?thesis
    by (auto simp: urlpatterns_def length_Suc_conv)
qed

section \<open>Properties of the routing\<close>

text \<open>
  C20. \<open>reverse\<close> and \<open>resolve\<close> agree: whenever \<open>reverse(name, args)\<close> succeeds,
  resolving the path it builds gives back that name and those arguments, so every
  \<open>{% url %}\<close>, \<open>reverse\<close> and \<open>get_absolute_url\<close> of the site reaches the view
  it names.
\<close>

theorem reverse_resolve: "reverse n args = Some p \<Longrightarrow> resolve p = Some (n, args)"
proof -
  assume rev: "reverse n args = Some p"
  from reverse_Some_args [OF rev] consider
      "n \<in> {UIndex, UAuthors, UBlogs}" "args = []"
    | k where "n \<notin> {UIndex, UAuthors, UBlogs}" "args = [k]"
    by blast
  then show ?thesis
  proof cases
    case 1
    with rev show ?thesis by (cases n) (auto simp: url_simps)
  next
    case (2 k)
    with rev show ?thesis by (cases n) (auto simp: url_simps)
  qed
qed

end
