(* ===== verification/Pagination.thy ===== *)
theory Pagination
  imports Prelude
begin

text \<open>
  Pagination of the list views: \<open>paginate_by = 5\<close> on \<open>BlogListView\<close> and
  \<open>BlogListByAuthorView\<close> in \<open>src/blog/views.py\<close> hands the ordered query
  set to Django's \<open>MultipleObjectMixin.paginate_queryset\<close>, which builds a
  \<open>Paginator(queryset, 5, orphans=0, allow_empty_first_page=True)\<close>, reads the
  page from \<open>request.GET.get('page') or 1\<close>, converts it with Python's
  \<open>int()\<close> (\<open>'last'\<close> names the last page), and answers every invalid page with
  \<open>Http404\<close>. The context it returns carries \<open>is_paginated =
  page.has_other_pages()\<close>. The framework code is not part of the repository; these
  definitions follow Django's \<open>paginator.py\<close> and \<open>list.py\<close>.
\<close>

section \<open>Python's \<open>int()\<close> on a string\<close>

text \<open>
  Surrounding whitespace is ignored, one sign is allowed, and the digits may be grouped
  by single underscores between digits (\<open>int('1_0') == 10\<close>).
\<close>

fun py_digit_body :: "string \<Rightarrow> bool" where
  "py_digit_body [] = False"
| "py_digit_body (c # r) =
     (py_isdigit c \<and> (case r of [] \<Rightarrow> True
                     | d # r' \<Rightarrow> if d = CHR ''_'' then py_digit_body r' else py_digit_body r))"

definition py_int_body :: "string \<Rightarrow> nat option" where
  "py_int_body t =
     (if py_digit_body t then Some (digits_value (filter (\<lambda>c. c \<noteq> CHR ''_'') t)) else None)"

definition py_int :: "string \<Rightarrow> int option" where
  "py_int s = (case py_strip s of
       [] \<Rightarrow> None
     | c # t \<Rightarrow>
         if c = CHR ''-'' then map_option (\<lambda>n. - int n) (py_int_body t)
         else if c = CHR ''+'' then map_option int (py_int_body t)
         else map_option int (py_int_body (c # t)))"

section \<open>\<open>Paginator\<close>\<close>

definition paginator_num_pages :: "nat \<Rightarrow> nat \<Rightarrow> nat \<Rightarrow> bool \<Rightarrow> nat" where
  "paginator_num_pages cnt per_page orphans allow_empty_first_page =
     (if cnt = 0 \<and> \<not> allow_empty_first_page then 0
      else let hits = max 1 (cnt - orphans) in (hits + per_page - 1) div per_page)"

text \<open>\<open>Paginator.page(number)\<close> after \<open>validate_number\<close>: the slice
  \<open>object_list[bottom:top]\<close>, the last page taking up to \<open>orphans\<close> more.\<close>

definition page_slice :: "'a list \<Rightarrow> nat \<Rightarrow> nat \<Rightarrow> nat \<Rightarrow> 'a list" where
  "page_slice xs per_page orphans number =
     (let bottom = (number - 1) * per_page;
          top = bottom + per_page;
          top' = (if length xs \<le> top + orphans then length xs else top)
      in take (top' - bottom) (drop bottom xs))"

text \<open>What the list views put into their context about the page.\<close>

record page_info =
  is_paginated :: bool
  page_number :: nat
  num_pages :: nat

definition not_paginated :: page_info where
  "not_paginated = \<lparr>is_paginated = False, page_number = 1, num_pages = 1\<rparr>"

section \<open>\<open>MultipleObjectMixin.paginate_queryset\<close>\<close>

text \<open>
  \<open>page = self.kwargs.get('page') or self.request.GET.get('page') or 1\<close>: an absent
  or empty parameter is page 1. \<open>Inl ()\<close> is the \<open>Http404\<close> raised for a page
  that is not a number, or is out of range (\<open>EmptyPage\<close>).
\<close>

definition requested_page :: "string option \<Rightarrow> nat \<Rightarrow> int option" where
  "requested_page param n =
     (case param of
        None \<Rightarrow> Some 1
      | Some p \<Rightarrow> if p = [] then Some 1
                  else (case py_int p of
                          Some i \<Rightarrow> Some i
                        | None \<Rightarrow> if p = ''last'' then Some (int n) else None))"

definition paginate_queryset :: "'a list \<Rightarrow> nat \<Rightarrow> string option \<Rightarrow> unit + (page_info \<times> 'a list)" where
  "paginate_queryset xs per_page param =
     (let n = paginator_num_pages (length xs) per_page 0 True in
      case requested_page param n of
        None \<Rightarrow> Inl ()
      | Some i \<Rightarrow>
          if i < 1 \<or> int n < i then Inl ()
          else let k = nat i in
            Inr (\<lparr>is_paginated = (1 < k \<or> k < n), page_number = k, num_pages = n\<rparr>,
                 page_slice xs per_page 0 k))"

section \<open>Lemmas on pages\<close>

lemma page_slice_no_orphans:
  "page_slice xs pp 0 k = take pp (drop ((k - 1) * pp) xs)"
  by (auto simp: page_slice_def Let_def min_def)

lemma concat_take_drop_pages:
  "concat (map (\<lambda>k. take pp (drop (k * pp) xs)) [0..<m]) = take (m * pp) xs"
proof (induction m)
  case 0
  then show ?case by simp
next
  case (Suc m)
  have "take (Suc m * pp) xs = take (m * pp) xs @ take pp (drop (m * pp) xs)"
    by (metis take_add mult_Suc add.commute)
  with Suc show ?case by simp
qed

lemma num_pages_no_orphans:
  "paginator_num_pages len pp 0 True = (max 1 len + pp - 1) div pp"
  by (simp add: paginator_num_pages_def)

lemma ceil_div_cover: "0 < pp \<Longrightarrow> (a::nat) \<le> (a + pp - 1) div pp * pp"
proof -
  assume pp: "0 < pp"
  have "(a + pp - 1) div pp * pp + (a + pp - 1) mod pp = a + pp - 1"
    by (rule div_mult_mod_eq)
  moreover have "(a + pp - 1) mod pp < pp" using pp by simp
  ultimately show ?thesis by linarith
qed

lemma num_pages_cover: "0 < pp \<Longrightarrow> len \<le> paginator_num_pages len pp 0 True * pp"
  using ceil_div_cover [of pp "max 1 len"] by (simp add: num_pages_no_orphans)

text \<open>
  With \<open>orphans = 0\<close> the pages \<open>1 .. num_pages\<close> of a list, taken in order,
  are the list: every item is on exactly one page, in its place.
\<close>

lemma pages_partition_list:
  "0 < pp \<Longrightarrow>
   concat (map (page_slice xs pp 0) [1..<Suc (paginator_num_pages (length xs) pp 0 True)]) = xs"
proof -
  assume pp: "0 < pp"
  let ?n = "paginator_num_pages (length xs) pp 0 True"
  have "[1..<Suc ?n] = map Suc [0..<?n]" by (simp add: map_Suc_upt)
  then have "map (page_slice xs pp 0) [1..<Suc ?n] = map (\<lambda>k. take pp (drop (k * pp) xs)) [0..<?n]"
    by (simp add: page_slice_no_orphans)
  then show ?thesis
    using concat_take_drop_pages [of pp xs ?n] num_pages_cover [OF pp, of "length xs"]
    by simp
qed

lemma num_pages_one_iff:
  assumes pp: "0 < pp"
  shows "paginator_num_pages len pp 0 True = 1 \<longleftrightarrow> len \<le> pp"
proof
  assume "paginator_num_pages len pp 0 True = 1"
  then have "max 1 len \<le> 1 * pp"
    using ceil_div_cover [OF pp, of "max 1 len"] by (simp add: num_pages_no_orphans)
  then show "len \<le> pp" by simp
next
  assume le: "len \<le> pp"
  have "pp * 1 \<le> max 1 len + pp - 1" by simp
  moreover have "max 1 len + pp - 1 < pp * Suc 1" using le pp by simp
  ultimately have "(max 1 len + pp - 1) div pp = 1" by (rule div_nat_eqI)
  then show "paginator_num_pages len pp 0 True = 1" by (simp add: num_pages_no_orphans)
qed

lemma num_pages_pos: "0 < pp \<Longrightarrow> 0 < paginator_num_pages len pp 0 True"
proof -
  assume pp: "0 < pp"
  have "max 1 len \<le> paginator_num_pages len pp 0 True * pp"
    using ceil_div_cover [OF pp, of "max 1 len"] by (simp add: num_pages_no_orphans)
  then show ?thesis by (cases "paginator_num_pages len pp 0 True") auto
qed

lemma paginate_queryset_Inr:
  "paginate_queryset xs pp param = Inr (pg, ys) \<Longrightarrow>
     1 \<le> page_number pg \<and> page_number pg \<le> num_pages pg
     \<and> num_pages pg = paginator_num_pages (length xs) pp 0 True
     \<and> ys = page_slice xs pp 0 (page_number pg)
     \<and> is_paginated pg = (1 < page_number pg \<or> page_number pg < num_pages pg)"
  by (auto simp: paginate_queryset_def Let_def split: option.splits if_splits)

lemma paginate_queryset_first_page:
  assumes "0 < pp"
  shows "paginate_queryset xs pp None =
    Inr (\<lparr>is_paginated = (1 < paginator_num_pages (length xs) pp 0 True), page_number = 1,
          num_pages = paginator_num_pages (length xs) pp 0 True\<rparr>, take pp xs)"
proof -
  have "1 \<le> paginator_num_pages (length xs) pp 0 True"
    using num_pages_pos [OF assms, of "length xs"] by simp
  then show ?thesis
    by (simp add: paginate_queryset_def requested_page_def page_slice_no_orphans Let_def)
qed

lemma first_page_paginated_iff:
  "0 < pp \<Longrightarrow> 1 < paginator_num_pages len pp 0 True \<longleftrightarrow> pp < len"
  using num_pages_one_iff [of pp len] num_pages_pos [of pp len] by linarith

lemma paginate_num_pages_one:
  "0 < pp \<Longrightarrow> paginate_queryset xs pp param = Inr (pg, ys) \<Longrightarrow>
   num_pages pg = 1 \<longleftrightarrow> length xs \<le> pp"
  using paginate_queryset_Inr num_pages_one_iff by metis

lemma digit_not_sign: "py_isdigit c \<Longrightarrow> c \<noteq> CHR ''-'' \<and> c \<noteq> CHR ''+'' \<and> c \<noteq> CHR ''_''"
  by (auto simp: py_isdigit_def)

lemma digit_not_space: "py_isdigit c \<Longrightarrow> \<not> py_isspace c"
  by (simp add: py_isdigit_def py_isspace_def Let_def)

lemma py_digit_body_digits:
  "s \<noteq> [] \<Longrightarrow> \<forall>c \<in> set s. py_isdigit c \<Longrightarrow> py_digit_body s"
proof (induction s rule: py_digit_body.induct)
  case 1
  then show ?case by simp
next
  case (2 c r)
  show ?case
  proof (cases r)
    case Nil
    with "2.prems" show ?thesis by simp
  next
    case (Cons d r')
    with "2.prems" have "d \<noteq> CHR ''_''" using digit_not_sign by auto
    with Cons "2.IH"(2) [OF Cons] "2.prems" show ?thesis by simp
  qed
qed

lemma py_int_body_str_nat: "py_int_body (py_str_nat n) = Some n"
proof -
  have dig: "\<forall>c \<in> set (py_str_nat n). py_isdigit c" by (rule py_str_nat_digits)
  have "filter (\<lambda>c. c \<noteq> CHR ''_'') (py_str_nat n) = py_str_nat n"
    using dig digit_not_sign by (auto simp: filter_id_conv)
  then show ?thesis
    using py_digit_body_digits [OF py_str_nat_nonempty dig] by (simp add: py_int_body_def)
qed

lemma py_int_str_nat: "py_int (py_str_nat n) = Some (int n)"
proof -
  have dig: "\<forall>c \<in> set (py_str_nat n). py_isdigit c" by (rule py_str_nat_digits)
  then have strip: "py_strip (py_str_nat n) = py_str_nat n" by (simp add: digit_not_space)
  obtain c t where ct: "py_str_nat n = c # t" by (cases "py_str_nat n") auto
  with dig have "c \<noteq> CHR ''-''" "c \<noteq> CHR ''+''" using digit_not_sign by auto
  with strip ct py_int_body_str_nat [of n] show ?thesis by (simp add: py_int_def)
qed

lemma paginate_queryset_page:
  assumes "0 < pp" "1 \<le> k" "k \<le> paginator_num_pages (length xs) pp 0 True"
  shows "paginate_queryset xs pp (Some (py_str_nat k)) =
    Inr (\<lparr>is_paginated = (1 < k \<or> k < paginator_num_pages (length xs) pp 0 True), page_number = k,
          num_pages = paginator_num_pages (length xs) pp 0 True\<rparr>, take pp (drop ((k - 1) * pp) xs))"
  using assms
  by (simp add: paginate_queryset_def requested_page_def py_int_str_nat page_slice_no_orphans Let_def)

text \<open>
  A page served by \<open>paginate_queryset\<close> has \<open>is_paginated\<close> set exactly when
  the list does not fit on one page.
\<close>

lemma paginate_is_paginated:
  assumes pp: "0 < pp" and ok: "paginate_queryset xs pp param = Inr (pg, ys)"
  shows "is_paginated pg \<longleftrightarrow> pp < length xs"
proof -
  from paginate_queryset_Inr [OF ok] have
      k: "1 \<le> page_number pg" "page_number pg \<le> num_pages pg"
      and ip: "is_paginated pg = (1 < page_number pg \<or> page_number pg < num_pages pg)"
    by auto
  have one: "num_pages pg = 1 \<longleftrightarrow> length xs \<le> pp"
    by (rule paginate_num_pages_one [OF pp ok])
  show ?thesis
  proof (cases "length xs \<le> pp")
    case True
    with one k ip show ?thesis by auto
  next
    case False
    with one k ip show ?thesis by auto
  qed
qed

text \<open>
  A served page holds at most \<open>per_page\<close> items, it is the slice of the list
  that starts at \<open>(number - 1) * per_page\<close>, and it is empty only when the whole list
  is empty (the one empty first page that \<open>allow_empty_first_page\<close> permits).
\<close>

lemma paginate_page_bounds:
  assumes pp: "0 < pp" and ok: "paginate_queryset xs pp param = Inr (pg, ys)"
  shows "length ys \<le> pp \<and> ys = take pp (drop ((page_number pg - 1) * pp) xs) \<and> (ys = [] \<longrightarrow> xs = [])"
proof -
  from paginate_queryset_Inr [OF ok] have
      k: "1 \<le> page_number pg" "page_number pg \<le> paginator_num_pages (length xs) pp 0 True"
      and ys: "ys = page_slice xs pp 0 (page_number pg)"
    by auto
  let ?k = "page_number pg"
  have sl: "ys = take pp (drop ((?k - 1) * pp) xs)" by (simp add: ys page_slice_no_orphans)
  have "(?k - 1) * pp < length xs" if "xs \<noteq> []"
  proof -
    let ?n = "paginator_num_pages (length xs) pp 0 True"
    have "?k - 1 \<le> ?n - 1" using k by simp
    then have a: "(?k - 1) * pp \<le> (?n - 1) * pp" by (rule mult_le_mono1)
    have b: "(?n - 1) * pp + pp = ?n * pp" using k by (cases ?n) auto
    have h: "max 1 (length xs) = length xs" using that by (cases xs) auto
    have "?n * pp = (length xs + pp - 1) div pp * pp" using h by (simp add: num_pages_no_orphans)
    moreover have "(length xs + pp - 1) div pp * pp \<le> length xs + pp - 1"
      by (rule div_times_less_eq_dividend)
    ultimately have c: "?n * pp < length xs + pp" using pp by linarith
    from a b c show ?thesis by linarith
  qed
  have "ys \<noteq> []" if ne: "xs \<noteq> []"
  proof -
    have "(?k - 1) * pp < length xs" using that \<open>xs \<noteq> [] \<Longrightarrow> (?k - 1) * pp < length xs\<close> by blast
    with sl pp show ?thesis by simp
  qed
  with sl show ?thesis by auto
qed

text \<open>
  Python's \<open>int()\<close>, as the page parameter is read, inverts \<open>str()\<close> on
  the naturals, with and without a leading minus sign: the link \<open>?page=<n>\<close> names
  page \<open>n\<close>, and \<open>?page=-<n>\<close> a negative page (a 404).
\<close>

lemma py_int_roundtrip:
  "py_int (py_str_nat n) = Some (int n) \<and> py_int (CHR ''-'' # py_str_nat n) = Some (- int n)"
proof -
  have dig: "\<forall>c \<in> set (py_str_nat n). py_isdigit c" by (rule py_str_nat_digits)
  moreover have "\<not> py_isspace CHR ''-''" by (simp add: py_isspace_def)
  ultimately have "\<forall>c \<in> set (CHR ''-'' # py_str_nat n). \<not> py_isspace c"
    using digit_not_space by auto
  then have "py_strip (CHR ''-'' # py_str_nat n) = CHR ''-'' # py_str_nat n"
    by (rule py_strip_no_space)
  then have "py_int (CHR ''-'' # py_str_nat n) = Some (- int n)"
    by (simp add: py_int_def py_int_body_str_nat)
  with py_int_str_nat [of n] show ?thesis by simp
qed


lemma paginate_queryset_negative:
  "paginate_queryset xs pp (Some (CHR ''-'' # py_str_nat k)) = Inl ()"
  by (simp add: paginate_queryset_def requested_page_def py_int_roundtrip Let_def)

lemma paginate_queryset_beyond:
  "paginator_num_pages (length xs) pp 0 True < k \<Longrightarrow> paginate_queryset xs pp (Some (py_str_nat k)) = Inl ()"
  by (simp add: paginate_queryset_def requested_page_def py_int_str_nat Let_def)

end
