(* ===== verification/Views.thy ===== *)
theory Views
  imports Models Forms Urls Pagination
begin

text \<open>
  The view layer of \<open>src/blog/views.py\<close>. A request is a record of what the views
  read from Django's \<open>HttpRequest\<close> (method, path, query string, \<open>GET\<close> and
  \<open>POST\<close> data, the authenticated user, the session cookie, and the time
  \<open>timezone.now()\<close> returns); a response is a rendered template with its context,
  a redirect, a 404, a 405 or a 500. The only per-client state, the visit counter of
  \<open>index\<close>, lives in a session store passed in and returned. The class-based views
  are \<open>ListView\<close> and \<open>DetailView\<close> with the attributes the source sets; the
  function views are translated line by line.
\<close>

section \<open>Requests, responses, sessions\<close>

text \<open>\<open>req_user\<close> is \<open>request.user\<close>: the authenticated user's key, \<open>None\<close> for
  \<open>AnonymousUser\<close>.\<close>

record request =
  req_method :: string
  req_path :: string
  req_query_string :: string
  req_get :: query_dict
  req_post :: query_dict
  req_user :: "pk option"
  req_session_key :: nat
  req_now :: timestamp

text \<open>\<open>request.session['num_visits']\<close> of every session, by session key.\<close>

type_synonym session_store = "nat \<Rightarrow> nat option"

text \<open>The bound form a template shows: none yet, or the submitted data with its errors.\<close>

datatype form_state = UnboundForm | BoundForm query_dict "field_error list"

datatype view_context =
    IndexContext nat nat nat
      \<comment> \<open>\<open>num_posts\<close>, \<open>num_authors\<close>, \<open>num_visits\<close>\<close>
  | BlogListContext "blog list" page_info
  | BlogDetailContext blog
  | AuthorListContext "author list" page_info
  | AuthorDetailContext author
  | BlogsByAuthorContext "blog list" page_info author
  | CreateCommentContext form_state blog

datatype response =
    Render string view_context
  | Redirect string
  | NotFound
  | MethodNotAllowed
  | OptionsResponse
  | ServerError py_error

definition status_code :: "response \<Rightarrow> nat" where
  "status_code r = (case r of
      Render _ _ \<Rightarrow> 200 | Redirect _ \<Rightarrow> 302 | NotFound \<Rightarrow> 404
    | MethodNotAllowed \<Rightarrow> 405 | OptionsResponse \<Rightarrow> 200 | ServerError _ \<Rightarrow> 500)"

text \<open>\<open>request.get_full_path()\<close>: the path, and the query string after \<open>?\<close> when there is one.\<close>

definition get_full_path :: "request \<Rightarrow> string" where
  "get_full_path req =
     req_path req @ (if req_query_string req = [] then [] else CHR ''?'' # req_query_string req)"

section \<open>\<open>index\<close>\<close>

text \<open>
  Counts of posts and authors, and the visit counter of the session: the value read
  (0 for a new session) is shown, the value plus one is stored.
\<close>

text \<open>\<open>request.session.get('num_visits', 0)\<close>.\<close>

definition session_visits :: "session_store \<Rightarrow> nat \<Rightarrow> nat" where
  "session_visits ss key = (case ss key of None \<Rightarrow> 0 | Some n \<Rightarrow> n)"

definition index :: "db \<Rightarrow> session_store \<Rightarrow> request \<Rightarrow> response \<times> session_store" where
  "index d ss req =
     (let num_posts = length (blogs d);
          num_authors = length (authors d);
          num_visits = session_visits ss (req_session_key req)
      in (Render ''blog/index.html'' (IndexContext num_posts num_authors num_visits),
          ss(req_session_key req \<mapsto> num_visits + 1)))"

section \<open>The generic class-based views\<close>

text \<open>
  \<open>View.dispatch\<close> for a view that defines only \<open>get\<close>: \<open>GET\<close> and \<open>HEAD\<close>
  run it, \<open>OPTIONS\<close> is answered by \<open>View.options\<close>, every other method gets
  \<open>HttpResponseNotAllowed\<close>.
\<close>

definition get_only_dispatch :: "request \<Rightarrow> response \<Rightarrow> response" where
  "get_only_dispatch req r =
     (if req_method req = ''GET'' \<or> req_method req = ''HEAD'' then r
      else if req_method req = ''OPTIONS'' then OptionsResponse
      else MethodNotAllowed)"

definition page_param :: "request \<Rightarrow> string option" where
  "page_param req = querydict_get (req_get req) ''page''"

text \<open>\<open>BlogListView\<close>: all posts in the default order, five per page.\<close>

definition blog_list_view :: "db \<Rightarrow> request \<Rightarrow> response" where
  "blog_list_view d req =
     get_only_dispatch req
       (case paginate_queryset (blogs_all d) 5 (page_param req) of
          Inl _ \<Rightarrow> NotFound
        | Inr (pg, bs) \<Rightarrow> Render ''blog/blog_list.html'' (BlogListContext bs pg))"

text \<open>\<open>BlogDetailView\<close>: \<open>get_object\<close> by the URL's key, \<open>Http404\<close> when absent.\<close>

definition blog_detail_view :: "db \<Rightarrow> request \<Rightarrow> pk \<Rightarrow> response" where
  "blog_detail_view d req k =
     get_only_dispatch req
       (case get_blog d k of
          None \<Rightarrow> NotFound
        | Some b \<Rightarrow> Render ''blog/blog_detail.html'' (BlogDetailContext b))"

text \<open>\<open>AuthorListView\<close>: every author, not paginated, in table order (\<open>Author\<close>
  declares no ordering).\<close>

definition author_list_view :: "db \<Rightarrow> request \<Rightarrow> response" where
  "author_list_view d req =
     get_only_dispatch req (Render ''blog/author_list.html'' (AuthorListContext (authors d) not_paginated))"

text \<open>
  \<open>AuthorDetailView\<close>: a \<open>DetailView\<close>, which has no pagination, so its
  \<open>paginate_by = 1\<close> is never read: the response is the author alone.
\<close>

definition author_detail_view :: "db \<Rightarrow> request \<Rightarrow> pk \<Rightarrow> response" where
  "author_detail_view d req k =
     get_only_dispatch req
       (case get_author d k of
          None \<Rightarrow> NotFound
        | Some a \<Rightarrow> Render ''blog/author_detail.html'' (AuthorDetailContext a))"

text \<open>
  \<open>BlogListByAuthorView\<close>: \<open>get_queryset\<close> fetches the author (\<open>Http404\<close> when
  absent) and filters the posts by it; the list is paginated by five; then
  \<open>get_context_data\<close> fetches the author a second time for the context.
\<close>

definition blog_list_by_author_view :: "db \<Rightarrow> request \<Rightarrow> pk \<Rightarrow> response" where
  "blog_list_by_author_view d req k =
     get_only_dispatch req
       (case get_author d k of
          None \<Rightarrow> NotFound
        | Some target_author \<Rightarrow>
            (case paginate_queryset (blogs_by_author d (author_id target_author)) 5 (page_param req) of
               Inl _ \<Rightarrow> NotFound
             | Inr (pg, bs) \<Rightarrow>
                 (case get_author d k of
                    None \<Rightarrow> NotFound
                  | Some a \<Rightarrow> Render ''blog/blog_list_by_author.html'' (BlogsByAuthorContext bs pg a))))"

section \<open>\<open>create_comment\<close>\<close>

text \<open>
  \<open>@login_required\<close> first: an anonymous request is redirected to the login page
  with its full path as \<open>next\<close>. Then \<open>get_object_or_404(Blog, pk=pk)\<close>. A
  \<open>POST\<close> binds \<open>CommentForm(request.POST)\<close>; a valid form creates the comment
  with \<open>objects.create\<close> (content, blog, the user, \<open>timezone.now()\<close>), saves it
  once more with \<open>comment.save()\<close> and redirects to the post's detail page; an
  invalid one re-renders the page with the bound form. Any other method renders an
  empty form. An exception of the ORM or of \<open>reverse\<close> is a 500.
\<close>

definition create_comment_view :: "db \<Rightarrow> request \<Rightarrow> pk \<Rightarrow> response \<times> db" where
  "create_comment_view d req k =
     (case req_user req of
        None \<Rightarrow> (Redirect (redirect_to_login (get_full_path req)), d)
      | Some u \<Rightarrow>
          (case get_blog d k of
             None \<Rightarrow> (NotFound, d)
           | Some b \<Rightarrow>
               if req_method req = ''POST'' then
                 (case comment_form_clean (req_post req) of
                    Inl errs \<Rightarrow>
                      (Render ''blog/create_comment.html'' (CreateCommentContext (BoundForm (req_post req) errs) b), d)
                  | Inr content \<Rightarrow>
                      (case create_comment d (Some (blog_id b)) content (Some (req_now req)) (Some u) of
                         Inl e \<Rightarrow> (ServerError e, d)
                       | Inr (c, d1) \<Rightarrow>
                           (case save_comment d1 c of
                              Inl e \<Rightarrow> (ServerError e, d1)
                            | Inr d2 \<Rightarrow>
                                (case reverse UBlogDetail [k] of
                                   None \<Rightarrow> (ServerError NoReverseMatch, d2)
                                 | Some url \<Rightarrow> (Redirect url, d2)))))
               else (Render ''blog/create_comment.html'' (CreateCommentContext UnboundForm b), d)))"

section \<open>Lemmas on \<open>create_comment\<close>\<close>

lemma create_comment_view_post_valid:
  assumes wf: "db_wf d"
    and user: "req_user req = Some u" "u \<in> set (user_ids d)"
    and blog: "get_blog d k \<noteq> None"
    and post: "req_method req = ''POST''"
    and form: "comment_form_clean (req_post req) = Inr content"
  shows "create_comment_view d req k =
     (Redirect (''/blog/blogs/'' @ py_str_nat k),
      d\<lparr>comments := comments d @ [\<lparr>comment_id = next_comment d, comment_blog = Some k,
            comment_content = content, comment_post_date = Some (req_now req),
            comment_author = Some u\<rparr>],
        next_comment := Suc (next_comment d)\<rparr>)"
proof -
  from blog obtain b where b: "get_blog d k = Some b" by auto
  then have bk: "blog_id b = k" "k \<in> set (blog_ids d)"
    using get_blog_Some [OF b] by force+
  let ?c = "\<lparr>comment_id = next_comment d, comment_blog = Some k,
            comment_content = content, comment_post_date = Some (req_now req),
            comment_author = Some u\<rparr>"
  let ?d1 = "d\<lparr>comments := comments d @ [?c], next_comment := Suc (next_comment d)\<rparr>"
  have cr: "create_comment d (Some k) content (Some (req_now req)) (Some u) = Inr (?c, ?d1)"
    using bk user by (simp add: create_comment_Inr fk_ok_def)
  have sv: "save_comment ?d1 ?c = Inr ?d1"
    by (rule save_created_comment [OF wf cr])
  show ?thesis
    using user b bk post form cr sv by (simp add: create_comment_view_def reverse_blog_detail)
qed

lemma create_comment_view_wf:
  "db_wf d \<Longrightarrow> create_comment_view d req k = (r, d') \<Longrightarrow> db_wf d'"
  by (auto simp: create_comment_view_def dest: create_comment_wf save_comment_wf
           split: option.splits if_splits sum.splits prod.splits)

lemma create_comment_view_added:
  assumes run: "create_comment_view d req k = (r, d')"
    and new: "c \<in> set (comments d')" "c \<notin> set (comments d)"
  shows "\<exists>u content. req_user req = Some u \<and> comment_form_clean (req_post req) = Inr content
    \<and> c = \<lparr>comment_id = next_comment d, comment_blog = Some k, comment_content = content,
             comment_post_date = Some (req_now req), comment_author = Some u\<rparr>"
proof -
  obtain u b content c1 d1 where
      u: "req_user req = Some u" and b: "get_blog d k = Some b"
      and form: "comment_form_clean (req_post req) = Inr content"
      and cr: "create_comment d (Some (blog_id b)) content (Some (req_now req)) (Some u) = Inr (c1, d1)"
      and res: "d' = d1 \<or> save_comment d1 c1 = Inr d'"
    using run new
    by (auto simp: create_comment_view_def split: option.splits if_splits sum.splits prod.splits)
  from res have sv: "set (comments d') \<subseteq> insert c1 (set (comments d1))"
    using save_comment_set by blast
  from cr have c1: "c1 = \<lparr>comment_id = next_comment d, comment_blog = Some (blog_id b),
      comment_content = content, comment_post_date = Some (req_now req), comment_author = Some u\<rparr>"
    and d1: "comments d1 = comments d @ [c1]"
    by (auto simp: create_comment_def Let_def split: if_splits)
  from sv d1 new have "c = c1" by auto
  moreover have "blog_id b = k" using get_blog_Some [OF b] by simp
  ultimately show ?thesis using c1 u form by blast
qed

lemma create_comment_view_tables:
  "create_comment_view d req k = (r, d') \<Longrightarrow> blogs d' = blogs d \<and> authors d' = authors d \<and> users d' = users d"
  by (auto simp: create_comment_view_def create_comment_def save_comment_def Let_def
           split: option.splits if_splits sum.splits prod.splits)

section \<open>Lemmas on the list views\<close>

lemma blog_list_view_first_page:
  assumes "req_method req = ''GET''" "page_param req = None"
  shows "blog_list_view d req = Render ''blog/blog_list.html''
     (BlogListContext (take 5 (blogs_all d))
        \<lparr>is_paginated = (1 < paginator_num_pages (length (blogs d)) 5 0 True), page_number = 1,
         num_pages = paginator_num_pages (length (blogs d)) 5 0 True\<rparr>)"
  using assms paginate_queryset_first_page [of 5 "blogs_all d"]
  by (simp add: blog_list_view_def get_only_dispatch_def blogs_all_def order_blogs_def)

lemma blog_list_view_page:
  assumes "req_method req = ''GET''" "page_param req = Some (py_str_nat k)"
    and "1 \<le> k" "k \<le> paginator_num_pages (length (blogs d)) 5 0 True"
  shows "blog_list_view d req = Render ''blog/blog_list.html''
     (BlogListContext (take 5 (drop ((k - 1) * 5) (blogs_all d)))
        \<lparr>is_paginated = (1 < k \<or> k < paginator_num_pages (length (blogs d)) 5 0 True), page_number = k,
         num_pages = paginator_num_pages (length (blogs d)) 5 0 True\<rparr>)"
proof -
  have "length (blogs_all d) = length (blogs d)" by (simp add: blogs_all_def order_blogs_def)
  with assms paginate_queryset_page [of 5 k "blogs_all d"] show ?thesis
    by (simp add: blog_list_view_def get_only_dispatch_def)
qed

lemma blog_list_view_Render:
  "req_method req = ''GET'' \<Longrightarrow> blog_list_view d req = Render t (BlogListContext bs pg) \<Longrightarrow>
   paginate_queryset (blogs_all d) 5 (page_param req) = Inr (pg, bs)"
  by (auto simp: blog_list_view_def get_only_dispatch_def split: sum.splits prod.splits)

lemma length_blogs_all [simp]: "length (blogs_all d) = length (blogs d)"
  by (simp add: blogs_all_def order_blogs_def)

lemma blog_list_view_Inl:
  "req_method req = ''GET'' \<Longrightarrow> paginate_queryset (blogs_all d) 5 (page_param req) = Inl () \<Longrightarrow>
   blog_list_view d req = NotFound"
  by (simp add: blog_list_view_def get_only_dispatch_def)

section \<open>Properties of \<open>create_comment\<close>\<close>

text \<open>
  C1. An authenticated \<open>POST\<close> of a valid form to an existing post creates exactly
  one comment (the next key, the post, the cleaned content, the request time, the
  submitting user), the second \<open>comment.save()\<close> changes nothing, and the response
  redirects to the post's detail page \<open>/blog/blogs/<pk>\<close>.
\<close>

theorem create_comment_view_valid:
  assumes wf: "db_wf d"
    and user: "req_user req = Some u" "u \<in> set (user_ids d)"
    and blog: "get_blog d k \<noteq> None"
    and post: "req_method req = ''POST''"
    and form: "comment_form_clean (req_post req) = Inr content"
  shows "create_comment_view d req k =
     (Redirect (''/blog/blogs/'' @ py_str_nat k),
      d\<lparr>comments := comments d @ [\<lparr>comment_id = next_comment d, comment_blog = Some k,
            comment_content = content, comment_post_date = Some (req_now req),
            comment_author = Some u\<rparr>],
        next_comment := Suc (next_comment d)\<rparr>)"
  by (rule create_comment_view_post_valid [OF assms])

text \<open>
  C2. An anonymous request to \<open>/blog/blogs/<pk>/create\<close> (no query string) is
  redirected to \<open>/accounts/login/?next=/blog/blogs/<pk>/create\<close>, before the post is
  looked up, and the database is not touched.
\<close>

theorem create_comment_view_anonymous:
  assumes "req_user req = None"
    and "req_path req = ''/blog/blogs/'' @ py_str_nat k @ ''/create''"
    and "req_query_string req = []"
  shows "create_comment_view d req k =
     (Redirect (''/accounts/login/?next=/blog/blogs/'' @ py_str_nat k @ ''/create''), d)"
proof -
  have path: "get_full_path req = ''/blog/blogs/'' @ py_str_nat k @ ''/create''"
    using assms by (simp add: get_full_path_def)
  have "create_comment_view d req k = (Redirect (redirect_to_login (get_full_path req)), d)"
    using assms by (simp add: create_comment_view_def)
  then show ?thesis by (simp only: path redirect_to_login_create_path)
qed

text \<open>
  C3. An authenticated \<open>POST\<close> whose form does not validate re-renders
  \<open>blog/create_comment.html\<close> with the bound form and its field errors, and writes
  nothing.
\<close>

theorem create_comment_view_invalid:
  assumes "req_user req = Some u" "get_blog d k = Some b" "req_method req = ''POST''"
    and "comment_form_clean (req_post req) = Inl errs"
  shows "create_comment_view d req k =
     (Render ''blog/create_comment.html'' (CreateCommentContext (BoundForm (req_post req) errs) b), d)"
  using assms by (simp add: create_comment_view_def)

text \<open>
  C4. For an authenticated user, a post key that names no post is a 404, whatever the
  method and the data, and nothing is written.
\<close>

theorem create_comment_view_missing_blog:
  assumes "req_user req = Some u" "k \<notin> set (blog_ids d)"
  shows "create_comment_view d req k = (NotFound, d) \<and> status_code (fst (create_comment_view d req k)) = 404"
proof -
  have "get_blog d k = None" using assms(2) by (simp add: get_blog_None_iff)
  with assms(1) show ?thesis by (simp add: create_comment_view_def status_code_def)
qed

text \<open>
  An authenticated request with any method other than \<open>POST\<close> renders an unbound
  form for the post and writes nothing.
\<close>

theorem create_comment_view_unbound:
  assumes "req_user req = Some u" "get_blog d k = Some b" "req_method req \<noteq> ''POST''"
  shows "create_comment_view d req k =
     (Render ''blog/create_comment.html'' (CreateCommentContext UnboundForm b), d)"
  using assms by (simp add: create_comment_view_def)

text \<open>
  C26. Every comment that \<open>create_comment\<close> adds has between 1 and 200 characters,
  names the post of the URL, the requesting user and the request time.
\<close>

theorem create_comment_view_new_comment:
  assumes run: "create_comment_view d req k = (r, d')"
    and new: "c \<in> set (comments d')" "c \<notin> set (comments d)"
  shows "0 < length (comment_content c) \<and> length (comment_content c) \<le> 200
    \<and> comment_author c = req_user req \<and> comment_blog c = Some k
    \<and> comment_post_date c = Some (req_now req)"
proof -
  obtain u content where u: "req_user req = Some u"
      and form: "comment_form_clean (req_post req) = Inr content"
      and c: "c = \<lparr>comment_id = next_comment d, comment_blog = Some k, comment_content = content,
                   comment_post_date = Some (req_now req), comment_author = Some u\<rparr>"
    using create_comment_view_added [OF run new] by blast
  moreover have "content \<noteq> [] \<and> length content \<le> 200"
    using form by (simp add: comment_form_clean_Inr_bounds)
  ultimately show ?thesis by simp
qed

text \<open>
  Nothing suppresses a duplicate submission: the same valid \<open>POST\<close> sent twice
  creates two comments with the same content under consecutive keys, and both
  responses are the same redirect.
\<close>

theorem create_comment_view_duplicate:
  assumes wf: "db_wf d"
    and user: "req_user req = Some u" "u \<in> set (user_ids d)"
    and blog: "get_blog d k \<noteq> None"
    and post: "req_method req = ''POST''"
    and form: "comment_form_clean (req_post req) = Inr content"
    and first: "create_comment_view d req k = (r1, d1)"
    and second: "create_comment_view d1 req k = (r2, d2)"
  shows "r1 = Redirect (''/blog/blogs/'' @ py_str_nat k) \<and> r2 = r1
    \<and> comment_ids d2 = comment_ids d @ [next_comment d, Suc (next_comment d)]
    \<and> map comment_content (comments d2) = map comment_content (comments d) @ [content, content]"
proof -
  have d1: "r1 = Redirect (''/blog/blogs/'' @ py_str_nat k)"
      "d1 = d\<lparr>comments := comments d @ [\<lparr>comment_id = next_comment d, comment_blog = Some k,
            comment_content = content, comment_post_date = Some (req_now req),
            comment_author = Some u\<rparr>], next_comment := Suc (next_comment d)\<rparr>"
    using create_comment_view_post_valid [OF assms(1-6)] first by simp_all
  have wf1: "db_wf d1" by (rule create_comment_view_wf [OF wf first])
  have "u \<in> set (user_ids d1)" "get_blog d1 k \<noteq> None"
    using user blog d1 by (simp_all add: get_blog_def)
  from create_comment_view_post_valid [OF wf1 user(1) this post form] second d1
  show ?thesis by auto
qed
section \<open>Properties of the read views\<close>

text \<open>
  C14. A \<open>GET\<close> of \<open>/blog/bloggers2/<pk>\<close> without a page parameter for an existing
  author renders that author and the first five of the author's posts in the default
  order (every listed post is the author's), paginated exactly when the author has more
  than five posts.
\<close>

theorem blog_list_by_author_found:
  assumes "req_method req = ''GET''" "page_param req = None" "get_author d k = Some a"
  shows "\<exists>pg. blog_list_by_author_view d req k =
      Render ''blog/blog_list_by_author.html'' (BlogsByAuthorContext (take 5 (blogs_by_author d k)) pg a)
    \<and> (is_paginated pg \<longleftrightarrow> 5 < length (blogs_by_author d k))
    \<and> list_all (\<lambda>b. blog_author b = Some k) (blogs_by_author d k)"
proof -
  have ak: "author_id a = k" using get_author_Some [OF assms(3)] by simp
  let ?n = "paginator_num_pages (length (blogs_by_author d k)) 5 0 True"
  let ?pg = "\<lparr>is_paginated = (1 < ?n), page_number = 1, num_pages = ?n\<rparr>"
  have pq: "paginate_queryset (blogs_by_author d k) 5 None = Inr (?pg, take 5 (blogs_by_author d k))"
    by (rule paginate_queryset_first_page) simp
  have "blog_list_by_author_view d req k =
      Render ''blog/blog_list_by_author.html'' (BlogsByAuthorContext (take 5 (blogs_by_author d k)) ?pg a)"
    using assms ak pq by (simp add: blog_list_by_author_view_def get_only_dispatch_def)
  moreover have "is_paginated ?pg \<longleftrightarrow> 5 < length (blogs_by_author d k)"
    using first_page_paginated_iff [of 5] by simp
  moreover have "list_all (\<lambda>b. blog_author b = Some k) (blogs_by_author d k)"
    by (simp add: blogs_by_author_def order_blogs_def list_all_iff)
  ultimately show ?thesis by blast
qed

text \<open>
  C27. A \<open>GET\<close> of a post's detail page is a 404 exactly when no post has the key, and
  renders that post otherwise.
\<close>

theorem blog_detail_view_status:
  assumes "req_method req = ''GET''"
  shows "(status_code (blog_detail_view d req k) = 404 \<longleftrightarrow> k \<notin> set (blog_ids d))
    \<and> (\<forall>b. get_blog d k = Some b \<longrightarrow>
          blog_detail_view d req k = Render ''blog/blog_detail.html'' (BlogDetailContext b))"
proof (cases "get_blog d k")
  case None
  then have "k \<notin> set (blog_ids d)" by (simp add: get_blog_None_iff)
  with None assms show ?thesis
    by (simp add: blog_detail_view_def get_only_dispatch_def status_code_def)
next
  case (Some b)
  then have "k \<in> set (blog_ids d)" using get_blog_Some [OF Some] by force
  with Some assms show ?thesis
    by (simp add: blog_detail_view_def get_only_dispatch_def status_code_def)
qed

text \<open>
  C16. The pages \<open>?page=1\<close> .. \<open>?page=<num_pages>\<close> of \<open>/blog/blogs/\<close>, taken
  in order, are exactly the posts in the default order: every post is listed once, on
  one page, in its place.
\<close>

theorem blog_list_pages_partition:
  assumes "\<forall>k. req_method (rq k) = ''GET'' \<and> page_param (rq k) = Some (py_str_nat k)"
  shows "concat (map (\<lambda>k. case blog_list_view d (rq k) of
             Render _ (BlogListContext bs _) \<Rightarrow> bs | _ \<Rightarrow> [])
           [1..<Suc (paginator_num_pages (length (blogs d)) 5 0 True)]) = blogs_all d"
proof -
  let ?n = "paginator_num_pages (length (blogs d)) 5 0 True"
  let ?items = "\<lambda>k. case blog_list_view d (rq k) of Render _ (BlogListContext bs _) \<Rightarrow> bs | _ \<Rightarrow> []"
  have "?items k = page_slice (blogs_all d) 5 0 k" if k: "k \<in> set [1..<Suc ?n]" for k
  proof -
    from k have "1 \<le> k" "k \<le> ?n" by auto
    with assms have "blog_list_view d (rq k) = Render ''blog/blog_list.html''
       (BlogListContext (take 5 (drop ((k - 1) * 5) (blogs_all d)))
          \<lparr>is_paginated = (1 < k \<or> k < ?n), page_number = k, num_pages = ?n\<rparr>)"
      by (intro blog_list_view_page) auto
    then show ?thesis by (simp add: page_slice_no_orphans)
  qed
  then have "map ?items [1..<Suc ?n] = map (page_slice (blogs_all d) 5 0) [1..<Suc ?n]"
    by (rule map_cong [OF refl])
  moreover have "concat (map (page_slice (blogs_all d) 5 0) [1..<Suc ?n]) = blogs_all d"
    using pages_partition_list [of 5 "blogs_all d"] by simp
  ultimately show ?thesis by (simp only:)
qed

text \<open>
  A blog list page that \<open>BlogListView\<close> renders has \<open>is_paginated\<close> set
  exactly when there are more than five posts.
\<close>

theorem blog_list_is_paginated:
  assumes "req_method req = ''GET''" "blog_list_view d req = Render t (BlogListContext bs pg)"
  shows "is_paginated pg \<longleftrightarrow> 5 < length (blogs d)"
  using paginate_is_paginated [OF _ blog_list_view_Render [OF assms]] by simp

text \<open>
  C18. A rendered blog list page holds at most five posts, the five that start at
  \<open>(number - 1) * 5\<close> in the default order, and it is empty only when there is no
  post at all.
\<close>

theorem blog_list_page_bounds:
  assumes "req_method req = ''GET''" "blog_list_view d req = Render t (BlogListContext bs pg)"
  shows "length bs \<le> 5 \<and> bs = take 5 (drop ((page_number pg - 1) * 5) (blogs_all d))
    \<and> (bs = [] \<longrightarrow> blogs d = [])"
proof -
  have "length bs \<le> 5 \<and> bs = take 5 (drop ((page_number pg - 1) * 5) (blogs_all d))
      \<and> (bs = [] \<longrightarrow> blogs_all d = [])"
    by (rule paginate_page_bounds [OF _ blog_list_view_Render [OF assms]]) simp
  moreover have "blogs_all d = [] \<longleftrightarrow> blogs d = []"
    by (metis length_blogs_all length_0_conv)
  ultimately show ?thesis by blast
qed

text \<open>
  C28. The page parameter of \<open>/blog/blogs/\<close> is read with Python's \<open>int()\<close>:
  \<open>?page=<n>\<close> renders page \<open>n\<close> when it exists, a page beyond the last and any
  negative page (\<open>?page=-<n>\<close>) are a 404.
\<close>

theorem blog_list_page_numbers:
  assumes get: "req_method req = ''GET''"
  shows "(page_param req = Some (py_str_nat k) \<and> 1 \<le> k \<and> k \<le> paginator_num_pages (length (blogs d)) 5 0 True \<longrightarrow>
       blog_list_view d req = Render ''blog/blog_list.html''
         (BlogListContext (take 5 (drop ((k - 1) * 5) (blogs_all d)))
            \<lparr>is_paginated = (1 < k \<or> k < paginator_num_pages (length (blogs d)) 5 0 True), page_number = k,
             num_pages = paginator_num_pages (length (blogs d)) 5 0 True\<rparr>))
    \<and> (page_param req = Some (py_str_nat k) \<and> paginator_num_pages (length (blogs d)) 5 0 True < k \<longrightarrow>
         blog_list_view d req = NotFound)
    \<and> (page_param req = Some (CHR ''-'' # py_str_nat k) \<longrightarrow> blog_list_view d req = NotFound)"
proof (intro conjI impI)
  assume "page_param req = Some (py_str_nat k) \<and> 1 \<le> k \<and> k \<le> paginator_num_pages (length (blogs d)) 5 0 True"
  then show "blog_list_view d req = Render ''blog/blog_list.html''
         (BlogListContext (take 5 (drop ((k - 1) * 5) (blogs_all d)))
            \<lparr>is_paginated = (1 < k \<or> k < paginator_num_pages (length (blogs d)) 5 0 True), page_number = k,
             num_pages = paginator_num_pages (length (blogs d)) 5 0 True\<rparr>)"
    using get by (intro blog_list_view_page) auto
next
  assume a: "page_param req = Some (py_str_nat k) \<and> paginator_num_pages (length (blogs d)) 5 0 True < k"
  then have "paginate_queryset (blogs_all d) 5 (page_param req) = Inl ()"
    using paginate_queryset_beyond [of "blogs_all d" 5 k] by simp
  then show "blog_list_view d req = NotFound" by (rule blog_list_view_Inl [OF get])
next
  assume "page_param req = Some (CHR ''-'' # py_str_nat k)"
  then have "paginate_queryset (blogs_all d) 5 (page_param req) = Inl ()"
    by (simp add: paginate_queryset_negative)
  then show "blog_list_view d req = NotFound" by (rule blog_list_view_Inl [OF get])
qed
end
