(* ===== verification/Site.thy ===== *)
theory Site
  imports Views
begin

text \<open>
  The application as one state machine: the state is the database and the session
  store; a request is resolved by the URL patterns of \<open>src/blog/urls.py\<close> and
  handed to the view the pattern names, with the key the pattern captured. A path no
  pattern matches is a 404. Only \<open>create_comment\<close> writes to the database and only
  \<open>index\<close> writes to the session store. Requests are handled one at a time, in the
  order of the list.
\<close>

record site =
  site_db :: db
  site_sessions :: session_store

definition handle :: "site \<Rightarrow> request \<Rightarrow> response \<times> site" where
  "handle s req =
     (let d = site_db s in
      case resolve (req_path req) of
        Some (UIndex, []) \<Rightarrow>
          (let (r, ss) = index d (site_sessions s) req in (r, s\<lparr>site_sessions := ss\<rparr>))
      | Some (UAuthors, []) \<Rightarrow> (author_list_view d req, s)
      | Some (UAuthorDetail, [k]) \<Rightarrow> (author_detail_view d req k, s)
      | Some (UBlogsByAuthor, [k]) \<Rightarrow> (blog_list_by_author_view d req k, s)
      | Some (UBlogs, []) \<Rightarrow> (blog_list_view d req, s)
      | Some (UBlogDetail, [k]) \<Rightarrow> (blog_detail_view d req k, s)
      | Some (UCreateComment, [k]) \<Rightarrow>
          (let (r, d') = create_comment_view d req k in (r, s\<lparr>site_db := d'\<rparr>))
      | _ \<Rightarrow> (NotFound, s))"

text \<open>The visit counter an index page shows, if the response is one.\<close>

definition shown_visits :: "response \<Rightarrow> nat option" where
  "shown_visits r = (case r of Render _ (IndexContext _ _ n) \<Rightarrow> Some n | _ \<Rightarrow> None)"

fun run_requests :: "site \<Rightarrow> request list \<Rightarrow> response list \<times> site" where
  "run_requests s [] = ([], s)"
| "run_requests s (r # rs) =
     (let (resp, s') = handle s r; (resps, s'') = run_requests s' rs in (resp # resps, s''))"

section \<open>Lemmas on requests\<close>

lemma handle_wf: "db_wf (site_db s) \<Longrightarrow> db_wf (site_db (snd (handle s req)))"
  by (auto simp: handle_def Let_def dest: create_comment_view_wf
           split: option.splits prod.splits url_name.splits list.splits)

lemma run_requests_Cons:
  "fst (run_requests s (r # rs)) = fst (handle s r) # fst (run_requests (snd (handle s r)) rs)"
  "snd (run_requests s (r # rs)) = snd (run_requests (snd (handle s r)) rs)"
  by (simp_all split: prod.splits)

lemma handle_db:
  "site_db (snd (handle s req)) = site_db s
   \<or> (\<exists>k r. create_comment_view (site_db s) req k = (r, site_db (snd (handle s req))))"
  by (auto simp: handle_def Let_def split: option.splits prod.splits url_name.splits list.splits)

lemma map_replace_fresh_id:
  "\<forall>x\<in>set xs. comment_id x < n \<Longrightarrow> map (\<lambda>x. if comment_id x = n then c else x) xs = xs"
  by (induction xs) auto

lemma create_comment_view_appends:
  assumes wf: "db_wf d" and run: "create_comment_view d req k = (r, d')"
  shows "comments d' = comments d
    \<or> (\<exists>c. comments d' = comments d @ [c]
         \<and> (\<exists>u. comment_author c = Some u \<and> u \<in> set (user_ids d))
         \<and> (\<exists>b. comment_blog c = Some b \<and> b \<in> set (blog_ids d))
         \<and> comment_content c \<noteq> [] \<and> length (comment_content c) \<le> 200)"
proof -
  have ids: "\<forall>x\<in>set (comments d). comment_id x < next_comment d"
    using wf by (simp add: db_wf_def keys_ok_def list_all_iff)
  show ?thesis
    using run ids
    by (auto simp: create_comment_view_def create_comment_def save_comment_def fk_ok_def Let_def
        map_replace_fresh_id dest: comment_form_clean_Inr_bounds
        split: option.splits if_splits sum.splits prod.splits)
qed

lemma handle_appends:
  assumes wf: "db_wf (site_db s)"
  shows "blogs (site_db (snd (handle s req))) = blogs (site_db s)
    \<and> authors (site_db (snd (handle s req))) = authors (site_db s)
    \<and> users (site_db (snd (handle s req))) = users (site_db s)
    \<and> (\<exists>new. comments (site_db (snd (handle s req))) = comments (site_db s) @ new
         \<and> list_all (\<lambda>c. (\<exists>u. comment_author c = Some u \<and> u \<in> set (user_ids (site_db s)))
                      \<and> (\<exists>b. comment_blog c = Some b \<and> b \<in> set (blog_ids (site_db s)))
                      \<and> comment_content c \<noteq> [] \<and> length (comment_content c) \<le> 200) new)"
  using handle_db [of s req]
proof
  assume "site_db (snd (handle s req)) = site_db s"
  then show ?thesis by simp
next
  assume "\<exists>k r. create_comment_view (site_db s) req k = (r, site_db (snd (handle s req)))"
  then obtain k r where run: "create_comment_view (site_db s) req k = (r, site_db (snd (handle s req)))"
    by blast
  note tabs = create_comment_view_tables [OF run]
  from create_comment_view_appends [OF wf run] show ?thesis
  proof
    assume "comments (site_db (snd (handle s req))) = comments (site_db s)"
    with tabs show ?thesis by simp
  next
    assume "\<exists>c. comments (site_db (snd (handle s req))) = comments (site_db s) @ [c]
         \<and> (\<exists>u. comment_author c = Some u \<and> u \<in> set (user_ids (site_db s)))
         \<and> (\<exists>b. comment_blog c = Some b \<and> b \<in> set (blog_ids (site_db s)))
         \<and> comment_content c \<noteq> [] \<and> length (comment_content c) \<le> 200"
    with tabs show ?thesis by auto
  qed
qed

lemma handle_index:
  "req_path req = ''/blog/'' \<Longrightarrow>
   handle s req = (let (r, ss) = index (site_db s) (site_sessions s) req in (r, s\<lparr>site_sessions := ss\<rparr>))"
  by (simp add: handle_def resolve_index)

lemma handle_authors:
  "req_path req = ''/blog/bloggers/'' \<Longrightarrow> handle s req = (author_list_view (site_db s) req, s)"
  by (simp add: handle_def resolve_authors)

lemma handle_blogs:
  "req_path req = ''/blog/blogs/'' \<Longrightarrow> handle s req = (blog_list_view (site_db s) req, s)"
  by (simp add: handle_def resolve_blogs)

lemma handle_blog_detail:
  assumes "req_path req = ''/blog/blogs/'' @ py_str_nat k"
  shows "handle s req = (blog_detail_view (site_db s) req k, s)"
proof -
  have "resolve (req_path req) = Some (UBlogDetail, [k])" by (simp only: assms resolve_blog_detail)
  then show ?thesis by (simp add: handle_def)
qed

lemma index_any_method:
  assumes "req_path req = ''/blog/''"
  shows "handle s req =
    (Render ''blog/index.html'' (IndexContext (length (blogs (site_db s))) (length (authors (site_db s)))
        (session_visits (site_sessions s) (req_session_key req))),
     s\<lparr>site_sessions := (site_sessions s)(req_session_key req \<mapsto> session_visits (site_sessions s) (req_session_key req) + 1)\<rparr>)"
  using assms by (simp add: handle_index index_def Let_def)
lemma run_requests_index_visits:
  assumes "\<forall>r \<in> set reqs. req_path r = ''/blog/'' \<and> req_session_key r = key"
  shows "map shown_visits (fst (run_requests s reqs))
    = map Some [session_visits (site_sessions s) key ..< session_visits (site_sessions s) key + length reqs]"
  using assms
proof (induction reqs arbitrary: s)
  case Nil
  then show ?case by simp
next
  case (Cons r rs)
  let ?n = "session_visits (site_sessions s) key"
  from Cons.prems have r: "req_path r = ''/blog/''" "req_session_key r = key" by auto
  let ?s' = "s\<lparr>site_sessions := (site_sessions s)(key \<mapsto> ?n + 1)\<rparr>"
  have h: "handle s r = (Render ''blog/index.html''
      (IndexContext (length (blogs (site_db s))) (length (authors (site_db s))) ?n), ?s')"
    using r by (simp add: handle_index index_def Let_def)
  have ih: "map shown_visits (fst (run_requests ?s' rs)) = map Some [Suc ?n ..< Suc ?n + length rs]"
    using Cons.IH [of ?s'] Cons.prems by (simp add: session_visits_def)
  have f: "fst (run_requests s (r # rs)) = fst (handle s r) # fst (run_requests ?s' rs)"
    using h by (simp only: run_requests_Cons) simp
  have u: "[?n ..< ?n + length (r # rs)] = ?n # [Suc ?n ..< Suc ?n + length rs]"
    by (subst upt_rec) simp
  have "map shown_visits (fst (run_requests s (r # rs)))
      = shown_visits (fst (handle s r)) # map shown_visits (fst (run_requests ?s' rs))"
    by (simp only: f list.map)
  also have "\<dots> = Some ?n # map Some [Suc ?n ..< Suc ?n + length rs]"
    using h ih by (simp add: shown_visits_def)
  also have "\<dots> = map Some [?n ..< ?n + length (r # rs)]"
    by (simp only: u list.map)
  finally show ?case .
qed

section \<open>Properties of the whole site\<close>

text \<open>
  C22. Any sequence of requests to the public site, handled one at a time by the URL
  dispatch and the views, keeps the database invariant \<open>db_wf\<close>, never changes the
  posts, the authors or the users, never removes or alters a comment, and only appends
  comments that have a logged-in user as author, an existing post, and content of 1 to
  200 characters.
\<close>

theorem run_requests_wf:
  assumes "db_wf (site_db s)"
  shows "db_wf (site_db (snd (run_requests s reqs)))
    \<and> blogs (site_db (snd (run_requests s reqs))) = blogs (site_db s)
    \<and> authors (site_db (snd (run_requests s reqs))) = authors (site_db s)
    \<and> users (site_db (snd (run_requests s reqs))) = users (site_db s)
    \<and> (\<exists>new. comments (site_db (snd (run_requests s reqs))) = comments (site_db s) @ new
         \<and> list_all (\<lambda>c. (\<exists>u. comment_author c = Some u \<and> u \<in> set (user_ids (site_db s)))
                      \<and> (\<exists>b. comment_blog c = Some b \<and> b \<in> set (blog_ids (site_db s)))
                      \<and> comment_content c \<noteq> [] \<and> length (comment_content c) \<le> 200) new)"
  using assms
proof (induction reqs arbitrary: s)
  case Nil
  then show ?case by simp
next
  case (Cons r rs)
  let ?s1 = "snd (handle s r)"
  have wf1: "db_wf (site_db ?s1)" using Cons.prems by (rule handle_wf)
  from handle_appends [OF Cons.prems, of r] obtain new1 where
    t1: "blogs (site_db ?s1) = blogs (site_db s)" "authors (site_db ?s1) = authors (site_db s)"
        "users (site_db ?s1) = users (site_db s)"
    and c1: "comments (site_db ?s1) = comments (site_db s) @ new1"
    and g1: "list_all (\<lambda>c. (\<exists>u. comment_author c = Some u \<and> u \<in> set (user_ids (site_db s)))
                      \<and> (\<exists>b. comment_blog c = Some b \<and> b \<in> set (blog_ids (site_db s)))
                      \<and> comment_content c \<noteq> [] \<and> length (comment_content c) \<le> 200) new1"
    by blast
  from Cons.IH [OF wf1] obtain new where ih:
    "db_wf (site_db (snd (run_requests ?s1 rs)))"
    "blogs (site_db (snd (run_requests ?s1 rs))) = blogs (site_db ?s1)"
    "authors (site_db (snd (run_requests ?s1 rs))) = authors (site_db ?s1)"
    "users (site_db (snd (run_requests ?s1 rs))) = users (site_db ?s1)"
    "comments (site_db (snd (run_requests ?s1 rs))) = comments (site_db ?s1) @ new"
    "list_all (\<lambda>c. (\<exists>u. comment_author c = Some u \<and> u \<in> set (user_ids (site_db ?s1)))
                      \<and> (\<exists>b. comment_blog c = Some b \<and> b \<in> set (blog_ids (site_db ?s1)))
                      \<and> comment_content c \<noteq> [] \<and> length (comment_content c) \<le> 200) new"
    by blast
  have c: "comments (site_db (snd (run_requests ?s1 rs))) = comments (site_db s) @ (new1 @ new)"
    using ih(5) c1 by simp
  have g: "list_all (\<lambda>c. (\<exists>u. comment_author c = Some u \<and> u \<in> set (user_ids (site_db s)))
                      \<and> (\<exists>b. comment_blog c = Some b \<and> b \<in> set (blog_ids (site_db s)))
                      \<and> comment_content c \<noteq> [] \<and> length (comment_content c) \<le> 200) (new1 @ new)"
    using g1 ih(6) t1 by simp
  show ?case unfolding run_requests_Cons(2)
    using ih(1-4) t1 c g by (intro conjI exI [of _ "new1 @ new"]; simp)
qed

text \<open>
  C19. Successive requests for \<open>/blog/\<close> in one session that is new show the visit
  counters \<open>0, 1, 2, ...\<close>: each page shows the number of earlier visits.
\<close>

theorem index_visit_counter:
  assumes "\<forall>r \<in> set reqs. req_path r = ''/blog/'' \<and> req_session_key r = key"
    and "site_sessions s key = None"
  shows "map shown_visits (fst (run_requests s reqs)) = map Some [0 ..< length reqs]"
  using run_requests_index_visits [OF assms(1), of s] assms(2) by (simp add: session_visits_def)

text \<open>
  C21. The link \<open>Blog.get_absolute_url\<close> produces for a post of a well-formed
  database leads, through the URL patterns, to that post's detail page, and the
  request changes no state.
\<close>

theorem blog_absolute_url_detail:
  assumes "db_wf (site_db s)" "b \<in> set (blogs (site_db s))" "req_method req = ''GET''"
    and "blog_get_absolute_url b = Some (req_path req)"
  shows "handle s req = (Render ''blog/blog_detail.html'' (BlogDetailContext b), s)"
proof -
  have "req_path req = ''/blog/blogs/'' @ py_str_nat (blog_id b)"
    using assms(4) by (simp add: blog_get_absolute_url_eq)
  then have "handle s req = (blog_detail_view (site_db s) req (blog_id b), s)"
    by (rule handle_blog_detail)
  moreover have "get_blog (site_db s) (blog_id b) = Some b" by (rule get_blog_member [OF assms(1,2)])
  ultimately show ?thesis
    using assms(3) by (simp add: blog_detail_view_def get_only_dispatch_def)
qed
text \<open>
  C29. A request with a method other than \<open>GET\<close>, \<open>HEAD\<close> or \<open>OPTIONS\<close> to any
  URL of a class-based read view is answered with 405 and changes nothing (only
  \<open>index\<close> and \<open>create_comment\<close>, the function views, accept other methods).
\<close>

theorem read_views_method_not_allowed:
  assumes "resolve (req_path req) = Some (n, args)" "n \<notin> {UIndex, UCreateComment}"
    and "req_method req \<notin> {''GET'', ''HEAD'', ''OPTIONS''}"
  shows "handle s req = (MethodNotAllowed, s)"
  using resolve_Some_args [OF assms(1)] assms
  by (cases n) (auto simp: handle_def get_only_dispatch_def blog_list_view_def blog_detail_view_def
      author_list_view_def author_detail_view_def blog_list_by_author_view_def)

end
