(* ===== verification/Admin.thy ===== *)
theory Admin
  imports Models Forms Pagination "HOL-Library.Sublist" "HOL-Library.Product_Lexorder"
begin

text \<open>
  The admin site of \<open>src/blog/admin.py\<close>: \<open>Author\<close> registered with the default
  \<open>ModelAdmin\<close>, \<open>BlogAdmin\<close> (columns \<open>title\<close>, \<open>author\<close>, \<open>post_date\<close>;
  search on \<open>title\<close>; the date filter on \<open>post_date\<close>; the comments inline),
  \<open>CommentAdmin\<close> (columns \<open>author\<close>, \<open>post_date\<close>, \<open>display_comment\<close>) and
  \<open>CommentInline\<close> (a tabular inline with \<open>extra = 0\<close>). The framework's change
  list is modelled as Django's \<open>ChangeList\<close> computes it: the rows the date filter
  and the search keep, in the model's default order made total by \<open>-pk\<close>
  (\<open>ChangeList._get_deterministic_ordering\<close>), each shown as the cells of
  \<open>list_display\<close> with \<open>'-'\<close> for an empty value. The search follows
  \<open>ModelAdmin.get_search_results\<close>: the query is split into words at whitespace,
  and a row is kept when its title contains every word, ignoring ASCII case (SQLite's
  \<open>LIKE\<close>). Deleting through the inline is \<open>delete_comment\<close> on each marked
  comment of the post, which the change view of \<open>AdminForms\<close> runs only after the
  post's form and the inline have validated; the \<open>delete selected\<close> action of each admin deletes the
  ticked rows of its table in one transaction (\<open>delete_selected\<close>).
\<close>

section \<open>Change list cells\<close>

text \<open>A cell of a change list row: text, a date, a timestamp, or the empty value
  (\<open>empty_value_display = '-'\<close>).\<close>

datatype admin_cell = TextCell string | DateCell date | TimeCell timestamp | EmptyCell

definition empty_value_display :: string where
  "empty_value_display = ''-''"

text \<open>Running a fallible function over a list, stopping at the first exception, as the
  change list template does when it renders the rows.\<close>

fun map_result :: "('a \<Rightarrow> 'e + 'b) \<Rightarrow> 'a list \<Rightarrow> 'e + 'b list" where
  "map_result f [] = Inr []"
| "map_result f (x # xs) =
     (case f x of Inl e \<Rightarrow> Inl e
      | Inr y \<Rightarrow> (case map_result f xs of Inl e \<Rightarrow> Inl e | Inr ys \<Rightarrow> Inr (y # ys)))"

section \<open>\<open>BlogAdmin\<close>\<close>

text \<open>\<open>list_display = ('title', 'author', 'post_date')\<close>: the author column shows
  \<open>str(author)\<close>, or the empty value when the field is NULL.\<close>

definition blog_admin_row :: "db \<Rightarrow> blog \<Rightarrow> py_error + admin_cell list" where
  "blog_admin_row d b =
     (let date_cell = (case blog_post_date b of None \<Rightarrow> EmptyCell | Some dt \<Rightarrow> DateCell dt) in
      case blog_author b of
        None \<Rightarrow> Inr [TextCell (title b), EmptyCell, date_cell]
      | Some k \<Rightarrow> (case get_author d k of
          None \<Rightarrow> Inl DoesNotExist
        | Some a \<Rightarrow> (case author_str d a of
            Inl e \<Rightarrow> Inl e
          | Inr s \<Rightarrow> Inr [TextCell (title b), TextCell s, date_cell])))"

text \<open>The change list order: \<open>Blog.Meta.ordering = ['-post_date']\<close>, then
  \<open>-pk\<close>.\<close>

definition blog_admin_key :: "blog \<Rightarrow> (bool \<times> int) \<times> int" where
  "blog_admin_key b = (blog_order_key b, - int (blog_id b))"

subsection \<open>\<open>search_fields = ['title']\<close>\<close>

text \<open>\<open>smart_split\<close> on a query without quotes: the maximal runs of non-space
  characters, in order.\<close>

function (domintros) split_words :: "string \<Rightarrow> string list" where
  "split_words s =
     (if dropWhile py_isspace s = [] then []
      else takeWhile (\<lambda>c. \<not> py_isspace c) (dropWhile py_isspace s)
           # split_words (dropWhile (\<lambda>c. \<not> py_isspace c) (dropWhile py_isspace s)))"
  by pat_completeness auto

termination split_words
  by (relation "measure length") (auto simp: dropWhile_word_shorter)

declare split_words.simps [simp del]

text \<open>SQLite folds the case of ASCII letters only.\<close>

definition ascii_lower :: "char \<Rightarrow> char" where
  "ascii_lower c = (let n = (of_char c :: nat) in if 65 \<le> n \<and> n \<le> 90 then char_of (n + 32) else c)"

text \<open>\<open>needle\<close> occurs in \<open>hay\<close> at some position: the \<open>LIKE '%needle%'\<close> test
  with Django's escaping of \<open>%\<close> and \<open>_\<close>, scanning the start positions in turn.\<close>

fun occurs_in :: "string \<Rightarrow> string \<Rightarrow> bool" where
  "occurs_in w [] = (w = [])"
| "occurs_in w (c # cs) = (take (length w) (c # cs) = w \<or> occurs_in w cs)"

definition icontains :: "string \<Rightarrow> string \<Rightarrow> bool" where
  "icontains hay w = occurs_in (map ascii_lower w) (map ascii_lower hay)"

definition blog_search :: "string \<Rightarrow> blog list \<Rightarrow> blog list" where
  "blog_search q bs = filter (\<lambda>b. list_all (icontains (title b)) (split_words q)) bs"

subsection \<open>\<open>list_filter = ['post_date']\<close>\<close>

text \<open>
  \<open>DateFieldListFilter\<close> offers these choices; the field is nullable, so it also offers
  \<open>No date\<close> and \<open>Has date\<close>. The bounds are computed from today's date with the
  proleptic Gregorian calendar; a date is a day number counted from 1970-01-01.
\<close>

datatype date_choice = AnyDate | Today | PastSevenDays | ThisMonth | ThisYear | NoDate | HasDate

text \<open>\<open>date(y, m, d).toordinal()\<close> shifted to 1970-01-01, and its inverse.\<close>

definition days_from_civil :: "int \<Rightarrow> nat \<Rightarrow> nat \<Rightarrow> int" where
  "days_from_civil y m dd =
     (let y' = (if m \<le> 2 then y - 1 else y);
          era = y' div 400;
          yoe = y' - era * 400;
          mp = int (if 2 < m then m - 3 else m + 9);
          doy = (153 * mp + 2) div 5 + int dd - 1;
          doe = yoe * 365 + yoe div 4 - yoe div 100 + doy
      in era * 146097 + doe - 719468)"

definition civil_from_days :: "int \<Rightarrow> int \<times> nat \<times> nat" where
  "civil_from_days z0 =
     (let z = z0 + 719468;
          era = z div 146097;
          doe = z - era * 146097;
          yoe = (doe - doe div 1460 + doe div 36524 - doe div 146096) div 365;
          y = yoe + era * 400;
          doy = doe - (365 * yoe + yoe div 4 - yoe div 100);
          mp = (5 * doy + 2) div 153;
          dd = doy - (153 * mp + 2) div 5 + 1;
          m = (if mp < 10 then mp + 3 else mp - 9)
      in (if m \<le> 2 then y + 1 else y, nat m, nat dd))"

text \<open>The half-open range \<open>[gte, lt)\<close> of a choice, as day numbers.\<close>

definition date_choice_range :: "date \<Rightarrow> date_choice \<Rightarrow> (int \<times> int) option" where
  "date_choice_range today ch =
     (let (y, m, _) = civil_from_days today;
          tomorrow = today + 1
      in case ch of
        Today \<Rightarrow> Some (today, tomorrow)
      | PastSevenDays \<Rightarrow> Some (today - 7, tomorrow)
      | ThisMonth \<Rightarrow> Some (days_from_civil y m 1,
          if m = 12 then days_from_civil (y + 1) 1 1 else days_from_civil y (m + 1) 1)
      | ThisYear \<Rightarrow> Some (days_from_civil y 1 1, days_from_civil (y + 1) 1 1)
      | _ \<Rightarrow> None)"

definition date_choice_holds :: "date \<Rightarrow> date_choice \<Rightarrow> date option \<Rightarrow> bool" where
  "date_choice_holds today ch pd =
     (case ch of
        AnyDate \<Rightarrow> True
      | NoDate \<Rightarrow> pd = None
      | HasDate \<Rightarrow> pd \<noteq> None
      | _ \<Rightarrow> (case (date_choice_range today ch, pd) of
               (Some (lo, hi), Some dt) \<Rightarrow> lo \<le> dt \<and> dt < hi
             | _ \<Rightarrow> False))"

subsection \<open>The change list\<close>

definition blog_changelist :: "db \<Rightarrow> string \<Rightarrow> date_choice \<Rightarrow> date \<Rightarrow> blog list" where
  "blog_changelist d q ch today =
     sort_key blog_admin_key
       (blog_search q (filter (\<lambda>b. date_choice_holds today ch (blog_post_date b)) (blogs d)))"

definition blog_changelist_rows ::
  "db \<Rightarrow> string \<Rightarrow> date_choice \<Rightarrow> date \<Rightarrow> py_error + admin_cell list list" where
  "blog_changelist_rows d q ch today = map_result (blog_admin_row d) (blog_changelist d q ch today)"

section \<open>\<open>CommentInline\<close> on the post's change page\<close>

text \<open>\<open>TabularInline\<close> over \<open>Comment\<close>: the post's comments in
  \<open>Comment.Meta.ordering\<close>, and \<open>extra = 0\<close> blank forms.\<close>

definition comment_inline_extra :: nat where
  "comment_inline_extra = 0"

definition comment_inline :: "db \<Rightarrow> pk \<Rightarrow> comment list \<times> nat" where
  "comment_inline d k =
     (order_comments (filter (\<lambda>c. comment_blog c = Some k) (comments d)), comment_inline_extra)"

text \<open>Saving the post's change page with the \<open>DELETE\<close> box of some inline rows
  ticked: the formset deletes each ticked comment that belongs to the post, in the order
  of the inline (\<open>delete_each\<close>: the single-row deletes one after another, stopping
  at the first error). The change view (\<open>blog_admin_change\<close>) calls it only
  once the post's form and the inline rows have validated.\<close>

fun delete_each :: "(db \<Rightarrow> pk \<Rightarrow> py_error + db) \<Rightarrow> db \<Rightarrow> pk list \<Rightarrow> py_error + db" where
  "delete_each del d [] = Inr d"
| "delete_each del d (k # ks) = (case del d k of Inl e \<Rightarrow> Inl e | Inr d' \<Rightarrow> delete_each del d' ks)"

definition inline_delete :: "db \<Rightarrow> pk \<Rightarrow> pk list \<Rightarrow> py_error + db" where
  "inline_delete d k ticked =
     delete_each delete_comment d (filter (\<lambda>i. i \<in> set ticked) (map comment_id (fst (comment_inline d k))))"

section \<open>The \<open>delete selected\<close> action\<close>

text \<open>\<open>django.contrib.admin.actions.delete_selected\<close>, the default action of every
  registered \<open>ModelAdmin\<close>: the rows ticked in the change list
  (\<open>_selected_action\<close>) select the rows of the table with those keys (keys of no row
  select nothing); once the confirmation page is posted, \<open>delete_queryset\<close>
  deletes them with the model's \<open>on_delete\<close> actions in one transaction, and a
  restricted row (the \<open>Cannot delete\<close> page) deletes nothing. The deletion is the
  single-row deletes in table order; an error aborts the transaction, so the caller
  keeps the database it had.\<close>

definition delete_selected ::
  "(db \<Rightarrow> pk list) \<Rightarrow> (db \<Rightarrow> pk \<Rightarrow> py_error + db) \<Rightarrow> db \<Rightarrow> pk list \<Rightarrow> py_error + db" where
  "delete_selected ids del d sel = delete_each del d (filter (\<lambda>k. k \<in> set sel) (ids d))"

section \<open>\<open>CommentAdmin\<close> and the \<open>Author\<close> admin\<close>

text \<open>\<open>list_display = ('author', 'post_date', 'display_comment')\<close>: the user's
  \<open>str()\<close> (the username), the timestamp, the first 50 characters.\<close>

definition comment_admin_row :: "db \<Rightarrow> comment \<Rightarrow> py_error + admin_cell list" where
  "comment_admin_row d c =
     (let time_cell = (case comment_post_date c of None \<Rightarrow> EmptyCell | Some t \<Rightarrow> TimeCell t);
          text_cell = TextCell (display_comment c)
      in case comment_author c of
        None \<Rightarrow> Inr [EmptyCell, time_cell, text_cell]
      | Some u \<Rightarrow> (case get_user d u of
          None \<Rightarrow> Inl DoesNotExist
        | Some usr \<Rightarrow> Inr [TextCell (username usr), time_cell, text_cell]))"

definition comment_admin_key :: "comment \<Rightarrow> (bool \<times> int) \<times> int" where
  "comment_admin_key c = (comment_order_key c, - int (comment_id c))"

definition comment_changelist :: "db \<Rightarrow> comment list" where
  "comment_changelist d = sort_key comment_admin_key (comments d)"

text \<open>\<open>admin.site.register(Author)\<close>: \<open>list_display = ('__str__',)\<close>, no model
  ordering, so the change list is ordered by \<open>-pk\<close> alone.\<close>

definition author_changelist :: "db \<Rightarrow> author list" where
  "author_changelist d = sort_key (\<lambda>a. - int (author_id a)) (authors d)"

definition author_admin_row :: "db \<Rightarrow> author \<Rightarrow> py_error + admin_cell list" where
  "author_admin_row d a = map_sum id (\<lambda>s. [TextCell s]) (author_str d a)"

section \<open>The add form of the \<open>Author\<close> admin\<close>

text \<open>
  The default \<open>ModelForm\<close> of \<open>Author\<close>: \<open>name\<close> is a required
  \<open>ModelChoiceField\<close> over the users (the field is \<open>null=True\<close> but not
  \<open>blank=True\<close>), whose value is read with \<open>int()\<close> and must name a user;
  \<open>biography\<close> is a required \<open>CharField(max_length=1000)\<close> (the form field of the
  \<open>TextField\<close>). After the field errors, \<open>validate_unique\<close> checks the one-to-one
  field for every name that cleaned. A form without errors saves the author with
  \<open>objects.create\<close>.
\<close>

definition model_choice_clean :: "pk list \<Rightarrow> string option \<Rightarrow> field_error list + pk" where
  "model_choice_clean ks raw =
     (case raw of
        None \<Rightarrow> Inl [Required]
      | Some v \<Rightarrow>
          if v = [] then Inl [Required]
          else (case py_int v of
                  Some i \<Rightarrow> if 0 \<le> i \<and> nat i \<in> set ks then Inr (nat i) else Inl [InvalidChoice]
                | None \<Rightarrow> Inl [InvalidChoice]))"

type_synonym form_errors = "(string \<times> field_error) list"

definition field_errors :: "string \<Rightarrow> field_error list + 'a \<Rightarrow> form_errors" where
  "field_errors f r = (case r of Inl es \<Rightarrow> map (Pair f) es | Inr _ \<Rightarrow> [])"

definition author_admin_add :: "db \<Rightarrow> query_dict \<Rightarrow> form_errors + (py_error + (author \<times> db))" where
  "author_admin_add d post =
     (let name_r = model_choice_clean (user_ids d) (querydict_get post ''name'');
          bio_r = charfield_clean (Some 1000) True (querydict_get post ''biography'');
          unique_errs = (case name_r of
              Inr u \<Rightarrow> if Some u \<in> set (map author_name (authors d))
                       then [(''name'', UniqueError ''Author'' ''Name'')] else []
            | Inl _ \<Rightarrow> []);
          errs = field_errors ''name'' name_r @ field_errors ''biography'' bio_r @ unique_errs
      in if errs \<noteq> [] then Inl errs
         else (case (name_r, bio_r) of
                 (Inr u, Inr bio) \<Rightarrow> Inr (create_author d (Some u) bio)
               | _ \<Rightarrow> Inl errs))"

section \<open>The shape of a change list row\<close>

text \<open>A row of the post change list is well typed when it has the three cells of
  \<open>list_display\<close>: the title as text, the author as text exactly when the post has
  one, the date or the empty value.\<close>

definition blog_row_typed :: "blog \<Rightarrow> admin_cell list \<Rightarrow> bool" where
  "blog_row_typed b row =
     (case row of
        [TextCell t, a, dt] \<Rightarrow>
          t = title b
          \<and> (case a of TextCell _ \<Rightarrow> blog_author b \<noteq> None | EmptyCell \<Rightarrow> blog_author b = None | _ \<Rightarrow> False)
          \<and> dt = (case blog_post_date b of None \<Rightarrow> EmptyCell | Some x \<Rightarrow> DateCell x)
      | _ \<Rightarrow> False)"

section \<open>Lemmas on the change lists, the search and the inline\<close>

lemma map_result_total:
  "list_all (\<lambda>x. \<exists>y. f x = Inr y \<and> P x y) xs \<Longrightarrow>
   \<exists>ys. map_result f xs = Inr ys \<and> list_all2 P xs ys"
proof (induction xs)
  case Nil
  then show ?case by simp
next
  case (Cons x xs)
  then obtain y ys where "f x = Inr y" "P x y" "map_result f xs = Inr ys" "list_all2 P xs ys" by auto
  then show ?case by simp
qed

lemma author_str_wf:
  "db_wf d \<Longrightarrow> a \<in> set (authors d) \<Longrightarrow> \<exists>s. author_str d a = Inr s"
proof (cases "author_name a")
  case (Some u)
  assume "db_wf d" "a \<in> set (authors d)"
  with Some have "u \<in> set (user_ids d)" by (auto simp: db_wf_def list_all_iff fk_ok_def)
  then obtain usr where "get_user d u = Some usr" by (cases "get_user d u") (auto simp: get_user_None_iff)
  with Some show ?thesis by (simp add: author_str_def)
qed (simp add: author_str_def)

lemma blog_admin_row_typed:
  assumes wf: "db_wf d" and b: "b \<in> set (blogs d)"
  shows "\<exists>row. blog_admin_row d b = Inr row \<and> blog_row_typed b row"
proof (cases "blog_author b")
  case None
  then show ?thesis by (simp add: blog_admin_row_def blog_row_typed_def split: option.splits)
next
  case (Some k)
  with wf b have "k \<in> set (author_ids d)" by (auto simp: db_wf_def list_all_iff fk_ok_def)
  then obtain a where a: "get_author d k = Some a" by (cases "get_author d k") (auto simp: get_author_None_iff)
  then obtain s where "author_str d a = Inr s"
    using author_str_wf [OF wf] get_author_Some [OF a] by blast
  with Some a show ?thesis by (simp add: blog_admin_row_def blog_row_typed_def split: option.splits)
qed

lemma set_blog_changelist:
  "set (blog_changelist d q ch today)
     = {b \<in> set (blogs d). date_choice_holds today ch (blog_post_date b) \<and> list_all (icontains (title b)) (split_words q)}"
  by (auto simp: blog_changelist_def blog_search_def)

lemma blog_admin_key_distinct:
  assumes "distinct (map blog_id bs)"
  shows "distinct (map blog_admin_key bs)"
proof -
  from assms have "distinct bs" "inj_on blog_id (set bs)" by (simp_all add: distinct_map)
  moreover have "inj_on blog_admin_key (set bs)"
    using \<open>inj_on blog_id (set bs)\<close> by (auto simp: inj_on_def blog_admin_key_def)
  ultimately show ?thesis by (simp add: distinct_map)
qed

lemma blog_admin_key_less: "blog_admin_key x < blog_admin_key y \<Longrightarrow> newest_first x y"
proof -
  assume "blog_admin_key x < blog_admin_key y"
  then have "blog_order_key x \<le> blog_order_key y"
    by (cases "blog_order_key x"; cases "blog_order_key y")
       (auto simp: blog_admin_key_def less_prod_def less_eq_prod_def)
  then show ?thesis by (rule blog_order_key_newest_first)
qed

lemma sort_key_strict:
  "distinct (map f xs) \<Longrightarrow> sorted_wrt (\<lambda>x y. f x < f y) (sort_key f xs)"
proof -
  assume d: "distinct (map f xs)"
  have "mset (map f (sort_key f xs)) = mset (map f xs)" by simp
  with d have "distinct (map f (sort_key f xs))" using mset_eq_imp_distinct_iff by blast
  then have "sorted_wrt (<) (map f (sort_key f xs))"
    using sorted_sort_key [of f xs] by (simp add: strict_sorted_iff)
  then show ?thesis by (simp add: sorted_wrt_map)
qed

lemma split_words_Nil: "dropWhile py_isspace s = [] \<Longrightarrow> split_words s = []"
  by (simp add: split_words.simps)

lemma split_words_Cons:
  "dropWhile py_isspace s \<noteq> [] \<Longrightarrow>
   split_words s = takeWhile (\<lambda>c. \<not> py_isspace c) (dropWhile py_isspace s)
     # split_words (dropWhile (\<lambda>c. \<not> py_isspace c) (dropWhile py_isspace s))"
  by (simp add: split_words.simps)

lemma prefix_take_iff: "prefix w s \<longleftrightarrow> take (length w) s = w"
  by (metis append_eq_conv_conj prefix_def)

lemma occurs_in_sublist: "occurs_in w s \<longleftrightarrow> sublist w s"
  by (induction s) (auto simp: sublist_Cons_right prefix_take_iff)

lemma mset_filter_split:
  "mset (filter (\<lambda>x. P x \<and> Q x) xs) + mset (filter (\<lambda>x. \<not> P x \<and> Q x) xs) = mset (filter Q xs)"
  by (induction xs) auto

lemma mset_blog_changelist:
  "mset (blog_changelist d q ch today)
     = mset (filter (\<lambda>b. date_choice_holds today ch (blog_post_date b) \<and> list_all (icontains (title b)) (split_words q))
         (blogs d))"
  by (simp add: blog_changelist_def blog_search_def conj_commute)

lemma date_choice_range_today:
  "date_choice_range today Today = Some (today, today + 1)"
  "date_choice_range today PastSevenDays = Some (today - 7, today + 1)"
  by (simp_all add: date_choice_range_def split: prod.split)

lemma delete_each_preserves:
  assumes "\<And>d k d'. P d \<Longrightarrow> del d k = Inr d' \<Longrightarrow> P d'"
  shows "P d \<Longrightarrow> delete_each del d ks = Inr d' \<Longrightarrow> P d'"
  by (induction ks arbitrary: d) (auto dest: assms split: sum.splits)

lemma delete_each_comments:
  "distinct ks \<Longrightarrow> set ks \<subseteq> set (comment_ids d) \<Longrightarrow>
   delete_each delete_comment d ks = Inr (d\<lparr>comments := filter (\<lambda>c. comment_id c \<notin> set ks) (comments d)\<rparr>)"
proof (induction ks arbitrary: d)
  case Nil
  then show ?case by simp
next
  case (Cons k ks)
  let ?d' = "d\<lparr>comments := filter (\<lambda>c. comment_id c \<noteq> k) (comments d)\<rparr>"
  have del: "delete_comment d k = Inr ?d'"
    using Cons.prems by (simp add: delete_comment_def get_comment_None_iff)
  have "set ks \<subseteq> set (comment_ids ?d')" using Cons.prems by fastforce
  then have "delete_each delete_comment ?d' ks = Inr (?d'\<lparr>comments := filter (\<lambda>c. comment_id c \<notin> set ks) (comments ?d')\<rparr>)"
    using Cons.IH Cons.prems by simp
  with del show ?case by (simp add: conj_commute)
qed

lemma delete_each_comments_wf: "db_wf d \<Longrightarrow> delete_each delete_comment d ks = Inr d' \<Longrightarrow> db_wf d'"
  using delete_each_preserves [where P = db_wf and del = delete_comment] delete_comment_wf by blast

lemma set_comment_inline:
  "set (fst (comment_inline d k)) = {c \<in> set (comments d). comment_blog c = Some k}"
  by (auto simp: comment_inline_def order_comments_def)

lemma inline_delete_eq:
  assumes wf: "db_wf d"
  shows "inline_delete d k ticked =
    Inr (d\<lparr>comments := filter (\<lambda>c. \<not> (comment_blog c = Some k \<and> comment_id c \<in> set ticked)) (comments d)\<rparr>)"
proof -
  let ?cs = "filter (\<lambda>c. comment_blog c = Some k) (comments d)"
  let ?L = "filter (\<lambda>i. i \<in> set ticked) (map comment_id (fst (comment_inline d k)))"
  have dist_cs: "distinct (map comment_id ?cs)"
    using db_wf_distinct_comment_ids [OF wf] by (simp add: distinct_map_filter)
  have "mset (map comment_id (fst (comment_inline d k))) = mset (map comment_id ?cs)"
    by (simp add: comment_inline_def order_comments_def)
  with dist_cs have "distinct (map comment_id (fst (comment_inline d k)))"
    using mset_eq_imp_distinct_iff by blast
  then have dist: "distinct ?L" by simp
  have setL: "set ?L = {i \<in> set ticked. \<exists>c \<in> set (comments d). comment_blog c = Some k \<and> comment_id c = i}"
    by (auto simp: set_comment_inline)
  then have sub: "set ?L \<subseteq> set (comment_ids d)" by auto
  have inj: "inj_on comment_id (set (comments d))"
    using db_wf_distinct_comment_ids [OF wf] by (simp add: distinct_map)
  have "comment_id c \<notin> set ?L \<longleftrightarrow> \<not> (comment_blog c = Some k \<and> comment_id c \<in> set ticked)"
    if "c \<in> set (comments d)" for c
    using that inj unfolding setL by (auto dest: inj_onD)
  then have "filter (\<lambda>c. comment_id c \<notin> set ?L) (comments d)
      = filter (\<lambda>c. \<not> (comment_blog c = Some k \<and> comment_id c \<in> set ticked)) (comments d)"
    by (rule filter_cong [OF refl])
  with delete_each_comments [OF dist sub] show ?thesis by (simp add: inline_delete_def)
qed

lemma delete_each_blogs:
  assumes "distinct ks" "set ks \<subseteq> set (blog_ids d)"
  shows "delete_each delete_blog d ks =
     (if list_ex (\<lambda>c. comment_blog c \<in> Some ` set ks) (comments d) then Inl RestrictedError
      else Inr (d\<lparr>blogs := filter (\<lambda>b. blog_id b \<notin> set ks) (blogs d)\<rparr>))"
  using assms
proof (induction ks arbitrary: d)
  case Nil
  then show ?case by (simp add: list_ex_iff)
next
  case (Cons k ks)
  show ?case
  proof (cases "list_ex (\<lambda>c. comment_blog c = Some k) (comments d)")
    case True
    then have "delete_blog d k = Inl RestrictedError"
      using Cons.prems by (simp add: delete_blog_def get_blog_None_iff)
    with True show ?thesis by (auto simp: list_ex_iff)
  next
    case False
    let ?d' = "d\<lparr>blogs := filter (\<lambda>b. blog_id b \<noteq> k) (blogs d)\<rparr>"
    have del: "delete_blog d k = Inr ?d'"
      using Cons.prems False by (simp add: delete_blog_def get_blog_None_iff)
    have "set ks \<subseteq> set (blog_ids ?d')" using Cons.prems by fastforce
    then have rest: "delete_each delete_blog ?d' ks =
        (if list_ex (\<lambda>c. comment_blog c \<in> Some ` set ks) (comments d) then Inl RestrictedError
         else Inr (?d'\<lparr>blogs := filter (\<lambda>b. blog_id b \<notin> set ks) (blogs ?d')\<rparr>))"
      using Cons.IH Cons.prems by simp
    have ex: "list_ex (\<lambda>c. comment_blog c = Some k \<or> comment_blog c \<in> Some ` set ks) (comments d)
        = list_ex (\<lambda>c. comment_blog c \<in> Some ` set ks) (comments d)"
      using False by (auto simp: list_ex_iff)
    show ?thesis by (simp add: del rest ex conj_commute)
  qed
qed

lemma model_choice_clean_key:
  "k \<in> set ks \<Longrightarrow> model_choice_clean ks (Some (py_str_nat k)) = Inr k"
  by (simp add: model_choice_clean_def py_int_str_nat)

section \<open>Properties of the admin site\<close>

text \<open>
  C31. Typing of the post change list: in a well-formed database rendering the rows
  never fails, and every row has the three cells of \<open>list_display\<close> with the types
  the fields give them (\<open>blog_row_typed\<close>).
\<close>

theorem blog_changelist_rows_typed:
  assumes wf: "db_wf d"
  shows "\<exists>rows. blog_changelist_rows d q ch today = Inr rows
    \<and> list_all2 blog_row_typed (blog_changelist d q ch today) rows"
proof -
  have "list_all (\<lambda>b. \<exists>row. blog_admin_row d b = Inr row \<and> blog_row_typed b row) (blog_changelist d q ch today)"
    using blog_admin_row_typed [OF wf] by (auto simp: list_all_iff set_blog_changelist)
  then show ?thesis unfolding blog_changelist_rows_def by (rule map_result_total)
qed

text \<open>
  C32. The post change list holds exactly the posts the date filter and the search
  keep, in a strict total order: post date descending (undated last), ties broken by
  descending key.
\<close>

theorem blog_changelist_order:
  assumes wf: "db_wf d"
  shows "mset (blog_changelist d q ch today)
      = mset (filter (\<lambda>b. date_choice_holds today ch (blog_post_date b) \<and> list_all (icontains (title b)) (split_words q))
          (blogs d))
    \<and> sorted_wrt (\<lambda>b1 b2. blog_admin_key b1 < blog_admin_key b2) (blog_changelist d q ch today)
    \<and> sorted_wrt newest_first (blog_changelist d q ch today)"
proof (intro conjI)
  let ?ys = "blog_search q (filter (\<lambda>b. date_choice_holds today ch (blog_post_date b)) (blogs d))"
  show "mset (blog_changelist d q ch today)
      = mset (filter (\<lambda>b. date_choice_holds today ch (blog_post_date b) \<and> list_all (icontains (title b)) (split_words q))
          (blogs d))"
    by (simp add: blog_changelist_def blog_search_def conj_commute)
  have "distinct (map blog_id ?ys)"
    using db_wf_distinct_blog_ids [OF wf] by (simp add: blog_search_def distinct_map_filter)
  then have strict: "sorted_wrt (\<lambda>b1 b2. blog_admin_key b1 < blog_admin_key b2) (sort_key blog_admin_key ?ys)"
    by (intro sort_key_strict blog_admin_key_distinct)
  then show "sorted_wrt (\<lambda>b1 b2. blog_admin_key b1 < blog_admin_key b2) (blog_changelist d q ch today)"
    by (simp add: blog_changelist_def)
  from strict show "sorted_wrt newest_first (blog_changelist d q ch today)"
    unfolding blog_changelist_def
    by (rule sorted_wrt_mono_rel [rotated])
       (rule blog_admin_key_less)
qed

text \<open>
  Splitting the search query yields its maximal runs of non-space characters: the
  words concatenated are the query without its whitespace, and no word is empty or
  contains whitespace.
\<close>

theorem split_words_spec:
  "concat (split_words s) = filter (\<lambda>c. \<not> py_isspace c) s
   \<and> list_all (\<lambda>w. w \<noteq> [] \<and> list_all (\<lambda>c. \<not> py_isspace c) w) (split_words s)"
proof (induction s rule: split_words.induct)
  case (1 s)
  let ?r = "dropWhile py_isspace s"
  show ?case
  proof (cases "?r = []")
    case True
    then have "filter (\<lambda>c. \<not> py_isspace c) s = []"
      by (simp add: dropWhile_eq_Nil_conv filter_empty_conv)
    with True show ?thesis by (simp add: split_words_Nil)
  next
    case False
    have IH: "concat (split_words (dropWhile (\<lambda>c. \<not> py_isspace c) ?r))
        = filter (\<lambda>c. \<not> py_isspace c) (dropWhile (\<lambda>c. \<not> py_isspace c) ?r)
      \<and> list_all (\<lambda>w. w \<noteq> [] \<and> list_all (\<lambda>c. \<not> py_isspace c) w)
          (split_words (dropWhile (\<lambda>c. \<not> py_isspace c) ?r))"
      using "1.IH" False by blast
    have s: "filter (\<lambda>c. \<not> py_isspace c) s = filter (\<lambda>c. \<not> py_isspace c) ?r"
    proof -
      have "filter (\<lambda>c. \<not> py_isspace c) (takeWhile py_isspace s) = []"
        by (auto simp: filter_empty_conv dest: set_takeWhileD)
      then show ?thesis by (metis filter_append self_append_conv2 takeWhile_dropWhile_id)
    qed
    have r: "filter (\<lambda>c. \<not> py_isspace c) ?r
        = takeWhile (\<lambda>c. \<not> py_isspace c) ?r @ filter (\<lambda>c. \<not> py_isspace c) (dropWhile (\<lambda>c. \<not> py_isspace c) ?r)"
      by (metis filter_append filter_id_conv set_takeWhileD takeWhile_dropWhile_id)
    have ne: "takeWhile (\<lambda>c. \<not> py_isspace c) ?r \<noteq> []"
      using False hd_dropWhile [of py_isspace s] by (cases ?r) auto
    have "list_all (\<lambda>c. \<not> py_isspace c) (takeWhile (\<lambda>c. \<not> py_isspace c) ?r)"
      by (auto simp: list_all_iff dest: set_takeWhileD)
    with IH s r ne False show ?thesis by (simp add: split_words_Cons)
  qed
qed

text \<open>
  The splitting of the search query terminates on every input, after at most as
  many words as the query has characters.
\<close>

theorem split_words_terminates: "split_words_dom s \<and> length (split_words s) \<le> length s"
proof (induction s rule: measure_induct_rule [of length])
  case (less s)
  let ?rest = "dropWhile (\<lambda>c. \<not> py_isspace c) (dropWhile py_isspace s)"
  show ?case
  proof (cases "dropWhile py_isspace s = []")
    case True
    then show ?thesis by (auto intro: split_words.domintros simp: split_words_Nil)
  next
    case False
    then have shorter: "length ?rest < length s" by (rule dropWhile_word_shorter)
    with less have IH: "split_words_dom ?rest \<and> length (split_words ?rest) \<le> length ?rest" by blast
    then have "split_words_dom s" by (auto intro: split_words.domintros)
    moreover have "length (split_words s) \<le> length s"
      using IH shorter False by (simp add: split_words_Cons)
    ultimately show ?thesis by blast
  qed
qed

text \<open>
  The title search test \<open>icontains\<close>, a scan over the start positions, is the
  library's \<open>sublist\<close> relation on the ASCII-lower-cased strings.
\<close>

theorem icontains_sublist:
  "icontains hay w \<longleftrightarrow> sublist (map ascii_lower w) (map ascii_lower hay)"
  by (simp add: icontains_def occurs_in_sublist)

text \<open>
  C34. Liveness of deletion: in a well-formed database every post can be removed through
  the admin, whatever its fields hold: the \<open>delete selected\<close> action of the
  \<open>Comment\<close> admin on the post's comments succeeds, then the post's delete view
  succeeds; exactly that post and its comments are gone and the database stays well
  formed.
\<close>

theorem admin_can_delete_post:
  assumes wf: "db_wf d" and k: "k \<in> set (blog_ids d)"
  shows "\<exists>d1 d2. delete_selected comment_ids delete_comment d
        (map comment_id (filter (\<lambda>c. comment_blog c = Some k) (comments d))) = Inr d1
    \<and> delete_blog d1 k = Inr d2 \<and> db_wf d2
    \<and> blogs d2 = filter (\<lambda>b. blog_id b \<noteq> k) (blogs d)
    \<and> comments d2 = filter (\<lambda>c. comment_blog c \<noteq> Some k) (comments d)"
proof -
  let ?sel = "map comment_id (filter (\<lambda>c. comment_blog c = Some k) (comments d))"
  let ?L = "filter (\<lambda>i. i \<in> set ?sel) (comment_ids d)"
  have dist: "distinct ?L" using db_wf_distinct_comment_ids [OF wf] by simp
  have sub: "set ?L \<subseteq> set (comment_ids d)" by auto
  have inj: "inj_on comment_id (set (comments d))"
    using db_wf_distinct_comment_ids [OF wf] by (simp add: distinct_map)
  have "comment_id c \<notin> set ?L \<longleftrightarrow> comment_blog c \<noteq> Some k" if "c \<in> set (comments d)" for c
    using that inj by (auto dest: inj_onD)
  then have flt: "filter (\<lambda>c. comment_id c \<notin> set ?L) (comments d)
      = filter (\<lambda>c. comment_blog c \<noteq> Some k) (comments d)"
    by (rule filter_cong [OF refl])
  let ?d1 = "d\<lparr>comments := filter (\<lambda>c. comment_blog c \<noteq> Some k) (comments d)\<rparr>"
  have d1: "delete_selected comment_ids delete_comment d ?sel = Inr ?d1"
    using delete_each_comments [OF dist sub] flt by (simp add: delete_selected_def)
  have wf1: "db_wf ?d1" by (rule delete_each_comments_wf [OF wf delete_each_comments [OF dist sub], unfolded flt])
  have "get_blog ?d1 k \<noteq> None" using k by (simp add: get_blog_None_iff)
  moreover have "\<not> list_ex (\<lambda>c. comment_blog c = Some k) (comments ?d1)" by (auto simp: list_ex_iff)
  ultimately have d2: "delete_blog ?d1 k = Inr (?d1\<lparr>blogs := filter (\<lambda>b. blog_id b \<noteq> k) (blogs d)\<rparr>)"
    by (simp add: delete_blog_def)
  from d1 d2 delete_blog_wf [OF wf1 d2] show ?thesis by auto
qed

text \<open>
  The date filter's \<open>No date\<close> and \<open>Has date\<close> choices split the
  change list between them, \<open>Today\<close> lists only posts dated today, and every one of
  them is also listed under \<open>Past 7 days\<close>.
\<close>

theorem date_filter_choices:
  "mset (blog_changelist d q NoDate today) + mset (blog_changelist d q HasDate today)
     = mset (blog_changelist d q AnyDate today)
   \<and> set (blog_changelist d q Today today) \<subseteq> set (blog_changelist d q PastSevenDays today)
   \<and> list_all (\<lambda>b. blog_post_date b = Some today) (blog_changelist d q Today today)"
proof (intro conjI)
  show "mset (blog_changelist d q NoDate today) + mset (blog_changelist d q HasDate today)
     = mset (blog_changelist d q AnyDate today)"
    using mset_filter_split [of "\<lambda>b. blog_post_date b = None" "\<lambda>b. list_all (icontains (title b)) (split_words q)" "blogs d"]
    by (simp add: mset_blog_changelist date_choice_holds_def)
  show "set (blog_changelist d q Today today) \<subseteq> set (blog_changelist d q PastSevenDays today)"
    by (auto simp: set_blog_changelist date_choice_holds_def date_choice_range_today split: option.splits)
  show "list_all (\<lambda>b. blog_post_date b = Some today) (blog_changelist d q Today today)"
    by (auto simp: list_all_iff set_blog_changelist date_choice_holds_def date_choice_range_today
        split: option.splits)
qed

text \<open>
  C15. The \<open>Author\<close> admin's add form, for a user without an author, accepts a
  biography exactly when it has between 1 and 1000 characters (taken without
  surrounding whitespace and NUL characters), saves it as given, and rejects a longer
  one with the max-length error alone.
\<close>

theorem author_admin_biography:
  assumes wf: "db_wf d"
    and name: "querydict_get post ''name'' = Some (py_str_nat u)" "u \<in> set (user_ids d)"
      "Some u \<notin> set (map author_name (authors d))"
    and bio: "querydict_get post ''biography'' = Some b" "py_strip b = b" "CHR 0x00 \<notin> set b"
  shows "((\<exists>a d'. author_admin_add d post = Inr (Inr (a, d')) \<and> biography a = b \<and> author_name a = Some u
            \<and> db_wf d') \<longleftrightarrow> b \<noteq> [] \<and> length b \<le> 1000)
    \<and> (1000 < length b \<longrightarrow> author_admin_add d post = Inl [(''biography'', MaxLength 1000 (length b))])"
proof -
  have n: "model_choice_clean (user_ids d) (querydict_get post ''name'') = Inr u"
    using name by (simp add: model_choice_clean_key)
  have cb: "charfield_clean (Some 1000) True (querydict_get post ''biography'') =
      (if b = [] then Inl [Required] else if 1000 < length b then Inl [MaxLength 1000 (length b)] else Inr b)"
    using bio by (simp add: charfield_clean_def charfield_to_python_def charfield_validators_def Let_def)
  let ?a = "\<lparr>author_id = next_author d, author_name = Some u, biography = b\<rparr>"
  let ?d' = "d\<lparr>authors := authors d @ [?a], next_author := Suc (next_author d)\<rparr>"
  have cr: "create_author d (Some u) b = Inr (?a, ?d')"
    using name by (simp add: create_author_def fk_ok_def Let_def)
  show ?thesis
  proof (cases "b \<noteq> [] \<and> length b \<le> 1000")
    case True
    then have "author_admin_add d post = Inr (Inr (?a, ?d'))"
      using n cb cr name by (simp add: author_admin_add_def field_errors_def Let_def)
    moreover have "db_wf ?d'" by (rule create_author_wf [OF wf cr])
    ultimately show ?thesis using True by auto
  next
    case False
    then have "author_admin_add d post = Inl (field_errors ''biography''
        (charfield_clean (Some 1000) True (querydict_get post ''biography'')))"
      using n cb name by (auto simp: author_admin_add_def field_errors_def Let_def)
    with False cb show ?thesis by (auto simp: field_errors_def)
  qed
qed
text \<open>
  C33. The \<open>delete selected\<close> action of \<open>BlogAdmin\<close> on a well-formed
  database is all or nothing: when a comment refers to a selected post it deletes no
  post (\<open>on_delete=RESTRICT\<close>), and otherwise it removes exactly the selected posts
  and changes nothing else.
\<close>

theorem delete_selected_blogs:
  assumes "db_wf d"
  shows "delete_selected blog_ids delete_blog d sel =
     (if list_ex (\<lambda>c. comment_blog c \<in> Some ` set sel) (comments d) then Inl RestrictedError
      else Inr (d\<lparr>blogs := filter (\<lambda>b. blog_id b \<notin> set sel) (blogs d)\<rparr>))"
proof -
  let ?ks = "filter (\<lambda>k. k \<in> set sel) (blog_ids d)"
  have ks: "distinct ?ks" "set ?ks \<subseteq> set (blog_ids d)"
    using db_wf_distinct_blog_ids [OF assms] by auto
  have fk: "k \<in> set (blog_ids d)" if "c \<in> set (comments d)" "comment_blog c = Some k" for c k
    using assms that by (auto simp: db_wf_def list_all_iff fk_ok_def)
  have ex: "list_ex (\<lambda>c. comment_blog c \<in> Some ` set ?ks) (comments d)
      = list_ex (\<lambda>c. comment_blog c \<in> Some ` set sel) (comments d)"
    using fk by (fastforce simp: list_ex_iff)
  have flt: "filter (\<lambda>b. blog_id b \<notin> set ?ks) (blogs d) = filter (\<lambda>b. blog_id b \<notin> set sel) (blogs d)"
    by (rule filter_cong) auto
  show ?thesis
    by (simp only: delete_selected_def delete_each_blogs [OF ks] ex flt)
qed

end
