(* ===== verification/AdminForms.thy ===== *)
theory AdminForms
  imports Admin
begin

text \<open>
  The add and change forms of the admin (\<open>src/blog/admin.py\<close>, the fields of \<open>Blog\<close> in
  \<open>src/blog/models.py\<close>). The admin builds a \<open>ModelForm\<close> over the four editable
  fields: \<open>title\<close> and \<open>content\<close> become \<open>CharField\<close>s with the model's
  \<open>max_length\<close>, \<open>author\<close> a \<open>ModelChoiceField\<close> over the authors, and
  \<open>post_date\<close> a \<open>DateField\<close>. None of the model fields has \<open>blank=True\<close>, so
  all four are required in the form although \<open>author\<close> and \<open>post_date\<close> are
  nullable columns. The \<open>DateField\<close> strips the value and tries Django's
  \<open>DATE_INPUT_FORMATS\<close> in order with Python's \<open>datetime.strptime\<close>; this
  theory models \<open>_strptime\<close> as it works: the format is compiled to a regular
  expression (\<open>TimeRE.pattern\<close>), matched case-insensitively at the start of the
  value, the first match in backtracking order is taken and rejected when it does not
  reach the end (\<open>unconverted data remains\<close>), the groups are converted to a year,
  a month and a day, and \<open>datetime.date\<close> checks the result. Backtracking is the
  list of successes: a pattern item yields all its matches in the order the regular
  expression engine tries them, and the head of the list is the engine's match.
  The change forms of \<open>BlogAdmin\<close> and of the \<open>Author\<close> admin clean the same
  fields and save the edited instance (\<open>Model.save()\<close>: an UPDATE of its row).
  The \<open>Comment\<close> admin's form cleans \<open>blog\<close>, \<open>content\<close>,
  \<open>post_date\<close> and \<open>author\<close>; its \<open>post_date\<close> is a
  \<open>SplitDateTimeField\<close> whose time part is parsed by the same \<open>_strptime\<close>
  model with \<open>TIME_INPUT_FORMATS\<close>.
\<close>

section \<open>The pattern of a format\<close>

text \<open>A character class of the compiled pattern: a range \<open>[lo-hi]\<close> (a single
  character is the range from it to itself, \<open>\d\<close> is \<open>[0-9]\<close> on this
  alphabet), or a lower-case letter matched ignoring case (\<open>re.IGNORECASE\<close>).\<close>

datatype char_class = CRange char char | CFold char

definition class_ok :: "char_class \<Rightarrow> char \<Rightarrow> bool" where
  "class_ok k c = (case k of
      CRange lo hi \<Rightarrow> (of_char lo :: nat) \<le> of_char c \<and> (of_char c :: nat) \<le> of_char hi
    | CFold x \<Rightarrow> ascii_lower c = x)"

text \<open>\<open>LocaleTime\<close> in the C locale: the month names, lower-cased; the
  abbreviations are their first three letters.\<close>

definition month_names :: "string list" where
  "month_names = [''january'', ''february'', ''march'', ''april'', ''may'', ''june'', ''july'',
     ''august'', ''september'', ''october'', ''november'', ''december'']"

text \<open>The groups of \<open>TimeRE\<close> by directive letter, each a list of alternatives in
  the order the engine tries them; the name groups are \<open>__seqToRE\<close>, longest first
  (a stable sort). A letter with no group has the empty list.\<close>

definition dir_regex :: "char \<Rightarrow> char_class list list" where
  "dir_regex c =
     (let digit = CRange CHR ''0'' CHR ''9'';
          seq_to_re = (\<lambda>ws. map (map CFold) (sort_key (\<lambda>w. - int (length w)) ws))
      in if c = CHR ''d'' then
           [[CRange CHR ''3'' CHR ''3'', CRange CHR ''0'' CHR ''1''], [CRange CHR ''1'' CHR ''2'', digit],
            [CRange CHR ''0'' CHR ''0'', CRange CHR ''1'' CHR ''9''], [CRange CHR ''1'' CHR ''9''],
            [CRange CHR '' '' CHR '' '', CRange CHR ''1'' CHR ''9'']]
         else if c = CHR ''m'' then
           [[CRange CHR ''1'' CHR ''1'', CRange CHR ''0'' CHR ''2''],
            [CRange CHR ''0'' CHR ''0'', CRange CHR ''1'' CHR ''9''], [CRange CHR ''1'' CHR ''9'']]
         else if c = CHR ''y'' then [[digit, digit]]
         else if c = CHR ''Y'' then [[digit, digit, digit, digit]]
         else if c = CHR ''b'' then seq_to_re (map (take 3) month_names)
         else if c = CHR ''B'' then seq_to_re month_names
         else if c = CHR ''H'' then
           [[CRange CHR ''2'' CHR ''2'', CRange CHR ''0'' CHR ''3''], [CRange CHR ''0'' CHR ''1'', digit], [digit]]
         else if c = CHR ''M'' then [[CRange CHR ''0'' CHR ''5'', digit], [digit]]
         else if c = CHR ''S'' then
           [[CRange CHR ''6'' CHR ''6'', CRange CHR ''0'' CHR ''1''], [CRange CHR ''0'' CHR ''5'', digit], [digit]]
         else if c = CHR ''f'' then map (\<lambda>k. replicate k digit) [6, 5, 4, 3, 2, 1]
         else [])"

text \<open>The matches of a group at the start of a string: the text each alternative
  takes and the rest.\<close>

definition match_dir :: "char \<Rightarrow> string \<Rightarrow> (string \<times> string) list" where
  "match_dir c s = [(take (length alt) s, drop (length alt) s).
     alt \<leftarrow> dir_regex c, length alt \<le> length s \<and> list_all2 class_ok alt (take (length alt) s)]"

datatype fmt_item = Lit char | Blank | Dir char

text \<open>\<open>TimeRE.pattern\<close>: a directive \<open>%c\<close> becomes its group, \<open>%%\<close> a
  literal \<open>%\<close>, a run of whitespace \<open>\s+\<close>; a bad directive is an error.\<close>

fun compile_format :: "string \<Rightarrow> fmt_item list option" where
  "compile_format [] = Some []"
| "compile_format (CHR ''%'' # c # fs) =
     (if dir_regex c \<noteq> [] then map_option (Cons (Dir c)) (compile_format fs)
      else if c = CHR ''%'' then map_option (Cons (Lit c)) (compile_format fs)
      else None)"
| "compile_format (c # fs) =
     (if c = CHR ''%'' then None
      else if py_isspace c then
        (case compile_format fs of
           Some (Blank # its) \<Rightarrow> Some (Blank # its)
         | r \<Rightarrow> map_option (Cons Blank) r)
      else map_option (Cons (Lit c)) (compile_format fs))"

text \<open>All matches of a compiled pattern at the start of a string, with the groups
  captured and the unconsumed rest, in the engine's order; \<open>\s+\<close> is greedy.\<close>

fun strp_match :: "fmt_item list \<Rightarrow> string \<Rightarrow> ((char \<times> string) list \<times> string) list" where
  "strp_match [] s = [([], s)]"
| "strp_match (Lit c # its) s =
     (case s of
        x # s' \<Rightarrow> if ascii_lower x = ascii_lower c then strp_match its s' else []
      | [] \<Rightarrow> [])"
| "strp_match (Blank # its) s =
     concat (map (\<lambda>k. strp_match its (drop k s)) (rev [1..<Suc (length (takeWhile py_isspace s))]))"
| "strp_match (Dir c # its) s =
     concat (map (\<lambda>(t, r). map (\<lambda>(cs, r'). ((c, t) # cs, r')) (strp_match its r)) (match_dir c s))"

section \<open>From the groups to a date and a time\<close>

text \<open>The fields \<open>_strptime\<close> fills, with their defaults (year 1900, month and
  day 1, the time 0).\<close>

record strp_fields =
  st_year :: int
  st_month :: nat
  st_day :: nat
  st_hour :: nat
  st_minute :: nat
  st_second :: nat
  st_fraction :: nat

text \<open>The loop of \<open>_strptime\<close> over the groups found: two-digit years pivot at
  68, a month name is looked up in the locale's list, \<open>int()\<close> reads the digits of
  the others (a day \<open>' 5'\<close> is stripped), a fraction is padded to six digits.\<close>

fun strp_set :: "strp_fields \<Rightarrow> char \<times> string \<Rightarrow> strp_fields" where
  "strp_set r (c, t) =
     (if c = CHR ''y'' then
        r\<lparr>st_year := (if digits_value t \<le> 68 then int (digits_value t) + 2000 else int (digits_value t) + 1900)\<rparr>
      else if c = CHR ''Y'' then r\<lparr>st_year := int (digits_value t)\<rparr>
      else if c = CHR ''m'' then r\<lparr>st_month := digits_value t\<rparr>
      else if c = CHR ''b'' then
        r\<lparr>st_month := Suc (length (takeWhile (\<lambda>w. w \<noteq> map ascii_lower t) (map (take 3) month_names)))\<rparr>
      else if c = CHR ''B'' then
        r\<lparr>st_month := Suc (length (takeWhile (\<lambda>w. w \<noteq> map ascii_lower t) month_names))\<rparr>
      else if c = CHR ''d'' then r\<lparr>st_day := digits_value (py_strip t)\<rparr>
      else if c = CHR ''H'' then r\<lparr>st_hour := digits_value t\<rparr>
      else if c = CHR ''M'' then r\<lparr>st_minute := digits_value t\<rparr>
      else if c = CHR ''S'' then r\<lparr>st_second := digits_value t\<rparr>
      else if c = CHR ''f'' then r\<lparr>st_fraction := digits_value (t @ replicate (6 - length t) CHR ''0'')\<rparr>
      else r)"

text \<open>\<open>datetime.date\<close>'s checks: \<open>MINYEAR\<close> to \<open>MAXYEAR\<close>, a month, and a
  day of that month in the proleptic Gregorian calendar.\<close>

definition valid_ymd :: "int \<Rightarrow> nat \<Rightarrow> nat \<Rightarrow> bool" where
  "valid_ymd y m dd =
     (1 \<le> y \<and> y \<le> 9999 \<and> 1 \<le> m \<and> m \<le> 12 \<and> 1 \<le> dd \<and>
      dd \<le> (if m = 2 then (if y mod 400 = 0 \<or> (y mod 4 = 0 \<and> y mod 100 \<noteq> 0) then 29 else 28)
            else if m \<in> {4, 6, 9, 11} then 30 else 31))"

text \<open>\<open>datetime.datetime.strptime(value, format)\<close>: the first match of the
  compiled format must consume the whole value, and the fields must make a
  \<open>datetime\<close> (hour, minute, second in range); a \<open>ValueError\<close> is \<open>None\<close>.\<close>

definition strptime :: "string \<Rightarrow> string \<Rightarrow> strp_fields option" where
  "strptime s fmt =
     (case compile_format fmt of
        None \<Rightarrow> None
      | Some its \<Rightarrow>
          (case strp_match its s of
             [] \<Rightarrow> None
           | (found, rest) # _ \<Rightarrow>
               (let r = foldl strp_set \<lparr>st_year = 1900, st_month = 1, st_day = 1, st_hour = 0,
                          st_minute = 0, st_second = 0, st_fraction = 0\<rparr> found
                in if rest = [] \<and> valid_ymd (st_year r) (st_month r) (st_day r)
                      \<and> st_hour r < 24 \<and> st_minute r < 60 \<and> st_second r < 60
                   then Some r else None)))"

text \<open>\<open>strptime(value, format).date()\<close> as a day number.\<close>

definition strptime_date :: "string \<Rightarrow> string \<Rightarrow> date option" where
  "strptime_date s fmt = map_option (\<lambda>r. days_from_civil (st_year r) (st_month r) (st_day r)) (strptime s fmt)"

section \<open>The \<open>DateField\<close>\<close>

text \<open>\<open>DATE_INPUT_FORMATS\<close> of Django's defaults and of the \<open>en\<close> locale.\<close>

definition date_input_formats :: "string list" where
  "date_input_formats = [''%Y-%m-%d'', ''%m/%d/%Y'', ''%m/%d/%y'', ''%b %d %Y'', ''%b %d, %Y'',
     ''%d %b %Y'', ''%d %b, %Y'', ''%B %d %Y'', ''%B %d, %Y'', ''%d %B %Y'', ''%d %B, %Y'']"

text \<open>\<open>BaseTemporalField.clean\<close> of a required field: \<open>to_python\<close> (an empty
  value is \<open>None\<close>, anything else is stripped and read by the first input format that
  accepts it, else the field's \<open>invalid\<close> error) and the required check.\<close>

definition temporal_clean ::
  "(string \<Rightarrow> string \<Rightarrow> 'a option) \<Rightarrow> string list \<Rightarrow> field_error \<Rightarrow> string option \<Rightarrow> field_error list + 'a" where
  "temporal_clean parse fmts invalid raw =
     (case raw of
        None \<Rightarrow> Inl [Required]
      | Some v \<Rightarrow>
          if v = [] then Inl [Required]
          else (case List.map_filter (parse (py_strip v)) fmts of
                  [] \<Rightarrow> Inl [invalid]
                | x # _ \<Rightarrow> Inr x))"

text \<open>\<open>DateField.clean\<close>.\<close>

definition datefield_clean :: "string option \<Rightarrow> field_error list + date" where
  "datefield_clean raw = temporal_clean strptime_date date_input_formats InvalidDate raw"

text \<open>\<open>TIME_INPUT_FORMATS\<close> of Django's defaults and of the \<open>en\<close> locale.\<close>

definition time_input_formats :: "string list" where
  "time_input_formats = [''%H:%M:%S'', ''%H:%M:%S.%f'', ''%H:%M'']"

text \<open>\<open>strptime(value, format).time()\<close> as microseconds from midnight.\<close>

definition strptime_time :: "string \<Rightarrow> string \<Rightarrow> int option" where
  "strptime_time s fmt =
     map_option (\<lambda>r. int (((st_hour r * 60 + st_minute r) * 60 + st_second r) * 1000000 + st_fraction r))
       (strptime s fmt)"

text \<open>\<open>SplitDateTimeField.clean\<close> of a required field, as the admin uses it for a
  \<open>DateTimeField\<close> (the widget posts \<open>_0\<close>, the date, and \<open>_1\<close>, the
  time): if either part is empty the field is required; otherwise the \<open>DateField\<close>
  and the \<open>TimeField\<close> are cleaned and their errors
  collected; \<open>compress\<close> combines the two in the current time zone, UTC, as
  microseconds from the epoch.\<close>

definition splitdatetime_clean :: "string option \<Rightarrow> string option \<Rightarrow> field_error list + timestamp" where
  "splitdatetime_clean rd rt =
     (if rd = None \<or> rd = Some [] \<or> rt = None \<or> rt = Some [] then Inl [Required]
      else (case (datefield_clean rd,
                  temporal_clean strptime_time time_input_formats InvalidTime rt) of
              (Inr dt, Inr tm) \<Rightarrow> Inr (dt * 86400000000 + tm)
            | (dr, tr) \<Rightarrow> Inl ((case dr of Inl es \<Rightarrow> es | Inr _ \<Rightarrow> []) @ (case tr of Inl es \<Rightarrow> es | Inr _ \<Rightarrow> []))))"

text \<open>\<open>'%0*d' % (k, n)\<close>, and \<open>date.isoformat()\<close>: how a date is written back
  into the form.\<close>

definition zero_pad :: "nat \<Rightarrow> nat \<Rightarrow> string" where
  "zero_pad k n = replicate (k - length (py_str_nat n)) CHR ''0'' @ py_str_nat n"

definition date_isoformat :: "int \<Rightarrow> nat \<Rightarrow> nat \<Rightarrow> string" where
  "date_isoformat y m dd = zero_pad 4 (nat y) @ CHR ''-'' # zero_pad 2 m @ CHR ''-'' # zero_pad 2 dd"

text \<open>\<open>time.strftime('%H:%M:%S')\<close>: how the admin's time widget writes a time back
  (\<open>TIME_INPUT_FORMATS[0]\<close>; the microseconds are not written).\<close>

definition time_isoformat :: "nat \<Rightarrow> nat \<Rightarrow> nat \<Rightarrow> string" where
  "time_isoformat h mi s = zero_pad 2 h @ CHR '':'' # zero_pad 2 mi @ CHR '':'' # zero_pad 2 s"

section \<open>The \<open>Blog\<close> form of \<open>BlogAdmin\<close>\<close>

text \<open>The \<open>ModelForm\<close> over \<open>title\<close>, \<open>author\<close>, \<open>content\<close>,
  \<open>post_date\<close>: each field cleaned in turn, the errors by field in field order. The
  model's own validation adds nothing (no unique field; the same length limits).\<close>

definition blog_form_clean :: "db \<Rightarrow> query_dict \<Rightarrow> form_errors + (string \<times> pk \<times> string \<times> date)" where
  "blog_form_clean d post =
     (let title_r = charfield_clean (Some 200) True (querydict_get post ''title'');
          author_r = model_choice_clean (author_ids d) (querydict_get post ''author'');
          content_r = charfield_clean (Some 5000) True (querydict_get post ''content'');
          date_r = datefield_clean (querydict_get post ''post_date'')
      in case (title_r, author_r, content_r, date_r) of
           (Inr t, Inr a, Inr ct, Inr dt) \<Rightarrow> Inr (t, a, ct, dt)
         | _ \<Rightarrow> Inl (field_errors ''title'' title_r @ field_errors ''author'' author_r
                    @ field_errors ''content'' content_r @ field_errors ''post_date'' date_r))"

text \<open>The add view on a POST: the errors, or the new post (\<open>save_model\<close>).\<close>

definition blog_admin_add :: "db \<Rightarrow> query_dict \<Rightarrow> form_errors + (py_error + (blog \<times> db))" where
  "blog_admin_add d post =
     (case blog_form_clean d post of
        Inl errs \<Rightarrow> Inl errs
      | Inr (t, a, ct, dt) \<Rightarrow> Inr (create_blog d t (Some a) ct (Some dt)))"

text \<open>\<open>Blog.save()\<close> on an instance with a key: an UPDATE of its row, or an INSERT
  under that key when there is none.\<close>

definition save_blog :: "db \<Rightarrow> blog \<Rightarrow> py_error + db" where
  "save_blog d b =
     (if \<not> fk_ok (author_ids d) (blog_author b) then Inl IntegrityError
      else if blog_id b \<in> set (blog_ids d)
      then Inr (d\<lparr>blogs := map (\<lambda>x. if blog_id x = blog_id b then b else x) (blogs d)\<rparr>)
      else Inr (d\<lparr>blogs := insort_key blog_id b (blogs d),
                  next_blog := max (next_blog d) (Suc (blog_id b))\<rparr>))"

text \<open>The comments inline of the change page (\<open>CommentInline\<close>, a
  \<open>TabularInline\<close> over \<open>Comment\<close> with \<open>extra = 0\<close>): one form per comment
  of the post, in the inline's order, its fields prefixed \<open>comment_set-<i>-\<close>. Each
  row is posted as the page renders it, with its \<open>DELETE\<close> box ticked or not
  (typing into an inline row is outside the model). A ticked row is not validated; an
  unticked one is cleaned like the \<open>Comment\<close> fields, all required:
  \<open>content\<close> as a \<open>CharField(max_length=200)\<close> of the rendered text, and
  \<open>post_date\<close> and \<open>author\<close>, for which a NULL renders as an empty, missing
  value (a stored date and time render to texts the split field reads back).\<close>

definition inline_row_errors :: "string \<Rightarrow> comment \<Rightarrow> form_errors" where
  "inline_row_errors pfx c =
     field_errors (pfx @ ''content'') (charfield_clean (Some 200) True (Some (comment_content c)))
     @ (if comment_post_date c = None then [(pfx @ ''post_date'', Required)] else [])
     @ (if comment_author c = None then [(pfx @ ''author'', Required)] else [])"

definition inline_formset_errors :: "db \<Rightarrow> pk \<Rightarrow> pk list \<Rightarrow> form_errors" where
  "inline_formset_errors d k ticked =
     concat (map (\<lambda>(i, c). if comment_id c \<in> set ticked then []
                           else inline_row_errors (''comment_set-'' @ py_str_nat i @ ''-'') c)
                 (enumerate 0 (fst (comment_inline d k))))"

text \<open>\<open>formset.save()\<close>: the ticked rows are deleted (\<open>inline_delete\<close>); a kept
  row whose cleaned content differs from the stored one (it had surrounding whitespace)
  has changed and is saved from its form: the stripped content, and the date and time
  as rendered, without microseconds. The other rows are not written.\<close>

definition inline_save :: "db \<Rightarrow> pk \<Rightarrow> pk list \<Rightarrow> py_error + db" where
  "inline_save d k ticked =
     (case inline_delete d k ticked of
        Inl e \<Rightarrow> Inl e
      | Inr d1 \<Rightarrow>
          Inr (d1\<lparr>comments := map (\<lambda>c.
                 if comment_blog c = Some k \<and> charfield_to_python (Some (comment_content c)) \<noteq> comment_content c
                 then c\<lparr>comment_content := charfield_to_python (Some (comment_content c)),
                        comment_post_date := map_option (\<lambda>t. t - t mod 1000000) (comment_post_date c)\<rparr>
                 else c) (comments d1)\<rparr>))"

text \<open>The change view on a POST for the post with key \<open>k\<close> and the inline rows
  ticked for deletion (\<open>ModelAdmin.changeform_view\<close>): a missing post is
  \<open>DoesNotExist\<close> (the admin redirects with a message); otherwise the post's form
  and the inline formset are validated together, and unless both are valid the page is
  rendered again with all their errors and nothing is written; if they are, the post is
  saved with the cleaned fields (\<open>save_model\<close>) and then the formset
  (\<open>save_related\<close>), in one transaction.\<close>

definition blog_admin_change :: "db \<Rightarrow> pk \<Rightarrow> query_dict \<Rightarrow> pk list \<Rightarrow> form_errors + (py_error + db)" where
  "blog_admin_change d k post ticked =
     (case get_blog d k of
        None \<Rightarrow> Inr (Inl DoesNotExist)
      | Some b \<Rightarrow>
          (case (blog_form_clean d post, inline_formset_errors d k ticked) of
             (Inr (t, a, ct, dt), []) \<Rightarrow>
               (case save_blog d (b\<lparr>title := t, blog_author := Some a, blog_content := ct,
                                   blog_post_date := Some dt\<rparr>) of
                  Inl e \<Rightarrow> Inr (Inl e)
                | Inr d1 \<Rightarrow> Inr (inline_save d1 k ticked))
           | (r, fe) \<Rightarrow> Inl ((case r of Inl errs \<Rightarrow> errs | Inr _ \<Rightarrow> []) @ fe)))"

section \<open>The change form of the \<open>Author\<close> admin\<close>

text \<open>\<open>Author.save()\<close> on an instance with a key, as \<open>save_blog\<close>.\<close>

definition save_author :: "db \<Rightarrow> author \<Rightarrow> py_error + db" where
  "save_author d a =
     (if \<not> fk_ok (user_ids d) (author_name a)
         \<or> (author_name a \<noteq> None \<and> author_name a \<in> set (map author_name
               (filter (\<lambda>x. author_id x \<noteq> author_id a) (authors d))))
      then Inl IntegrityError
      else if author_id a \<in> set (author_ids d)
      then Inr (d\<lparr>authors := map (\<lambda>x. if author_id x = author_id a then a else x) (authors d)\<rparr>)
      else Inr (d\<lparr>authors := insort_key author_id a (authors d),
                  next_author := max (next_author d) (Suc (author_id a))\<rparr>))"

text \<open>The change view of an author: the add form's fields, the uniqueness of
  \<open>name\<close> checked against the other authors (\<open>validate_unique\<close> excludes the
  instance).\<close>

definition author_admin_change :: "db \<Rightarrow> pk \<Rightarrow> query_dict \<Rightarrow> form_errors + (py_error + db)" where
  "author_admin_change d k post =
     (case get_author d k of
        None \<Rightarrow> Inr (Inl DoesNotExist)
      | Some a \<Rightarrow>
          (let name_r = model_choice_clean (user_ids d) (querydict_get post ''name'');
               bio_r = charfield_clean (Some 1000) True (querydict_get post ''biography'');
               unique_errs = (case name_r of
                   Inr u \<Rightarrow> if Some u \<in> set (map author_name (filter (\<lambda>x. author_id x \<noteq> k) (authors d)))
                            then [(''name'', UniqueError ''Author'' ''Name'')] else []
                 | Inl _ \<Rightarrow> []);
               errs = field_errors ''name'' name_r @ field_errors ''biography'' bio_r @ unique_errs
           in if errs \<noteq> [] then Inl errs
              else (case (name_r, bio_r) of
                      (Inr u, Inr bio) \<Rightarrow> Inr (save_author d (a\<lparr>author_name := Some u, biography := bio\<rparr>))
                    | _ \<Rightarrow> Inl errs)))"


section \<open>The form of the \<open>Comment\<close> admin\<close>

text \<open>The default \<open>ModelForm\<close> of \<open>@admin.register(Comment)\<close> over the fields
  of \<open>Comment\<close> in order: \<open>blog\<close> (a \<open>ModelChoiceField\<close> over the posts),
  \<open>content\<close> (\<open>max_length=200\<close>), \<open>post_date\<close> (the admin's split date and
  time) and \<open>author\<close> (a \<open>ModelChoiceField\<close> over the users); all required, as no
  field has \<open>blank=True\<close>.\<close>

definition comment_admin_form_clean ::
  "db \<Rightarrow> query_dict \<Rightarrow> form_errors + (pk \<times> string \<times> timestamp \<times> pk)" where
  "comment_admin_form_clean d post =
     (let blog_r = model_choice_clean (blog_ids d) (querydict_get post ''blog'');
          content_r = charfield_clean (Some 200) True (querydict_get post ''content'');
          date_r = splitdatetime_clean (querydict_get post ''post_date_0'') (querydict_get post ''post_date_1'');
          author_r = model_choice_clean (user_ids d) (querydict_get post ''author'')
      in case (blog_r, content_r, date_r, author_r) of
           (Inr b, Inr ct, Inr ts, Inr u) \<Rightarrow> Inr (b, ct, ts, u)
         | _ \<Rightarrow> Inl (field_errors ''blog'' blog_r @ field_errors ''content'' content_r
                    @ field_errors ''post_date'' date_r @ field_errors ''author'' author_r))"

text \<open>The add and change views of the \<open>Comment\<close> admin on a POST.\<close>

definition comment_admin_add :: "db \<Rightarrow> query_dict \<Rightarrow> form_errors + (py_error + (comment \<times> db))" where
  "comment_admin_add d post =
     (case comment_admin_form_clean d post of
        Inl errs \<Rightarrow> Inl errs
      | Inr (b, ct, ts, u) \<Rightarrow> Inr (create_comment d (Some b) ct (Some ts) (Some u)))"

definition comment_admin_change :: "db \<Rightarrow> pk \<Rightarrow> query_dict \<Rightarrow> form_errors + (py_error + db)" where
  "comment_admin_change d k post =
     (case get_comment d k of
        None \<Rightarrow> Inr (Inl DoesNotExist)
      | Some c \<Rightarrow>
          (case comment_admin_form_clean d post of
             Inl errs \<Rightarrow> Inl errs
           | Inr (b, ct, ts, u) \<Rightarrow>
               Inr (save_comment d (c\<lparr>comment_blog := Some b, comment_content := ct,
                                      comment_post_date := Some ts, comment_author := Some u\<rparr>))))"

section \<open>Lemmas on digits and the padded rendering\<close>

lemma of_char_digit_char [simp]: "a < 10 \<Longrightarrow> (of_char (digit_char a) :: nat) = 48 + a"
  by (simp add: digit_char_def)

lemma class_ok_digit [simp]:
  "a < 10 \<Longrightarrow> class_ok (CRange lo hi) (digit_char a) \<longleftrightarrow> (of_char lo :: nat) \<le> 48 + a \<and> 48 + a \<le> of_char hi"
  by (simp add: class_ok_def)

lemma class_ok_digit_class: "class_ok (CRange CHR ''0'' CHR ''9'') c \<longleftrightarrow> py_isdigit c"
  by (simp add: class_ok_def py_isdigit_def Let_def)

lemma ascii_lower_digit_char [simp]: "a < 10 \<Longrightarrow> ascii_lower (digit_char a) = digit_char a"
  by (simp add: ascii_lower_def)

lemma ascii_lower_dash [simp]: "ascii_lower CHR ''-'' = CHR ''-''"
  by (simp add: ascii_lower_def)

lemma dash_not_space [simp]: "\<not> py_isspace CHR ''-''"
  by (simp add: py_isspace_def)

lemma digit_char_not_dash [simp]: "a < 10 \<Longrightarrow> digit_char a \<noteq> CHR ''-''"
proof
  assume "a < 10" "digit_char a = CHR ''-''"
  then have "(of_char (digit_char a) :: nat) = of_char CHR ''-''" by simp
  with \<open>a < 10\<close> show False by simp
qed

lemma ascii_lower_colon [simp]: "ascii_lower CHR '':'' = CHR '':''"
  by (simp add: ascii_lower_def)

lemma digit_char_not_colon [simp]: "a < 10 \<Longrightarrow> digit_char a \<noteq> CHR '':''"
proof
  assume "a < 10" "digit_char a = CHR '':''"
  then have "(of_char (digit_char a) :: nat) = of_char CHR '':''" by simp
  with \<open>a < 10\<close> show False by simp
qed

lemma colon_not_space [simp]: "\<not> py_isspace CHR '':''"
  by (simp add: py_isspace_def)

lemma length_py_str_nat: "0 < k \<Longrightarrow> n < 10 ^ k \<Longrightarrow> length (py_str_nat n) \<le> k"
proof (induction n arbitrary: k rule: py_str_nat.induct)
  case (1 n)
  show ?case
  proof (cases "n < 10")
    case True then show ?thesis using "1.prems" by (simp add: py_str_nat.simps [of n])
  next
    case False
    then obtain k' where k: "k = Suc k'" "0 < k'"
      using "1.prems" by (cases k; cases "k - 1") (auto simp: not_less)
    with "1.prems" have "n div 10 < 10 ^ k'" by (simp add: less_mult_imp_div_less mult.commute)
    with "1.IH" [OF False k(2)] k show ?thesis by (simp add: py_str_nat.simps [of n])
  qed
qed

lemma zero_pad_length: "0 < k \<Longrightarrow> n < 10 ^ k \<Longrightarrow> length (zero_pad k n) = k"
  using length_py_str_nat [of k n] by (simp add: zero_pad_def)

lemma zero_pad_digits: "c \<in> set (zero_pad k n) \<Longrightarrow> py_isdigit c"
  using py_str_nat_digits [of n] by (auto simp: zero_pad_def py_isdigit_def)

lemma digits_value_zeros: "digits_value (replicate j CHR ''0'' @ s) = digits_value s"
proof -
  have "foldl (\<lambda>acc c. 10 * acc + digit_val c) 0 (replicate j CHR ''0'') = 0"
    by (induction j) (simp_all add: digit_val_def)
  then show ?thesis by (simp add: digits_value_def)
qed

lemma digits_value_zero_pad [simp]: "digits_value (zero_pad k n) = n"
  by (simp add: zero_pad_def digits_value_zeros)

lemma zero_pad_two: "m < 100 \<Longrightarrow> zero_pad 2 m = [digit_char (m div 10), digit_char (m mod 10)]"
proof (cases "m < 10")
  case True then show ?thesis
    by (simp add: zero_pad_def py_str_nat.simps [of m] numeral_2_eq_2) (simp add: digit_char_def char_of_eq_iff_sym)
next
  case False
  moreover assume "m < 100"
  ultimately show ?thesis
    by (simp add: zero_pad_def py_str_nat.simps [of m] py_str_nat.simps [of "m div 10"] numeral_2_eq_2)
qed

section \<open>Lemmas on the matcher\<close>

lemma strp_match_year:
  assumes "length w = 4" "\<forall>c \<in> set w. py_isdigit c"
  shows "strp_match (Dir CHR ''Y'' # its) (w @ r) = map (\<lambda>(cs, r'). ((CHR ''Y'', w) # cs, r')) (strp_match its r)"
proof -
  from assms(1) obtain a b c e where w: "w = [a, b, c, e]"
    by (auto simp: length_Suc_conv numeral_eq_Suc)
  from assms(2) show ?thesis
    by (simp add: w match_dir_def dir_regex_def Let_def class_ok_digit_class)
qed

lemma strp_match_month:
  assumes "1 \<le> m" "m \<le> 12"
  shows "strp_match (Dir CHR ''m'' # Lit CHR ''-'' # its) (zero_pad 2 m @ CHR ''-'' # r)
       = map (\<lambda>(cs, r'). ((CHR ''m'', zero_pad 2 m) # cs, r')) (strp_match its r)"
proof -
  have m: "zero_pad 2 m = [digit_char (m div 10), digit_char (m mod 10)]" "m mod 10 < 10"
    using assms by (simp_all add: zero_pad_two)
  have "m div 10 = 0 \<and> 1 \<le> m mod 10 \<or> m div 10 = 1 \<and> m mod 10 \<le> 2"
    using assms by presburger
  with m show ?thesis
    by (elim disjE conjE) (simp_all add: match_dir_def dir_regex_def Let_def)
qed

lemma match_dir_day:
  assumes "1 \<le> dd" "dd \<le> 31"
  shows "\<exists>tl. match_dir CHR ''d'' (zero_pad 2 dd) = (zero_pad 2 dd, []) # tl"
proof -
  have "dd div 10 = 0 \<and> 1 \<le> dd mod 10 \<or> dd div 10 = 1 \<or> dd div 10 = 2 \<or> dd div 10 = 3 \<and> dd mod 10 \<le> 1"
    using assms by presburger
  moreover have d: "zero_pad 2 dd = [digit_char (dd div 10), digit_char (dd mod 10)]" "dd mod 10 < 10"
    using assms by (simp_all add: zero_pad_two)
  ultimately show ?thesis
    by (elim disjE conjE) (simp_all add: match_dir_def dir_regex_def Let_def)
qed

lemma strp_match_hour:
  assumes "h < 24"
  shows "strp_match (Dir CHR ''H'' # Lit CHR '':'' # its) (zero_pad 2 h @ CHR '':'' # r)
       = map (\<lambda>(cs, r'). ((CHR ''H'', zero_pad 2 h) # cs, r')) (strp_match its r)"
proof -
  have h: "zero_pad 2 h = [digit_char (h div 10), digit_char (h mod 10)]" "h mod 10 < 10"
    using assms by (simp_all add: zero_pad_two)
  have "h div 10 = 0 \<or> h div 10 = 1 \<or> h div 10 = 2 \<and> h mod 10 \<le> 3"
    using assms by presburger
  with h show ?thesis
    by (elim disjE conjE) (simp_all add: match_dir_def dir_regex_def Let_def)
qed

lemma strp_match_minute:
  assumes "mi < 60"
  shows "strp_match (Dir CHR ''M'' # Lit CHR '':'' # its) (zero_pad 2 mi @ CHR '':'' # r)
       = map (\<lambda>(cs, r'). ((CHR ''M'', zero_pad 2 mi) # cs, r')) (strp_match its r)"
proof -
  have h: "zero_pad 2 mi = [digit_char (mi div 10), digit_char (mi mod 10)]" "mi mod 10 < 10" "mi div 10 \<le> 5"
    using assms by (simp_all add: zero_pad_two)
  then show ?thesis
    by (simp add: match_dir_def dir_regex_def Let_def)
qed

lemma match_dir_second:
  assumes "s < 60"
  shows "\<exists>tl. match_dir CHR ''S'' (zero_pad 2 s) = (zero_pad 2 s, []) # tl"
proof -
  have h: "zero_pad 2 s = [digit_char (s div 10), digit_char (s mod 10)]" "s mod 10 < 10" "s div 10 \<le> 5"
    using assms by (simp_all add: zero_pad_two)
  then show ?thesis
    by (simp add: match_dir_def dir_regex_def Let_def)
qed

lemma compile_iso_format:
  "compile_format ''%Y-%m-%d'' = Some [Dir CHR ''Y'', Lit CHR ''-'', Dir CHR ''m'', Lit CHR ''-'', Dir CHR ''d'']"
  by (simp add: dir_regex_def Let_def py_isspace_def)

lemma strptime_isoformat:
  assumes "valid_ymd y m dd"
  shows "strptime_date (date_isoformat y m dd) ''%Y-%m-%d'' = Some (days_from_civil y m dd)"
proof -
  have y: "nat y < 10 ^ 4" and m: "1 \<le> m" "m \<le> 12" and d: "1 \<le> dd" "dd \<le> 31"
    using assms by (auto simp: valid_ymd_def split: if_splits)
  obtain tl where tl: "match_dir CHR ''d'' (zero_pad 2 dd) = (zero_pad 2 dd, []) # tl"
    using match_dir_day [OF d] by blast
  have w: "length (zero_pad 4 (nat y)) = 4" "\<forall>c \<in> set (zero_pad 4 (nat y)). py_isdigit c"
    using zero_pad_length [OF _ y] zero_pad_digits by auto
  have strip: "py_strip (zero_pad 2 dd) = zero_pad 2 dd"
    using zero_pad_digits digit_not_space by (blast intro: py_strip_no_space)
  have "strp_match [Dir CHR ''Y'', Lit CHR ''-'', Dir CHR ''m'', Lit CHR ''-'', Dir CHR ''d''] (date_isoformat y m dd)
      = ([(CHR ''Y'', zero_pad 4 (nat y)), (CHR ''m'', zero_pad 2 m), (CHR ''d'', zero_pad 2 dd)], [])
        # map (\<lambda>(t, r). ([(CHR ''Y'', zero_pad 4 (nat y)), (CHR ''m'', zero_pad 2 m), (CHR ''d'', t)], r)) tl"
    unfolding date_isoformat_def
    by (simp only: strp_match_year [OF w] strp_match.simps(2) list.case ascii_lower_dash if_True
        strp_match_month [OF m]) (simp add: tl split_def)
  moreover have "int (nat y) = y"
    using assms by (simp add: valid_ymd_def)
  ultimately show ?thesis
    using assms unfolding strptime_date_def strptime_def compile_iso_format
    by (simp add: strip Let_def)
qed

lemma compile_time_format:
  "compile_format ''%H:%M:%S'' = Some [Dir CHR ''H'', Lit CHR '':'', Dir CHR ''M'', Lit CHR '':'', Dir CHR ''S'']"
  by (simp add: dir_regex_def Let_def py_isspace_def)

lemma strptime_time_isoformat:
  assumes "h < 24" "mi < 60" "s < 60"
  shows "strptime_time (time_isoformat h mi s) ''%H:%M:%S'' = Some (int (((h * 60 + mi) * 60 + s) * 1000000))"
proof -
  obtain tl where tl: "match_dir CHR ''S'' (zero_pad 2 s) = (zero_pad 2 s, []) # tl"
    using match_dir_second [OF assms(3)] by blast
  have "strp_match [Dir CHR ''H'', Lit CHR '':'', Dir CHR ''M'', Lit CHR '':'', Dir CHR ''S''] (time_isoformat h mi s)
      = ([(CHR ''H'', zero_pad 2 h), (CHR ''M'', zero_pad 2 mi), (CHR ''S'', zero_pad 2 s)], [])
        # map (\<lambda>(t, r). ([(CHR ''H'', zero_pad 2 h), (CHR ''M'', zero_pad 2 mi), (CHR ''S'', t)], r)) tl"
    unfolding time_isoformat_def
    by (simp only: strp_match_hour [OF assms(1)] strp_match_minute [OF assms(2)]) (simp add: tl split_def)
  then show ?thesis
    using assms unfolding strptime_time_def strptime_def compile_time_format
    by (simp add: Let_def valid_ymd_def)
qed

lemma time_isoformat_no_space: "c \<in> set (time_isoformat h mi s) \<Longrightarrow> \<not> py_isspace c"
  by (auto simp: time_isoformat_def dest: zero_pad_digits digit_not_space)

lemma isoformat_no_space: "c \<in> set (date_isoformat y m dd) \<Longrightarrow> \<not> py_isspace c"
  by (auto simp: date_isoformat_def dest: zero_pad_digits digit_not_space)

section \<open>Lemmas on saving and on the admin forms\<close>

lemma fk_ok_mono: "fk_ok ks r \<Longrightarrow> set ks \<subseteq> set ks' \<Longrightarrow> fk_ok ks' r"
  by (auto simp: fk_ok_def split: option.splits)

lemma save_blog_wf: "db_wf d \<Longrightarrow> save_blog d b = Inr d' \<Longrightarrow> db_wf d'"
proof -
  assume wf: "db_wf d" and sv: "save_blog d b = Inr d'"
  then have fk: "fk_ok (author_ids d) (blog_author b)"
    by (auto simp: save_blog_def split: if_splits)
  have same: "users d' = users d" "authors d' = authors d" "comments d' = comments d"
    "next_user d' = next_user d" "next_author d' = next_author d" "next_comment d' = next_comment d"
    using sv by (auto simp: save_blog_def split: if_splits)
  have bs: "set (blogs d') \<subseteq> insert b (set (blogs d))"
    using sv by (auto simp: save_blog_def set_insort_key split: if_splits)
  have keys: "keys_ok (blog_ids d') (next_blog d') \<and> set (blog_ids d) \<subseteq> set (blog_ids d')"
  proof (cases "blog_id b \<in> set (blog_ids d)")
    case True
    then have "blog_ids d' = blog_ids d" and "next_blog d' = next_blog d"
      using sv fk by (auto simp: save_blog_def map_keep_key)
    with wf show ?thesis by (simp add: db_wf_def)
  next
    case False
    then have "blogs d' = insort_key blog_id b (blogs d)"
      and "next_blog d' = max (next_blog d) (Suc (blog_id b))"
      using sv fk by (auto simp: save_blog_def)
    with wf False show ?thesis by (auto simp: db_wf_def keys_ok_insort_key set_insort_key)
  qed
  have ids: "set (blog_ids d) \<subseteq> set (blog_ids d')"
    using keys by blast
  from wf fk bs have "list_all (\<lambda>x. fk_ok (author_ids d') (blog_author x)) (blogs d')"
    by (auto simp: db_wf_def list_all_iff same)
  moreover from wf have "list_all (\<lambda>c. fk_ok (blog_ids d') (comment_blog c)
      \<and> fk_ok (user_ids d') (comment_author c)) (comments d')"
    unfolding db_wf_def list_all_iff same by (blast intro: fk_ok_mono [OF _ ids])
  ultimately show ?thesis using wf keys
    by (simp add: db_wf_def same)
qed

lemma save_author_wf: "db_wf d \<Longrightarrow> save_author d a = Inr d' \<Longrightarrow> db_wf d'"
proof -
  assume wf: "db_wf d" and sv: "save_author d a = Inr d'"
  then have fk: "fk_ok (user_ids d) (author_name a)"
    and uniq: "author_name a = None \<or> author_name a \<notin> set (map author_name
        (filter (\<lambda>x. author_id x \<noteq> author_id a) (authors d)))"
    by (auto simp: save_author_def split: if_splits)
  have same: "users d' = users d" "blogs d' = blogs d" "comments d' = comments d"
    "next_user d' = next_user d" "next_blog d' = next_blog d" "next_comment d' = next_comment d"
    using sv by (auto simp: save_author_def split: if_splits)
  have as: "set (authors d') \<subseteq> insert a (set (authors d))"
    using sv by (auto simp: save_author_def set_insort_key split: if_splits)
  have dist: "distinct (author_ids d)"
    using wf by (simp add: db_wf_def keys_ok_def strict_sorted_iff)
  have keys: "keys_ok (author_ids d') (next_author d') \<and> set (author_ids d) \<subseteq> set (author_ids d')
      \<and> distinct (List.map_filter author_name (authors d'))"
  proof (cases "author_id a \<in> set (author_ids d)")
    case True
    then have A: "authors d' = map (\<lambda>x. if author_id x = author_id a then a else x) (authors d)"
      and "next_author d' = next_author d"
      using sv fk uniq by (auto simp: save_author_def)
    have "author_ids d' = author_ids d"
      unfolding A by (rule map_keep_key) simp
    moreover have "distinct (List.map_filter author_name (authors d'))"
      unfolding A using dist wf by (intro distinct_map_filter_update [OF _ _ uniq]) (simp_all add: db_wf_def)
    ultimately show ?thesis
      using wf \<open>next_author d' = next_author d\<close> by (simp add: db_wf_def)
  next
    case False
    then have "authors d' = insort_key author_id a (authors d)"
      and "next_author d' = max (next_author d) (Suc (author_id a))"
      using sv fk uniq by (auto simp: save_author_def)
    moreover have "filter (\<lambda>x. author_id x \<noteq> author_id a) (authors d) = authors d"
      using False by (simp add: filter_id_conv) (metis image_eqI)
    ultimately show ?thesis
      using wf False uniq by (auto simp: db_wf_def keys_ok_insort_key set_insort_key distinct_map_filter_insort)
  qed
  have ids: "set (author_ids d) \<subseteq> set (author_ids d')"
    using keys by blast
  from wf fk as have "list_all (\<lambda>x. fk_ok (user_ids d') (author_name x)) (authors d')"
    by (auto simp: db_wf_def list_all_iff same)
  moreover from wf have "list_all (\<lambda>b. fk_ok (author_ids d') (blog_author b)) (blogs d')"
    unfolding db_wf_def list_all_iff same by (blast intro: fk_ok_mono [OF _ ids])
  ultimately show ?thesis using wf keys
    by (simp add: db_wf_def same)
qed

lemma strptime_Some:
  "strptime s fmt = Some r \<Longrightarrow>
   valid_ymd (st_year r) (st_month r) (st_day r) \<and> st_hour r < 24 \<and> st_minute r < 60 \<and> st_second r < 60"
  by (auto simp: strptime_def Let_def split: option.splits list.splits if_splits prod.splits)

lemma strptime_date_Some:
  "strptime_date s fmt = Some dt \<Longrightarrow> \<exists>y m dd. valid_ymd y m dd \<and> dt = days_from_civil y m dd"
  by (auto simp: strptime_date_def dest: strptime_Some)

lemma datefield_clean_Inr:
  assumes "datefield_clean raw = Inr dt"
  shows "\<exists>y m dd. valid_ymd y m dd \<and> dt = days_from_civil y m dd"
proof -
  from assms obtain v rest where "List.map_filter (strptime_date (py_strip v)) date_input_formats = dt # rest"
    by (auto simp: datefield_clean_def temporal_clean_def split: option.splits if_splits list.splits)
  then have "dt \<in> set (List.map_filter (strptime_date (py_strip v)) date_input_formats)"
    by simp
  then obtain f where "strptime_date (py_strip v) f = Some dt"
    by (auto simp: in_map_filter_iff)
  then show ?thesis by (rule strptime_date_Some)
qed

lemma model_choice_clean_Inr: "model_choice_clean ks raw = Inr k \<Longrightarrow> k \<in> set ks"
  by (auto simp: model_choice_clean_def split: option.splits if_splits)

lemma blog_form_clean_Inr:
  assumes "blog_form_clean d post = Inr (t, a, ct, dt)"
  shows "t \<noteq> [] \<and> length t \<le> 200 \<and> a \<in> set (author_ids d) \<and> ct \<noteq> [] \<and> length ct \<le> 5000
     \<and> (\<exists>y m dd. valid_ymd y m dd \<and> dt = days_from_civil y m dd)"
  using assms
  by (auto simp: blog_form_clean_def Let_def charfield_clean_required_Inr
      dest: model_choice_clean_Inr datefield_clean_Inr split: sum.splits)

lemma blog_admin_add_requires_post_date:
  assumes "querydict_get post ''post_date'' = None"
  shows "\<exists>errs. blog_admin_add d post = Inl errs \<and> (''post_date'', Required) \<in> set errs"
proof -
  have "datefield_clean (querydict_get post ''post_date'') = Inl [Required]"
    using assms by (simp add: datefield_clean_def temporal_clean_def)
  then show ?thesis
    by (auto simp: blog_admin_add_def blog_form_clean_def field_errors_def Let_def split: sum.splits)
qed

lemma author_admin_add_Inr:
  assumes "author_admin_add d post = Inr (Inr (a, d'))"
  shows "authors d' = authors d @ [a] \<and> blogs d' = blogs d \<and> comments d' = comments d
    \<and> users d' = users d \<and> biography a \<noteq> [] \<and> length (biography a) \<le> 1000"
  using assms
  by (auto simp: author_admin_add_def create_author_def Let_def charfield_clean_required_Inr
      split: if_splits sum.splits prod.splits)

lemma blog_admin_add_Inr:
  assumes "blog_admin_add d post = Inr (Inr (b, d'))"
  shows "blogs d' = blogs d @ [b] \<and> authors d' = authors d \<and> comments d' = comments d
    \<and> users d' = users d \<and> title b \<noteq> [] \<and> length (title b) \<le> 200
    \<and> blog_content b \<noteq> [] \<and> length (blog_content b) \<le> 5000"
proof -
  from assms obtain t a ct dt where cl: "blog_form_clean d post = Inr (t, a, ct, dt)"
    and cr: "create_blog d t (Some a) ct (Some dt) = Inr (b, d')"
    by (auto simp: blog_admin_add_def split: sum.splits)
  with blog_form_clean_Inr [OF cl] show ?thesis
    by (auto simp: create_blog_def Let_def split: if_splits)
qed

lemma charfield_clean_Inl_nonempty: "charfield_clean m req raw = Inl es \<Longrightarrow> es \<noteq> []"
  by (auto simp: charfield_clean_def Let_def split: if_splits)

lemma inline_formset_errors_Nil:
  assumes fe: "inline_formset_errors d k ticked = []"
    and c: "c \<in> set (comments d)" "comment_blog c = Some k" "comment_id c \<notin> set ticked"
  shows "charfield_clean (Some 200) True (Some (comment_content c))
           = Inr (charfield_to_python (Some (comment_content c)))
    \<and> comment_post_date c \<noteq> None \<and> comment_author c \<noteq> None"
proof -
  have "c \<in> set (fst (comment_inline d k))"
    using c by (simp add: set_comment_inline)
  then obtain i where i: "i < length (fst (comment_inline d k))" "fst (comment_inline d k) ! i = c"
    by (auto simp: in_set_conv_nth)
  then have "(i, c) \<in> set (enumerate 0 (fst (comment_inline d k)))"
    using nth_enumerate_eq [of i "fst (comment_inline d k)" 0] by (metis add_0 length_enumerate nth_mem)
  with fe c(3) have row: "inline_row_errors (''comment_set-'' @ py_str_nat i @ ''-'') c = []"
    by (fastforce simp: inline_formset_errors_def)
  then obtain v where "charfield_clean (Some 200) True (Some (comment_content c)) = Inr v"
    by (cases "charfield_clean (Some 200) True (Some (comment_content c))")
       (auto simp: inline_row_errors_def field_errors_def dest: charfield_clean_Inl_nonempty)
  with row show ?thesis
    by (auto simp: inline_row_errors_def charfield_clean_required_Inr split: if_splits)
qed

lemma db_wf_comments_map:
  assumes "db_wf d" "\<And>c. comment_id (f c) = comment_id c" "\<And>c. comment_blog (f c) = comment_blog c"
    "\<And>c. comment_author (f c) = comment_author c"
  shows "db_wf (d\<lparr>comments := map f (comments d)\<rparr>)"
  using assms by (simp add: db_wf_def comp_def list_all_iff)

lemma inline_save_Inr:
  assumes wf: "db_wf d" and sv: "inline_save d k ticked = Inr d'"
  shows "db_wf d' \<and> blogs d' = blogs d \<and> authors d' = authors d \<and> users d' = users d
    \<and> map comment_id (comments d')
        = map comment_id (filter (\<lambda>c. \<not> (comment_blog c = Some k \<and> comment_id c \<in> set ticked)) (comments d))
    \<and> (\<forall>c' \<in> set (comments d'). c' \<in> set (comments d)
         \<or> (\<exists>c \<in> set (comments d). comment_blog c = Some k \<and> comment_id c \<notin> set ticked
              \<and> comment_content c' = charfield_to_python (Some (comment_content c))))"
proof -
  let ?d1 = "d\<lparr>comments := filter (\<lambda>c. \<not> (comment_blog c = Some k \<and> comment_id c \<in> set ticked)) (comments d)\<rparr>"
  have del: "inline_delete d k ticked = Inr ?d1" by (rule inline_delete_eq [OF wf])
  have wf1: "db_wf ?d1"
    using del wf by (auto simp: inline_delete_def dest: delete_each_comments_wf)
  from sv del obtain f where d': "d' = ?d1\<lparr>comments := map f (comments ?d1)\<rparr>"
    and f: "\<And>c. f c = (if comment_blog c = Some k \<and> charfield_to_python (Some (comment_content c)) \<noteq> comment_content c
                 then c\<lparr>comment_content := charfield_to_python (Some (comment_content c)),
                        comment_post_date := map_option (\<lambda>t. t - t mod 1000000) (comment_post_date c)\<rparr>
                 else c)"
    by (auto simp: inline_save_def)
  have "db_wf d'" unfolding d' by (rule db_wf_comments_map [OF wf1]) (simp_all add: f)
  moreover have "map comment_id (comments d')
      = map comment_id (filter (\<lambda>c. \<not> (comment_blog c = Some k \<and> comment_id c \<in> set ticked)) (comments d))"
    by (simp add: d' f comp_def)
  moreover have "\<forall>c' \<in> set (comments d'). c' \<in> set (comments d)
         \<or> (\<exists>c \<in> set (comments d). comment_blog c = Some k \<and> comment_id c \<notin> set ticked
              \<and> comment_content c' = charfield_to_python (Some (comment_content c)))"
    by (auto simp: d' f)
  ultimately show ?thesis by (simp add: d')
qed

lemma blog_admin_change_InrE:
  assumes "blog_admin_change d k post ticked = Inr (Inr d')"
  obtains b0 t a ct dt d1 where "get_blog d k = Some b0" "blog_form_clean d post = Inr (t, a, ct, dt)"
    "inline_formset_errors d k ticked = []"
    "save_blog d (b0\<lparr>title := t, blog_author := Some a, blog_content := ct,
                     blog_post_date := Some dt\<rparr>) = Inr d1"
    "inline_save d1 k ticked = Inr d'"
proof -
  obtain b0 where b0: "get_blog d k = Some b0"
    using assms by (cases "get_blog d k") (simp_all add: blog_admin_change_def)
  obtain t a ct dt where cl: "blog_form_clean d post = Inr (t, a, ct, dt)"
    and fe: "inline_formset_errors d k ticked = []"
    using assms b0 by (cases "blog_form_clean d post"; cases "inline_formset_errors d k ticked")
      (auto simp: blog_admin_change_def)
  let ?b = "b0\<lparr>title := t, blog_author := Some a, blog_content := ct, blog_post_date := Some dt\<rparr>"
  obtain d1 where "save_blog d ?b = Inr d1" "inline_save d1 k ticked = Inr d'"
    using assms b0 cl fe by (cases "save_blog d ?b") (auto simp: blog_admin_change_def)
  with b0 cl fe that show ?thesis by blast
qed

lemma blog_admin_change_Inr:
  assumes wf: "db_wf d" and ch: "blog_admin_change d k post ticked = Inr (Inr d')"
  shows "db_wf d' \<and> authors d' = authors d \<and> users d' = users d
    \<and> (\<exists>b. set (blogs d') \<subseteq> insert b (set (blogs d)) \<and> title b \<noteq> [] \<and> length (title b) \<le> 200
           \<and> blog_content b \<noteq> [] \<and> length (blog_content b) \<le> 5000)
    \<and> (\<forall>c' \<in> set (comments d'). c' \<in> set (comments d)
         \<or> (comment_content c' \<noteq> [] \<and> length (comment_content c') \<le> 200))"
proof -
  obtain b0 t a ct dt d1 where cl: "blog_form_clean d post = Inr (t, a, ct, dt)"
    and fe: "inline_formset_errors d k ticked = []"
    and sv: "save_blog d (b0\<lparr>title := t, blog_author := Some a, blog_content := ct,
                              blog_post_date := Some dt\<rparr>) = Inr d1"
    and isv: "inline_save d1 k ticked = Inr d'"
    using ch by (rule blog_admin_change_InrE)
  let ?b = "b0\<lparr>title := t, blog_author := Some a, blog_content := ct, blog_post_date := Some dt\<rparr>"
  have b1: "set (blogs d1) \<subseteq> insert ?b (set (blogs d))"
    using sv by (auto simp: save_blog_def set_insort_key split: if_splits)
  have t1: "authors d1 = authors d" "comments d1 = comments d" "users d1 = users d"
    using sv by (auto simp: save_blog_def split: if_splits)
  note is' = inline_save_Inr [OF save_blog_wf [OF wf sv] isv]
  have ok: "comment_content c' \<noteq> [] \<and> length (comment_content c') \<le> 200"
    if "c \<in> set (comments d)" "comment_blog c = Some k" "comment_id c \<notin> set ticked"
       "comment_content c' = charfield_to_python (Some (comment_content c))" for c c'
    using inline_formset_errors_Nil [OF fe that(1-3)] that(4) by (simp add: charfield_clean_required_Inr)
  have cs: "\<forall>c' \<in> set (comments d'). c' \<in> set (comments d)
         \<or> (comment_content c' \<noteq> [] \<and> length (comment_content c') \<le> 200)"
    using is' ok unfolding t1 by blast
  have bs: "set (blogs d') \<subseteq> insert ?b (set (blogs d))" using is' b1 by simp
  have tb: "title ?b \<noteq> [] \<and> length (title ?b) \<le> 200 \<and> blog_content ?b \<noteq> [] \<and> length (blog_content ?b) \<le> 5000"
    using blog_form_clean_Inr [OF cl] by simp
  show ?thesis
  proof (intro conjI exI [of _ ?b])
  qed (use is' t1 cs bs tb in simp_all)
qed

lemma author_admin_change_Inr:
  assumes wf: "db_wf d" and ch: "author_admin_change d k post = Inr (Inr d')"
  shows "db_wf d' \<and> blogs d' = blogs d \<and> comments d' = comments d \<and> users d' = users d
    \<and> (\<exists>a. set (authors d') \<subseteq> insert a (set (authors d)) \<and> biography a \<noteq> []
           \<and> length (biography a) \<le> 1000)"
proof -
  from ch obtain a0 u bio where bio: "charfield_clean (Some 1000) True (querydict_get post ''biography'') = Inr bio"
    and sv: "save_author d (a0\<lparr>author_name := Some u, biography := bio\<rparr>) = Inr d'" (is "save_author d ?a = _")
    by (auto simp: author_admin_change_def Let_def split: option.splits sum.splits if_splits prod.splits)
  have "set (authors d') \<subseteq> insert ?a (set (authors d))"
    using sv by (auto simp: save_author_def set_insort_key split: if_splits)
  moreover have "blogs d' = blogs d \<and> comments d' = comments d \<and> users d' = users d"
    using sv by (auto simp: save_author_def split: if_splits)
  ultimately show ?thesis
    using bio save_author_wf [OF wf sv] by (auto simp: charfield_clean_required_Inr)
qed

lemma comment_admin_form_clean_Inr:
  assumes "comment_admin_form_clean d post = Inr (b, ct, ts, u)"
  shows "b \<in> set (blog_ids d) \<and> ct \<noteq> [] \<and> length ct \<le> 200 \<and> u \<in> set (user_ids d)"
  using assms
  by (auto simp: comment_admin_form_clean_def Let_def charfield_clean_required_Inr
      dest: model_choice_clean_Inr split: sum.splits)

lemma comment_admin_add_Inr:
  assumes "comment_admin_add d post = Inr (Inr (c, d'))"
  shows "comments d' = comments d @ [c] \<and> blogs d' = blogs d \<and> authors d' = authors d
    \<and> users d' = users d \<and> comment_content c \<noteq> [] \<and> length (comment_content c) \<le> 200"
proof -
  from assms obtain b ct ts u where cl: "comment_admin_form_clean d post = Inr (b, ct, ts, u)"
    and cr: "create_comment d (Some b) ct (Some ts) (Some u) = Inr (c, d')"
    by (auto simp: comment_admin_add_def split: sum.splits)
  with comment_admin_form_clean_Inr [OF cl] show ?thesis
    by (auto simp: create_comment_def Let_def split: if_splits)
qed

lemma comment_admin_change_Inr:
  assumes wf: "db_wf d" and ch: "comment_admin_change d k post = Inr (Inr d')"
  shows "db_wf d' \<and> blogs d' = blogs d \<and> authors d' = authors d \<and> users d' = users d
    \<and> (\<exists>c. set (comments d') \<subseteq> insert c (set (comments d)) \<and> comment_content c \<noteq> []
           \<and> length (comment_content c) \<le> 200)"
proof -
  from ch obtain c0 b ct ts u where cl: "comment_admin_form_clean d post = Inr (b, ct, ts, u)"
    and sv: "save_comment d (c0\<lparr>comment_blog := Some b, comment_content := ct,
               comment_post_date := Some ts, comment_author := Some u\<rparr>) = Inr d'" (is "save_comment d ?c = _")
    by (auto simp: comment_admin_change_def split: option.splits sum.splits)
  have "blogs d' = blogs d \<and> authors d' = authors d \<and> users d' = users d"
    using sv by (auto simp: save_comment_def split: if_splits)
  then show ?thesis
    using comment_admin_form_clean_Inr [OF cl] save_comment_wf [OF wf sv] save_comment_set [OF sv]
    by auto
qed

section \<open>Properties of the admin forms\<close>

lemma datefield_isoformat_roundtrip:
  assumes "valid_ymd y m dd"
  shows "datefield_clean (Some (date_isoformat y m dd)) = Inr (days_from_civil y m dd)"
proof -
  have "py_strip (date_isoformat y m dd) = date_isoformat y m dd"
    using isoformat_no_space by (blast intro: py_strip_no_space)
  then show ?thesis
    using strptime_isoformat [OF assms]
    by (simp add: datefield_clean_def temporal_clean_def date_input_formats_def date_isoformat_def)
qed

lemma splitdatetime_isoformat_roundtrip:
  assumes "valid_ymd y m dd" "h < 24" "mi < 60" "s < 60"
  shows "splitdatetime_clean (Some (date_isoformat y m dd)) (Some (time_isoformat h mi s))
       = Inr (days_from_civil y m dd * 86400000000 + int (((h * 60 + mi) * 60 + s) * 1000000))"
proof -
  have "py_strip (time_isoformat h mi s) = time_isoformat h mi s"
    using time_isoformat_no_space by (blast intro: py_strip_no_space)
  then have "temporal_clean strptime_time time_input_formats InvalidTime (Some (time_isoformat h mi s))
      = Inr (int (((h * 60 + mi) * 60 + s) * 1000000))"
    using strptime_time_isoformat [OF assms(2-4)]
    by (simp add: temporal_clean_def time_input_formats_def time_isoformat_def)
  then show ?thesis
    using datefield_isoformat_roundtrip [OF assms(1)]
    by (simp add: splitdatetime_clean_def date_isoformat_def time_isoformat_def)
qed

text \<open>
  C17. Round trip of the post date through the \<open>BlogAdmin\<close> form: when the
  \<open>post_date\<close> submitted is the text \<open>date.isoformat()\<close> gives for a valid
  calendar date of years 1 to 9999 (how the admin writes a date back into its form), the
  field reads exactly that date, the form reports no error on \<open>post_date\<close>, and a
  form that validates carries that date.
\<close>

theorem blog_form_post_date_roundtrip:
  assumes "valid_ymd y m dd" and "querydict_get post ''post_date'' = Some (date_isoformat y m dd)"
  shows "datefield_clean (querydict_get post ''post_date'') = Inr (days_from_civil y m dd)
    \<and> (\<forall>errs. blog_form_clean d post = Inl errs \<longrightarrow> ''post_date'' \<notin> fst ` set errs)
    \<and> (\<forall>t a ct dt. blog_form_clean d post = Inr (t, a, ct, dt) \<longrightarrow> dt = days_from_civil y m dd)"
proof -
  have dc: "datefield_clean (querydict_get post ''post_date'') = Inr (days_from_civil y m dd)"
    using datefield_isoformat_roundtrip [OF assms(1)] assms(2) by simp
  have "''post_date'' \<notin> fst ` set errs" if "blog_form_clean d post = Inl errs" for errs
    using that dc by (auto simp: blog_form_clean_def Let_def field_errors_def split: sum.splits)
  moreover have "dt = days_from_civil y m dd" if "blog_form_clean d post = Inr (t, a, ct, dt)" for t a ct dt
    using that dc by (auto simp: blog_form_clean_def Let_def split: sum.splits)
  ultimately show ?thesis using dc by blast
qed

text \<open>
  C11. A submission the \<open>BlogAdmin\<close> add form accepts saves exactly one new post,
  under the next key, and never fails in the database: the post has a non-empty title
  of at most 200 characters, non-empty content of at most 5000, an existing author and
  a valid calendar date, the other tables are unchanged and the invariant holds.
\<close>

theorem blog_admin_add_saves:
  assumes wf: "db_wf d" and ok: "blog_admin_add d post = Inr r"
  shows "\<exists>b d'. r = Inr (b, d') \<and> db_wf d' \<and> blogs d' = blogs d @ [b] \<and> blog_id b = next_blog d
     \<and> authors d' = authors d \<and> comments d' = comments d \<and> users d' = users d
     \<and> title b \<noteq> [] \<and> length (title b) \<le> 200 \<and> blog_content b \<noteq> [] \<and> length (blog_content b) \<le> 5000
     \<and> (\<exists>a. blog_author b = Some a \<and> a \<in> set (author_ids d))
     \<and> (\<exists>y m dd. valid_ymd y m dd \<and> blog_post_date b = Some (days_from_civil y m dd))"
proof -
  from ok obtain t a ct dt where cl: "blog_form_clean d post = Inr (t, a, ct, dt)"
    and r: "r = create_blog d t (Some a) ct (Some dt)"
    by (auto simp: blog_admin_add_def split: sum.splits)
  note fields = blog_form_clean_Inr [OF cl]
  let ?b = "\<lparr>blog_id = next_blog d, title = t, blog_author = Some a, blog_content = ct, blog_post_date = Some dt\<rparr>"
  let ?d' = "d\<lparr>blogs := blogs d @ [?b], next_blog := Suc (next_blog d)\<rparr>"
  have cr: "create_blog d t (Some a) ct (Some dt) = Inr (?b, ?d')"
    using fields by (simp add: create_blog_def fk_ok_def Let_def)
  show ?thesis
    using fields create_blog_wf [OF wf cr] by (auto simp: r cr)
qed

text \<open>
  C30. Round trip of the post date through the \<open>CommentAdmin\<close> form: when the
  two parts of \<open>post_date\<close> submitted are the texts the admin's split widget writes
  back, \<open>date.isoformat()\<close> of a valid calendar date and \<open>'%H:%M:%S'\<close> of a
  time of day, the \<open>SplitDateTimeField\<close> reads exactly that instant (UTC, in
  microseconds), the form reports no error on \<open>post_date\<close>, and a form that
  validates carries that instant.
\<close>

theorem comment_form_post_date_roundtrip:
  assumes "valid_ymd y m dd" "h < 24" "mi < 60" "s < 60"
    and "querydict_get post ''post_date_0'' = Some (date_isoformat y m dd)"
    and "querydict_get post ''post_date_1'' = Some (time_isoformat h mi s)"
  shows "splitdatetime_clean (querydict_get post ''post_date_0'') (querydict_get post ''post_date_1'')
       = Inr (days_from_civil y m dd * 86400000000 + int (((h * 60 + mi) * 60 + s) * 1000000))
    \<and> (\<forall>errs. comment_admin_form_clean d post = Inl errs \<longrightarrow> ''post_date'' \<notin> fst ` set errs)
    \<and> (\<forall>b ct ts u. comment_admin_form_clean d post = Inr (b, ct, ts, u)
         \<longrightarrow> ts = days_from_civil y m dd * 86400000000 + int (((h * 60 + mi) * 60 + s) * 1000000))"
proof -
  have sc: "splitdatetime_clean (querydict_get post ''post_date_0'') (querydict_get post ''post_date_1'')
       = Inr (days_from_civil y m dd * 86400000000 + int (((h * 60 + mi) * 60 + s) * 1000000))"
    using splitdatetime_isoformat_roundtrip [OF assms(1-4)] assms(5,6) by simp
  have "''post_date'' \<notin> fst ` set errs" if "comment_admin_form_clean d post = Inl errs" for errs
    using that sc by (auto simp: comment_admin_form_clean_def Let_def field_errors_def split: sum.splits)
  moreover have "ts = days_from_civil y m dd * 86400000000 + int (((h * 60 + mi) * 60 + s) * 1000000)"
    if "comment_admin_form_clean d post = Inr (b, ct, ts, u)" for b ct ts u
    using that sc by (auto simp: comment_admin_form_clean_def Let_def split: sum.splits)
  ultimately show ?thesis using sc by blast
qed

text \<open>
  C35. The \<open>BlogAdmin\<close> change page saves the post and its comments inline together:
  a submission writes only when the post's form and every inline row that is not ticked
  for deletion are valid, and then deletes exactly the ticked comments of that post,
  keeps every other comment, changes no author or user, and keeps \<open>db_wf\<close>;
  conversely, when the form and the kept rows are valid, the change is saved and the post
  carries the cleaned fields under its key.
\<close>

theorem blog_admin_change_inline:
  assumes wf: "db_wf d" and b: "get_blog d k = Some b"
  shows "(\<forall>d'. blog_admin_change d k post ticked = Inr (Inr d') \<longrightarrow>
            (\<exists>v. blog_form_clean d post = Inr v) \<and> inline_formset_errors d k ticked = []
            \<and> map comment_id (comments d')
                = map comment_id (filter (\<lambda>c. \<not> (comment_blog c = Some k \<and> comment_id c \<in> set ticked)) (comments d))
            \<and> authors d' = authors d \<and> users d' = users d \<and> db_wf d')
    \<and> (\<forall>t a ct dt. blog_form_clean d post = Inr (t, a, ct, dt) \<and> inline_formset_errors d k ticked = [] \<longrightarrow>
         (\<exists>d'. blog_admin_change d k post ticked = Inr (Inr d')
            \<and> b\<lparr>title := t, blog_author := Some a, blog_content := ct, blog_post_date := Some dt\<rparr> \<in> set (blogs d')
            \<and> blog_ids d' = blog_ids d))"
proof (rule conjI; intro allI impI)
  fix d'
  assume ch: "blog_admin_change d k post ticked = Inr (Inr d')"
  then obtain b0 t a ct dt d1 where cl: "blog_form_clean d post = Inr (t, a, ct, dt)"
    and fe: "inline_formset_errors d k ticked = []"
    and sv: "save_blog d (b0\<lparr>title := t, blog_author := Some a, blog_content := ct,
                              blog_post_date := Some dt\<rparr>) = Inr d1"
    and isv: "inline_save d1 k ticked = Inr d'"
    by (rule blog_admin_change_InrE)
  have t1: "authors d1 = authors d" "comments d1 = comments d" "users d1 = users d"
    using sv by (auto simp: save_blog_def split: if_splits)
  note is' = inline_save_Inr [OF save_blog_wf [OF wf sv] isv]
  show "(\<exists>v. blog_form_clean d post = Inr v) \<and> inline_formset_errors d k ticked = []
      \<and> map comment_id (comments d')
          = map comment_id (filter (\<lambda>c. \<not> (comment_blog c = Some k \<and> comment_id c \<in> set ticked)) (comments d))
      \<and> authors d' = authors d \<and> users d' = users d \<and> db_wf d'"
    using cl fe is' t1 by simp
next
  fix t a ct dt
  assume "blog_form_clean d post = Inr (t, a, ct, dt) \<and> inline_formset_errors d k ticked = []"
  then have cl: "blog_form_clean d post = Inr (t, a, ct, dt)" and fe: "inline_formset_errors d k ticked = []"
    by simp_all
  let ?b = "b\<lparr>title := t, blog_author := Some a, blog_content := ct, blog_post_date := Some dt\<rparr>"
  have bk: "blog_id b = k" "b \<in> set (blogs d)" using get_blog_Some [OF b] by simp_all
  let ?d1 = "d\<lparr>blogs := map (\<lambda>x. if blog_id x = k then ?b else x) (blogs d)\<rparr>"
  have sv: "save_blog d ?b = Inr ?d1"
    using blog_form_clean_Inr [OF cl] bk by (force simp: save_blog_def fk_ok_def)
  have wf1: "db_wf ?d1" by (rule save_blog_wf [OF wf sv])
  obtain d' where isv: "inline_save ?d1 k ticked = Inr d'"
    by (simp add: inline_save_def inline_delete_eq [OF wf1])
  have ch: "blog_admin_change d k post ticked = Inr (Inr d')"
    using b cl fe sv isv by (simp add: blog_admin_change_def)
  have "blogs d' = blogs ?d1" using inline_save_Inr [OF wf1 isv] by simp
  moreover have "?b \<in> set (blogs ?d1)" using bk by force
  moreover have "blog_ids ?d1 = blog_ids d" using bk by (simp add: comp_def)
  ultimately show "\<exists>d'. blog_admin_change d k post ticked = Inr (Inr d') \<and> ?b \<in> set (blogs d')
      \<and> blog_ids d' = blog_ids d"
    using ch by auto
qed

end
