(* ===== verification/System.thy ===== *)
theory System
  imports Site AdminForms
begin

text \<open>
  The whole application as one state machine: the public site of
  \<open>src/blog/urls.py\<close> and \<open>src/blog/views.py\<close> (\<open>Site.handle\<close>) and the admin
  site of \<open>src/blog/admin.py\<close> (the add, change and delete views of the registered
  models, the comments inline saved with the post's change form, and the delete selected action) work on the same database, and the auth app creates
  and deletes the user accounts the other two refer to. An event is one request to one
  of them; a write that fails (a form with errors, an exception of the ORM) leaves the
  database as it was, since each admin view runs in one transaction. The reachable
  states are those a sequence of events builds from the empty database and an empty
  session store. On them the database invariant holds, and so do the limits the model
  fields declare: every title, content, biography and comment has between one
  character and its field's \<open>max_length\<close>, because every path that writes one goes
  through a form with a required, length-checked field.
\<close>

datatype sys_event =
    SiteRequest request
  | AccountCreated string
  | AccountDeleted pk
  | AdminAddAuthor query_dict
  | AdminChangeAuthor pk query_dict
  | AdminDeleteAuthor pk
  | AdminAddBlog query_dict
  | AdminChangeBlog pk query_dict "pk list"
  | AdminDeleteBlog pk
  | AdminAddComment query_dict
  | AdminChangeComment pk query_dict
  | AdminDeleteComment pk
  | AdminDeleteSelectedAuthors "pk list"
  | AdminDeleteSelectedBlogs "pk list"
  | AdminDeleteSelectedComments "pk list"

text \<open>The outcome of a view that writes: the new database, or the old one after form
  errors or an exception (a write without a form cannot have form errors).\<close>

definition commit :: "site \<Rightarrow> form_errors + (py_error + db) \<Rightarrow> site" where
  "commit s r = (case r of Inr (Inr d') \<Rightarrow> s\<lparr>site_db := d'\<rparr> | _ \<Rightarrow> s)"

fun sys_step :: "site \<Rightarrow> sys_event \<Rightarrow> site" where
  "sys_step s (SiteRequest req) = snd (handle s req)"
| "sys_step s (AccountCreated nm) = commit s (Inr (map_sum id snd (create_user (site_db s) nm)))"
| "sys_step s (AccountDeleted k) = commit s (Inr (delete_user (site_db s) k))"
| "sys_step s (AdminAddAuthor post) =
     commit s (map_sum id (map_sum id snd) (author_admin_add (site_db s) post))"
| "sys_step s (AdminChangeAuthor k post) = commit s (author_admin_change (site_db s) k post)"
| "sys_step s (AdminDeleteAuthor k) = commit s (Inr (delete_author (site_db s) k))"
| "sys_step s (AdminAddBlog post) =
     commit s (map_sum id (map_sum id snd) (blog_admin_add (site_db s) post))"
| "sys_step s (AdminChangeBlog k post ticked) = commit s (blog_admin_change (site_db s) k post ticked)"
| "sys_step s (AdminDeleteBlog k) = commit s (Inr (delete_blog (site_db s) k))"
| "sys_step s (AdminAddComment post) =
     commit s (map_sum id (map_sum id snd) (comment_admin_add (site_db s) post))"
| "sys_step s (AdminChangeComment k post) = commit s (comment_admin_change (site_db s) k post)"
| "sys_step s (AdminDeleteComment k) = commit s (Inr (delete_comment (site_db s) k))"
| "sys_step s (AdminDeleteSelectedAuthors sel) =
     commit s (Inr (delete_selected author_ids delete_author (site_db s) sel))"
| "sys_step s (AdminDeleteSelectedBlogs sel) =
     commit s (Inr (delete_selected blog_ids delete_blog (site_db s) sel))"
| "sys_step s (AdminDeleteSelectedComments sel) =
     commit s (Inr (delete_selected comment_ids delete_comment (site_db s) sel))"

inductive sys_reachable :: "site \<Rightarrow> bool" where
  init: "sys_reachable \<lparr>site_db = empty_db, site_sessions = Map.empty\<rparr>"
| step: "sys_reachable s \<Longrightarrow> sys_reachable (sys_step s e)"

text \<open>The \<open>max_length\<close> of \<open>Blog.title\<close>, \<open>Blog.content\<close>,
  \<open>Author.biography\<close> and \<open>Comment.content\<close>, with the non-empty values the
  required form fields let through.\<close>

definition field_limits :: "db \<Rightarrow> bool" where
  "field_limits d =
     (list_all (\<lambda>b. 0 < length (title b) \<and> length (title b) \<le> 200
                    \<and> 0 < length (blog_content b) \<and> length (blog_content b) \<le> 5000) (blogs d)
      \<and> list_all (\<lambda>a. 0 < length (biography a) \<and> length (biography a) \<le> 1000) (authors d)
      \<and> list_all (\<lambda>c. 0 < length (comment_content c) \<and> length (comment_content c) \<le> 200) (comments d))"


section \<open>Lemmas: each kind of event keeps the invariant\<close>

lemma list_all_insert_subset:
  "list_all P xs \<Longrightarrow> set ys \<subseteq> insert x (set xs) \<Longrightarrow> P x \<Longrightarrow> list_all P ys"
  by (auto simp: list_all_iff)

lemma list_all_subset: "list_all P xs \<Longrightarrow> set ys \<subseteq> set xs \<Longrightarrow> list_all P ys"
  by (auto simp: list_all_iff)

lemma commit_db:
  "site_db (commit s r) = (case r of Inr (Inr d') \<Rightarrow> d' | _ \<Rightarrow> site_db s)"
  by (simp add: commit_def split: sum.splits)

lemma map_sum_map_sum_snd_Inr:
  "map_sum id (map_sum id snd) r = Inr (Inr d') \<longleftrightarrow> (\<exists>x. r = Inr (Inr (x, d')))"
  by (cases r) (auto simp: map_sum_snd_Inr)

lemma create_comment_view_limits:
  assumes run: "create_comment_view d req k = (r, d')" and lim: "field_limits d"
  shows "field_limits d'"
proof -
  have "0 < length (comment_content c) \<and> length (comment_content c) \<le> 200" if c: "c \<in> set (comments d')" for c
  proof (cases "c \<in> set (comments d)")
    case True with lim show ?thesis by (auto simp: field_limits_def list_all_iff)
  next
    case False
    with create_comment_view_added [OF run c] obtain content
      where "comment_form_clean (req_post req) = Inr content" "comment_content c = content"
      by auto
    then show ?thesis by (auto dest: comment_form_clean_Inr_bounds)
  qed
  with lim create_comment_view_tables [OF run] show ?thesis
    by (simp add: field_limits_def list_all_iff)
qed

lemma handle_invariant:
  "db_wf (site_db s) \<Longrightarrow> field_limits (site_db s) \<Longrightarrow>
   db_wf (site_db (snd (handle s req))) \<and> field_limits (site_db (snd (handle s req)))"
  using handle_db [of s req] handle_wf [of s req] by (auto intro: create_comment_view_limits)

lemma create_user_limits: "create_user d nm = Inr (u, d') \<Longrightarrow> field_limits d \<Longrightarrow> field_limits d'"
  by (auto simp: create_user_def field_limits_def Let_def split: if_splits)

lemma delete_user_limits: "delete_user d k = Inr d' \<Longrightarrow> field_limits d \<Longrightarrow> field_limits d'"
  by (auto simp: delete_user_def field_limits_def list_all_iff split: if_splits)

lemma delete_author_limits: "delete_author d k = Inr d' \<Longrightarrow> field_limits d \<Longrightarrow> field_limits d'"
  by (auto simp: delete_author_def field_limits_def list_all_iff split: if_splits)

lemma delete_blog_limits: "delete_blog d k = Inr d' \<Longrightarrow> field_limits d \<Longrightarrow> field_limits d'"
  by (auto simp: delete_blog_def field_limits_def list_all_iff split: if_splits)

lemma delete_comment_limits: "delete_comment d k = Inr d' \<Longrightarrow> field_limits d \<Longrightarrow> field_limits d'"
  by (auto simp: delete_comment_def field_limits_def list_all_iff split: if_splits)

lemma delete_selected_invariant:
  assumes wf: "\<And>d k d'. db_wf d \<Longrightarrow> del d k = Inr d' \<Longrightarrow> db_wf d'"
    and lim: "\<And>d k d'. del d k = Inr d' \<Longrightarrow> field_limits d \<Longrightarrow> field_limits d'"
    and "delete_selected ids del d sel = Inr d'" "db_wf d" "field_limits d"
  shows "db_wf d' \<and> field_limits d'"
proof -
  have step: "db_wf d' \<and> field_limits d'" if "db_wf d \<and> field_limits d" "del d k = Inr d'" for d k d'
    using that wf lim by blast
  have "delete_each del d (filter (\<lambda>k. k \<in> set sel) (ids d)) = Inr d'"
    using assms(3) by (simp add: delete_selected_def)
  then show ?thesis
    using delete_each_preserves [where P = "\<lambda>d. db_wf d \<and> field_limits d" and del = del] step assms(4,5)
    by blast
qed

lemma author_admin_add_invariant:
  "author_admin_add d post = Inr (Inr (a, d')) \<Longrightarrow> db_wf d \<Longrightarrow> field_limits d \<Longrightarrow>
   db_wf d' \<and> field_limits d'"
  using author_admin_add_Inr [of d post a d']
  by (auto simp: field_limits_def author_admin_add_def Let_def dest: create_author_wf
      split: if_splits sum.splits prod.splits)

lemma blog_admin_add_invariant:
  "blog_admin_add d post = Inr (Inr (b, d')) \<Longrightarrow> db_wf d \<Longrightarrow> field_limits d \<Longrightarrow>
   db_wf d' \<and> field_limits d'"
  using blog_admin_add_Inr [of d post b d']
  by (auto simp: field_limits_def blog_admin_add_def dest: create_blog_wf split: sum.splits prod.splits)

lemma author_admin_change_invariant:
  assumes "author_admin_change d k post = Inr (Inr d')" "db_wf d" "field_limits d"
  shows "db_wf d' \<and> field_limits d'"
proof -
  from author_admin_change_Inr [OF assms(2,1)] obtain a where
    "db_wf d'" "blogs d' = blogs d" "comments d' = comments d"
    "set (authors d') \<subseteq> insert a (set (authors d))" "biography a \<noteq> []" "length (biography a) \<le> 1000"
    by blast
  with assms(3) show ?thesis
    by (auto simp: field_limits_def elim!: list_all_insert_subset)
qed

lemma blog_admin_change_invariant:
  assumes "blog_admin_change d k post ticked = Inr (Inr d')" "db_wf d" "field_limits d"
  shows "db_wf d' \<and> field_limits d'"
proof -
  from blog_admin_change_Inr [OF assms(2,1)] obtain b where
    "db_wf d'" "authors d' = authors d"
    "set (blogs d') \<subseteq> insert b (set (blogs d))" "title b \<noteq> []" "length (title b) \<le> 200"
    "blog_content b \<noteq> []" "length (blog_content b) \<le> 5000"
    and cs: "\<forall>c' \<in> set (comments d'). c' \<in> set (comments d)
         \<or> (comment_content c' \<noteq> [] \<and> length (comment_content c') \<le> 200)"
    by blast
  with assms(3) show ?thesis
    by (auto simp: field_limits_def list_all_iff)
qed

lemma comment_admin_add_invariant:
  "comment_admin_add d post = Inr (Inr (c, d')) \<Longrightarrow> db_wf d \<Longrightarrow> field_limits d \<Longrightarrow>
   db_wf d' \<and> field_limits d'"
  using comment_admin_add_Inr [of d post c d']
  by (auto simp: field_limits_def comment_admin_add_def dest: create_comment_wf split: sum.splits prod.splits)

lemma comment_admin_change_invariant:
  assumes "comment_admin_change d k post = Inr (Inr d')" "db_wf d" "field_limits d"
  shows "db_wf d' \<and> field_limits d'"
proof -
  from comment_admin_change_Inr [OF assms(2,1)] obtain c where
    "db_wf d'" "blogs d' = blogs d" "authors d' = authors d"
    "set (comments d') \<subseteq> insert c (set (comments d))" "comment_content c \<noteq> []"
    "length (comment_content c) \<le> 200"
    by blast
  with assms(3) show ?thesis
    by (auto simp: field_limits_def elim!: list_all_insert_subset)
qed

lemma sys_step_invariant:
  assumes "db_wf (site_db s)" "field_limits (site_db s)"
  shows "db_wf (site_db (sys_step s e)) \<and> field_limits (site_db (sys_step s e))"
proof (cases e)
  case (SiteRequest req) with assms show ?thesis by (simp add: handle_invariant)
next
  case (AccountCreated nm) with assms show ?thesis
    by (auto simp: commit_db map_sum_snd_Inr split: sum.splits dest: create_user_wf create_user_limits)
next
  case (AccountDeleted k) with assms show ?thesis
    by (auto simp: commit_db split: sum.splits dest: delete_user_wf delete_user_limits)
next
  case (AdminAddAuthor post) with assms show ?thesis
    by (auto simp: commit_db map_sum_map_sum_snd_Inr split: sum.splits dest: author_admin_add_invariant)
next
  case (AdminChangeAuthor k post) with assms show ?thesis
    by (auto simp: commit_db split: sum.splits dest: author_admin_change_invariant)
next
  case (AdminDeleteAuthor k) with assms show ?thesis
    by (auto simp: commit_db split: sum.splits dest: delete_author_wf delete_author_limits)
next
  case (AdminAddBlog post) with assms show ?thesis
    by (auto simp: commit_db map_sum_map_sum_snd_Inr split: sum.splits dest: blog_admin_add_invariant)
next
  case (AdminChangeBlog k post ticked) with assms show ?thesis
    by (auto simp: commit_db split: sum.splits dest: blog_admin_change_invariant)
next
  case (AdminDeleteBlog k) with assms show ?thesis
    by (auto simp: commit_db split: sum.splits dest: delete_blog_wf delete_blog_limits)
next
  case (AdminAddComment post) with assms show ?thesis
    by (auto simp: commit_db map_sum_map_sum_snd_Inr split: sum.splits dest: comment_admin_add_invariant)
next
  case (AdminChangeComment k post) with assms show ?thesis
    by (auto simp: commit_db split: sum.splits dest: comment_admin_change_invariant)
next
  case (AdminDeleteComment k) with assms show ?thesis
    by (auto simp: commit_db split: sum.splits dest: delete_comment_wf delete_comment_limits)
next
  case (AdminDeleteSelectedAuthors sel)
  have "db_wf d' \<and> field_limits d'" if "delete_selected author_ids delete_author (site_db s) sel = Inr d'" for d'
    using delete_selected_invariant [OF delete_author_wf delete_author_limits that assms] .
  with AdminDeleteSelectedAuthors assms show ?thesis by (auto simp: commit_db split: sum.splits)
next
  case (AdminDeleteSelectedBlogs sel)
  have "db_wf d' \<and> field_limits d'" if "delete_selected blog_ids delete_blog (site_db s) sel = Inr d'" for d'
    using delete_selected_invariant [OF delete_blog_wf delete_blog_limits that assms] .
  with AdminDeleteSelectedBlogs assms show ?thesis by (auto simp: commit_db split: sum.splits)
next
  case (AdminDeleteSelectedComments sel)
  have "db_wf d' \<and> field_limits d'" if "delete_selected comment_ids delete_comment (site_db s) sel = Inr d'" for d'
    using delete_selected_invariant [OF delete_comment_wf delete_comment_limits that assms] .
  with AdminDeleteSelectedComments assms show ?thesis by (auto simp: commit_db split: sum.splits)
qed

lemma sys_reachable_run: "sys_reachable s \<Longrightarrow> sys_reachable (foldl sys_step s es)"
  by (induction es arbitrary: s) (auto intro: sys_reachable.step)

section \<open>The invariant of the whole application\<close>

text \<open>
  C24. Whatever sequence of public requests, admin submissions and account changes
  the application receives, starting from an empty database, the database invariant
  holds and every stored title, content, biography and comment is non-empty and within
  its field's \<open>max_length\<close>.
\<close>

theorem sys_reachable_invariant:
  "sys_reachable s \<Longrightarrow> db_wf (site_db s) \<and> field_limits (site_db s)"
proof (induction rule: sys_reachable.induct)
  case init
  show ?case using db_wf_empty by (simp add: field_limits_def empty_db_def)
next
  case (step s e)
  then show ?case using sys_step_invariant [of s e] by simp
qed

end
