(* ===== verification/Scenarios.thy ===== *)
theory Scenarios
  imports System
begin

text \<open>
  The fixtures of the repository's tests (\<open>src/blog/tests/test_views.py\<close>), built
  with the model's own ORM operations from the empty database, and the requests the
  tests send; then, for each property of the development that has hypotheses, a
  closed instance at these fixtures that discharges the hypotheses.
\<close>

section \<open>Fixtures\<close>

text \<open>\<open>CommentFormViewTest.setUpTestData\<close>: two users, an author for each, one post
  by the first author dated today (day 20000).\<close>

definition comment_view_fixture_ops :: "db_op list" where
  "comment_view_fixture_ops =
     [CreateUser ''testuser1'', CreateUser ''testuser2'',
      CreateAuthor (Some 1) ''My biography.'', CreateAuthor (Some 2) ''My biography.'',
      CreateBlog ''title'' (Some 1) ''blog content'' (Some 20000)]"

definition comment_view_fixture :: db where
  "comment_view_fixture =
     (case run_db_ops empty_db comment_view_fixture_ops of Inr d \<Rightarrow> d | Inl _ \<Rightarrow> empty_db)"

text \<open>A request for \<open>/blog/blogs/1/create\<close> as the test client sends it.\<close>

definition create_request :: "string \<Rightarrow> query_dict \<Rightarrow> pk option \<Rightarrow> request" where
  "create_request m post u =
     \<lparr>req_method = m, req_path = ''/blog/blogs/1/create'', req_query_string = [],
      req_get = [], req_post = post, req_user = u, req_session_key = 0, req_now = 1728000000000000\<rparr>"

text \<open>The same database after \<open>testuser2\<close> has commented on the post.\<close>

definition commented_fixture :: db where
  "commented_fixture = comment_view_fixture\<lparr>comments := [\<lparr>comment_id = 1, comment_blog = Some 1,
     comment_content = ''My comment'', comment_post_date = Some 1728000000000000, comment_author = Some 2\<rparr>],
     next_comment := 2\<rparr>"

text \<open>\<open>BlogPostListViewTest.setUpTestData\<close>: one user, its author, and eight
  undated posts \<open>title 0\<close> .. \<open>title 7\<close>.\<close>

definition blog_list_fixture_ops :: "db_op list" where
  "blog_list_fixture_ops =
     [CreateUser ''test_user'', CreateAuthor (Some 1) ''My biography.'']
     @ map (\<lambda>i. CreateBlog (''title '' @ py_str_nat i) (Some 1) (''blog #'' @ py_str_nat i) None) [0..<8]"

definition blog_list_fixture :: db where
  "blog_list_fixture =
     (case run_db_ops empty_db blog_list_fixture_ops of Inr d \<Rightarrow> d | Inl _ \<Rightarrow> empty_db)"

text \<open>An anonymous \<open>GET\<close> of a list page, with its query string and parsed query.\<close>

definition list_request :: "string \<Rightarrow> string \<Rightarrow> query_dict \<Rightarrow> request" where
  "list_request p qs q =
     \<lparr>req_method = ''GET'', req_path = p, req_query_string = qs,
      req_get = q, req_post = [], req_user = None, req_session_key = 0, req_now = 1728000000000000\<rparr>"

definition blog_list_site :: site where
  "blog_list_site = \<lparr>site_db = blog_list_fixture, site_sessions = Map.empty\<rparr>"

text \<open>\<open>AuthorListViewTest.setUpTestData\<close>: thirteen users \<open>test_user 0\<close> ..
  \<open>test_user 12\<close>, each with an author.\<close>

definition author_list_fixture_ops :: "db_op list" where
  "author_list_fixture_ops =
     concat (map (\<lambda>i. [CreateUser (''test_user '' @ py_str_nat i),
                        CreateAuthor (Some (Suc i)) (''Biography #'' @ py_str_nat i)]) [0..<13])"

definition author_list_fixture :: db where
  "author_list_fixture =
     (case run_db_ops empty_db author_list_fixture_ops of Inr d \<Rightarrow> d | Inl _ \<Rightarrow> empty_db)"

definition author_list_site :: site where
  "author_list_site = \<lparr>site_db = author_list_fixture, site_sessions = Map.empty\<rparr>"

text \<open>The fixtures of \<open>tests/test_models.py\<close>: \<open>CommentModelTest.setUpTestData\<close>
  creates a user, its author, a post by the author and a comment on it;
  \<open>AuthorModelTest\<close> and \<open>BlogModelTest\<close> run the first two and three of these
  writes.\<close>

definition model_test_fixture_ops :: "db_op list" where
  "model_test_fixture_ops =
     [CreateUser ''test_user'', CreateAuthor (Some 1) ''My biography.'',
      CreateBlog ''My blog post'' (Some 1) ''This is a post.'' None,
      CreateComment (Some 1) ''My comment'' None (Some 1)]"

definition model_test_fixture :: "nat \<Rightarrow> db" where
  "model_test_fixture n =
     (case run_db_ops empty_db (take n model_test_fixture_ops) of Inr d \<Rightarrow> d | Inl _ \<Rightarrow> empty_db)"

text \<open>A session of the whole application: an account is created, the admin adds its
  author profile and a post dated 2024-02-29, and the user comments on the post.\<close>

definition blog_session :: "sys_event list" where
  "blog_session =
     [AccountCreated ''alice'',
      AdminAddAuthor [(''name'', ''1''), (''biography'', ''Writes about proofs.'')],
      AdminAddBlog [(''title'', ''Leap day''), (''author'', ''1''), (''content'', ''A post.''),
                    (''post_date'', ''2024-02-29'')],
      SiteRequest (create_request ''POST'' [(''content'', ''Nice post.'')] (Some 1))]"

text \<open>A submission of the \<open>BlogAdmin\<close> add form on the comment fixture, with the date
  written the way the \<open>%b %d, %Y\<close> format reads it.\<close>

text \<open>The change form of that post as the admin renders it: the stored fields, the
  author's key, and the date (day 20000) in \<open>isoformat()\<close>.\<close>

definition blog_edit_post :: query_dict where
  "blog_edit_post = [(''title'', ''title''), (''author'', ''1''), (''content'', ''blog content''),
     (''post_date'', ''2024-10-04'')]"

definition blog_add_post :: query_dict where
  "blog_add_post = [(''title'', ''Second post''), (''author'', ''2''), (''content'', ''More content.''),
     (''post_date'', '' Feb 29, 2024'')]"

text \<open>The change form of the fixture's comment as the admin renders it, its
  \<open>post_date\<close> split into the date and the time \<open>'%H:%M:%S'\<close>.\<close>

definition comment_edit_post :: query_dict where
  "comment_edit_post = [(''blog'', ''1''), (''content'', ''My comment''), (''post_date_0'', ''2024-10-04''),
     (''post_date_1'', ''12:30:05''), (''author'', ''1'')]"

section \<open>Evaluation of the fixtures\<close>

lemma comment_view_fixture_eq:
  "comment_view_fixture =
     \<lparr>users = [\<lparr>user_id = 1, username = ''testuser1''\<rparr>, \<lparr>user_id = 2, username = ''testuser2''\<rparr>],
      authors = [\<lparr>author_id = 1, author_name = Some 1, biography = ''My biography.''\<rparr>,
                 \<lparr>author_id = 2, author_name = Some 2, biography = ''My biography.''\<rparr>],
      blogs = [\<lparr>blog_id = 1, title = ''title'', blog_author = Some 1,
                 blog_content = ''blog content'', blog_post_date = Some 20000\<rparr>],
      comments = [], next_user = 3, next_author = 3, next_blog = 2, next_comment = 1\<rparr>"
  by (simp add: comment_view_fixture_def comment_view_fixture_ops_def empty_db_def
        create_user_def create_author_def create_blog_def fk_ok_def Let_def)

lemma comment_view_fixture_reachable: "reachable_db comment_view_fixture"
proof -
  have "run_db_ops empty_db comment_view_fixture_ops = Inr comment_view_fixture"
    by (simp add: comment_view_fixture_eq comment_view_fixture_ops_def empty_db_def
          create_user_def create_author_def create_blog_def fk_ok_def Let_def)
  then show ?thesis by (rule run_db_ops_reachable [OF reachable_db.empty])
qed

lemma comment_view_fixture_wf: "db_wf comment_view_fixture"
  by (simp add: comment_view_fixture_eq db_wf_def keys_ok_def fk_ok_def map_filter_simps)

lemma commented_fixture_wf: "db_wf commented_fixture"
  by (simp add: commented_fixture_def comment_view_fixture_eq db_wf_def keys_ok_def fk_ok_def
        map_filter_simps)

lemma blog_list_fixture_blogs: "length (blogs blog_list_fixture) = 8"
  by (simp add: blog_list_fixture_def blog_list_fixture_ops_def empty_db_def upt_rec
        create_user_def create_author_def create_blog_def fk_ok_def Let_def)

lemma comment_view_fixture_post:
  "create_comment_view comment_view_fixture (create_request ''POST'' [(''content'', ''My comment'')] (Some 2)) 1
     = (Redirect ''/blog/blogs/1'', commented_fixture)"
proof -
  let ?rq = "create_request ''POST'' [(''content'', ''My comment'')] (Some 2)"
  have form: "comment_form_clean (req_post ?rq) = Inr ''My comment''"
    by (simp add: create_request_def comment_form_clean_def charfield_clean_def Let_def
          charfield_to_python_def querydict_get_def charfield_validators_def
          comment_content_max_length_def py_strip_def py_isspace_def)
  have "create_comment_view comment_view_fixture ?rq 1 =
     (Redirect (''/blog/blogs/'' @ py_str_nat 1),
      comment_view_fixture\<lparr>comments := comments comment_view_fixture @ [\<lparr>comment_id = next_comment comment_view_fixture,
            comment_blog = Some 1, comment_content = ''My comment'', comment_post_date = Some (req_now ?rq),
            comment_author = Some 2\<rparr>], next_comment := Suc (next_comment comment_view_fixture)\<rparr>)"
    by (rule create_comment_view_post_valid [OF comment_view_fixture_wf _ _ _ _ form])
       (simp_all add: create_request_def comment_view_fixture_eq get_blog_def)
  then show ?thesis
    by (simp add: create_request_def commented_fixture_def comment_view_fixture_eq py_str_nat_eval)
qed

lemma comment_view_fixture_blog_list:
  "blog_list_view comment_view_fixture (list_request ''/blog/blogs/'' [] []) = Render ''blog/blog_list.html''
     (BlogListContext (blogs comment_view_fixture) \<lparr>is_paginated = False, page_number = 1, num_pages = 1\<rparr>)"
proof -
  have "req_method (list_request ''/blog/blogs/'' [] []) = ''GET''"
    "page_param (list_request ''/blog/blogs/'' [] []) = None"
    by (simp_all add: list_request_def page_param_def querydict_get_def)
  from blog_list_view_first_page [OF this, of comment_view_fixture] show ?thesis
    by (simp add: comment_view_fixture_eq paginator_num_pages_def blogs_all_def order_blogs_def)
qed

lemma author_list_fixture_authors: "length (authors author_list_fixture) = 13"
  by (simp add: author_list_fixture_def author_list_fixture_ops_def empty_db_def upt_rec
        create_user_def create_author_def fk_ok_def Let_def py_str_nat_eval)

lemma model_test_fixture_eq:
  "model_test_fixture 4 =
     \<lparr>users = [\<lparr>user_id = 1, username = ''test_user''\<rparr>],
      authors = [\<lparr>author_id = 1, author_name = Some 1, biography = ''My biography.''\<rparr>],
      blogs = [\<lparr>blog_id = 1, title = ''My blog post'', blog_author = Some 1,
                 blog_content = ''This is a post.'', blog_post_date = None\<rparr>],
      comments = [\<lparr>comment_id = 1, comment_blog = Some 1, comment_content = ''My comment'',
                   comment_post_date = None, comment_author = Some 1\<rparr>],
      next_user = 2, next_author = 2, next_blog = 2, next_comment = 2\<rparr>"
  by (simp add: model_test_fixture_def model_test_fixture_ops_def empty_db_def
        create_user_def create_author_def create_blog_def create_comment_def fk_ok_def Let_def)

lemma model_test_fixture_prefix:
  "authors (model_test_fixture 2) = authors (model_test_fixture 4)"
  "users (model_test_fixture 2) = users (model_test_fixture 4)"
  "blogs (model_test_fixture 3) = blogs (model_test_fixture 4)"
  by (simp_all add: model_test_fixture_eq)
     (simp_all add: model_test_fixture_def model_test_fixture_ops_def empty_db_def
        create_user_def create_author_def create_blog_def fk_ok_def Let_def)

section \<open>Witnesses\<close>

theorem create_comment_view_valid_witness:
  "db_wf comment_view_fixture \<and> req_user (create_request ''POST'' [(''content'', ''My comment'')] (Some 2)) = Some 2
   \<and> create_comment_view comment_view_fixture (create_request ''POST'' [(''content'', ''My comment'')] (Some 2)) 1
     = (Redirect ''/blog/blogs/1'',
        comment_view_fixture\<lparr>comments := [\<lparr>comment_id = 1, comment_blog = Some 1,
            comment_content = ''My comment'', comment_post_date = Some 1728000000000000,
            comment_author = Some 2\<rparr>], next_comment := 2\<rparr>)"
proof -
  let ?rq = "create_request ''POST'' [(''content'', ''My comment'')] (Some 2)"
  have form: "comment_form_clean (req_post ?rq) = Inr ''My comment''"
    by (simp add: create_request_def comment_form_clean_def charfield_clean_def Let_def
          charfield_to_python_def querydict_get_def charfield_validators_def
          comment_content_max_length_def py_strip_def py_isspace_def)
  have "create_comment_view comment_view_fixture ?rq 1 =
     (Redirect (''/blog/blogs/'' @ py_str_nat 1),
      comment_view_fixture\<lparr>comments := comments comment_view_fixture @ [\<lparr>comment_id = next_comment comment_view_fixture,
            comment_blog = Some 1, comment_content = ''My comment'', comment_post_date = Some (req_now ?rq),
            comment_author = Some 2\<rparr>], next_comment := Suc (next_comment comment_view_fixture)\<rparr>)"
    by (rule create_comment_view_valid [OF comment_view_fixture_wf _ _ _ _ form])
       (simp_all add: create_request_def comment_view_fixture_eq get_blog_def)
  then show ?thesis
    using comment_view_fixture_wf
    by (simp add: create_request_def comment_view_fixture_eq py_str_nat_eval)
qed

theorem create_comment_view_anonymous_witness:
  "req_user (create_request ''GET'' [] None) = None
   \<and> create_comment_view comment_view_fixture (create_request ''GET'' [] None) 1
     = (Redirect ''/accounts/login/?next=/blog/blogs/1/create'', comment_view_fixture)"
proof -
  have p: "req_path (create_request ''GET'' [] None) = ''/blog/blogs/'' @ py_str_nat 1 @ ''/create''"
    by (simp add: create_request_def py_str_nat_eval)
  have "create_comment_view comment_view_fixture (create_request ''GET'' [] None) 1
      = (Redirect (''/accounts/login/?next=/blog/blogs/'' @ py_str_nat 1 @ ''/create''), comment_view_fixture)"
    by (rule create_comment_view_anonymous [OF _ p]) (simp_all add: create_request_def)
  then show ?thesis by (simp add: create_request_def py_str_nat_eval)
qed

theorem create_comment_view_invalid_witness:
  "comment_form_clean [(''content'', ''  '')] = Inl [Required]
   \<and> create_comment_view comment_view_fixture (create_request ''POST'' [(''content'', ''  '')] (Some 2)) 1
     = (Render ''blog/create_comment.html''
          (CreateCommentContext (BoundForm [(''content'', ''  '')] [Required]) (hd (blogs comment_view_fixture))),
        comment_view_fixture)"
proof -
  have form: "comment_form_clean [(''content'', ''  '')] = Inl [Required]"
    by (simp add: comment_form_clean_def charfield_clean_def charfield_to_python_def
          querydict_get_def py_strip_def py_isspace_def)
  have blog: "get_blog comment_view_fixture 1 = Some (hd (blogs comment_view_fixture))"
    by (simp add: comment_view_fixture_eq get_blog_def)
  have "create_comment_view comment_view_fixture (create_request ''POST'' [(''content'', ''  '')] (Some 2)) 1
     = (Render ''blog/create_comment.html''
          (CreateCommentContext (BoundForm [(''content'', ''  '')] [Required]) (hd (blogs comment_view_fixture))),
        comment_view_fixture)"
    using create_comment_view_invalid [OF _ blog, of "create_request ''POST'' [(''content'', ''  '')] (Some 2)" 2]
      form by (simp add: create_request_def)
  with form show ?thesis by simp
qed

theorem create_comment_view_missing_blog_witness:
  "7 \<notin> set (blog_ids comment_view_fixture)
   \<and> create_comment_view comment_view_fixture (create_request ''POST'' [(''content'', ''hi'')] (Some 2)) 7
     = (NotFound, comment_view_fixture)"
proof -
  have nb: "7 \<notin> set (blog_ids comment_view_fixture)" by (simp add: comment_view_fixture_eq)
  have "req_user (create_request ''POST'' [(''content'', ''hi'')] (Some 2)) = Some 2"
    by (simp add: create_request_def)
  from create_comment_view_missing_blog [OF this nb] nb show ?thesis by simp
qed

theorem create_comment_view_unbound_witness:
  "create_comment_view comment_view_fixture (create_request ''GET'' [] (Some 2)) 1
     = (Render ''blog/create_comment.html'' (CreateCommentContext UnboundForm (hd (blogs comment_view_fixture))),
        comment_view_fixture)"
proof -
  have blog: "get_blog comment_view_fixture 1 = Some (hd (blogs comment_view_fixture))"
    by (simp add: comment_view_fixture_eq get_blog_def)
  show ?thesis
    using create_comment_view_unbound [OF _ blog, of "create_request ''GET'' [] (Some 2)" 2]
    by (simp add: create_request_def)
qed

theorem reachable_db_wf_witness:
  "reachable_db comment_view_fixture \<and> db_wf comment_view_fixture"
  using comment_view_fixture_reachable reachable_db_wf [OF comment_view_fixture_reachable] by simp

theorem delete_blog_restricted_witness:
  "db_wf commented_fixture \<and> delete_blog commented_fixture 1 = Inl RestrictedError"
proof -
  have c: "hd (comments commented_fixture) \<in> set (comments commented_fixture)"
    and b: "comment_blog (hd (comments commented_fixture)) = Some 1"
    by (simp_all add: commented_fixture_def)
  show ?thesis
    using delete_blog_restricted [OF commented_fixture_wf c b] commented_fixture_wf by simp
qed

theorem delete_user_set_null_witness:
  "2 \<in> set (user_ids commented_fixture)
   \<and> (\<exists>d'. delete_user commented_fixture 2 = Inr d' \<and> map user_id (users d') = [1]
        \<and> map author_name (authors d') = [Some 1, None] \<and> map comment_author (comments d') = [None])"
proof -
  have u: "2 \<in> set (user_ids commented_fixture)"
    by (simp add: commented_fixture_def comment_view_fixture_eq)
  from delete_user_set_null [OF u] obtain d' where h: "delete_user commented_fixture 2 = Inr d'"
    and us: "users d' = filter (\<lambda>x. user_id x \<noteq> 2) (users commented_fixture)"
    and as: "list_all2 (\<lambda>a a'. a' = (if author_name a = Some 2 then a\<lparr>author_name := None\<rparr> else a))
         (authors commented_fixture) (authors d')"
    and cs: "list_all2 (\<lambda>c c'. c' = (if comment_author c = Some 2 then c\<lparr>comment_author := None\<rparr> else c))
         (comments commented_fixture) (comments d')"
    by blast
  from as cs us have "map user_id (users d') = [1] \<and> map author_name (authors d') = [Some 1, None]
      \<and> map comment_author (comments d') = [None]"
    by (auto simp: commented_fixture_def comment_view_fixture_eq list_all2_Cons1)
  with u h show ?thesis by auto
qed

theorem delete_author_set_null_witness:
  "1 \<in> set (author_ids comment_view_fixture)
   \<and> (\<exists>d'. delete_author comment_view_fixture 1 = Inr d' \<and> map author_id (authors d') = [2]
        \<and> map blog_author (blogs d') = [None] \<and> map title (blogs d') = [''title'']
        \<and> comments d' = comments comment_view_fixture)"
proof -
  have a: "1 \<in> set (author_ids comment_view_fixture)" by (simp add: comment_view_fixture_eq)
  from delete_author_set_null [OF a] obtain d' where h: "delete_author comment_view_fixture 1 = Inr d'"
    and as: "authors d' = filter (\<lambda>x. author_id x \<noteq> 1) (authors comment_view_fixture)"
    and cs: "comments d' = comments comment_view_fixture"
    and bs: "list_all2 (\<lambda>b b'. b' = (if blog_author b = Some 1 then b\<lparr>blog_author := None\<rparr> else b))
         (blogs comment_view_fixture) (blogs d')"
    by blast
  from as bs have "map author_id (authors d') = [2] \<and> map blog_author (blogs d') = [None]
      \<and> map title (blogs d') = [''title'']"
    by (auto simp: comment_view_fixture_eq list_all2_Cons1)
  with a h cs show ?thesis by auto
qed

theorem one_author_per_user_witness:
  "reachable_db comment_view_fixture
   \<and> distinct (List.map_filter author_name (authors comment_view_fixture))
   \<and> create_author comment_view_fixture (Some 2) ''Another biography.'' = Inl IntegrityError"
proof -
  note r = one_author_per_user [OF comment_view_fixture_reachable]
  have "last (authors comment_view_fixture) \<in> set (authors comment_view_fixture)"
    and "author_name (last (authors comment_view_fixture)) = Some 2"
    by (simp_all add: comment_view_fixture_eq)
  with r comment_view_fixture_reachable show ?thesis by blast
qed

theorem create_author_duplicate_user_witness:
  "create_author comment_view_fixture (Some 1) ''Another biography.'' = Inl IntegrityError"
proof -
  have a: "hd (authors comment_view_fixture) \<in> set (authors comment_view_fixture)"
    and n: "author_name (hd (authors comment_view_fixture)) = Some 1"
    by (simp_all add: comment_view_fixture_eq)
  show ?thesis by (rule create_author_duplicate_user [OF a n])
qed

theorem blog_list_by_author_found_witness:
  "req_method (list_request ''/blog/bloggers2/1'' [] []) = ''GET''
   \<and> page_param (list_request ''/blog/bloggers2/1'' [] []) = None
   \<and> get_author comment_view_fixture 1 = Some (hd (authors comment_view_fixture))
   \<and> (\<exists>pg. blog_list_by_author_view comment_view_fixture (list_request ''/blog/bloggers2/1'' [] []) 1 =
        Render ''blog/blog_list_by_author.html''
          (BlogsByAuthorContext (blogs comment_view_fixture) pg (hd (authors comment_view_fixture)))
      \<and> \<not> is_paginated pg)"
proof -
  let ?rq = "list_request ''/blog/bloggers2/1'' [] []"
  have r: "req_method ?rq = ''GET''" "page_param ?rq = None"
    by (simp_all add: list_request_def page_param_def querydict_get_def)
  have a: "get_author comment_view_fixture 1 = Some (hd (authors comment_view_fixture))"
    by (simp add: comment_view_fixture_eq get_author_def)
  have bs: "blogs_by_author comment_view_fixture 1 = blogs comment_view_fixture"
    by (simp add: comment_view_fixture_eq blogs_by_author_def order_blogs_def)
  show ?thesis
    using blog_list_by_author_found [OF r a] r a bs by (simp add: comment_view_fixture_eq)
qed

theorem index_visit_counter_witness:
  "req_path (list_request ''/blog/'' [] []) = ''/blog/'' \<and> req_session_key (list_request ''/blog/'' [] []) = 0
   \<and> site_sessions blog_list_site 0 = None
   \<and> map shown_visits (fst (run_requests blog_list_site [list_request ''/blog/'' [] [], list_request ''/blog/'' [] []]))
     = [Some 0, Some 1]"
proof -
  have r: "\<forall>r \<in> set [list_request ''/blog/'' [] [], list_request ''/blog/'' [] []].
      req_path r = ''/blog/'' \<and> req_session_key r = 0" by (simp add: list_request_def)
  have s: "site_sessions blog_list_site 0 = None" by (simp add: blog_list_site_def)
  have "[0..<length [list_request ''/blog/'' [] [], list_request ''/blog/'' [] []]] = [0, 1]"
    by (simp add: upt_rec)
  with index_visit_counter [OF r s] r s show ?thesis by simp
qed

theorem reverse_resolve_witness:
  "reverse UBlogDetail [1] = Some ''/blog/blogs/1'' \<and> resolve ''/blog/blogs/1'' = Some (UBlogDetail, [1])"
proof -
  have rv: "reverse UBlogDetail [1] = Some ''/blog/blogs/1''"
    by (simp add: reverse_blog_detail py_str_nat_eval)
  from reverse_resolve [OF rv] rv show ?thesis by simp
qed
theorem blog_absolute_url_detail_witness:
  "db_wf (site_db \<lparr>site_db = comment_view_fixture, site_sessions = Map.empty\<rparr>)
   \<and> hd (blogs comment_view_fixture) \<in> set (blogs (site_db \<lparr>site_db = comment_view_fixture, site_sessions = Map.empty\<rparr>))
   \<and> req_method (list_request ''/blog/blogs/1'' [] []) = ''GET''
   \<and> blog_get_absolute_url (hd (blogs comment_view_fixture)) = Some (req_path (list_request ''/blog/blogs/1'' [] []))
   \<and> handle \<lparr>site_db = comment_view_fixture, site_sessions = Map.empty\<rparr> (list_request ''/blog/blogs/1'' [] [])
     = (Render ''blog/blog_detail.html'' (BlogDetailContext (hd (blogs comment_view_fixture))),
        \<lparr>site_db = comment_view_fixture, site_sessions = Map.empty\<rparr>)"
proof -
  let ?s = "\<lparr>site_db = comment_view_fixture, site_sessions = Map.empty\<rparr>"
  let ?rq = "list_request ''/blog/blogs/1'' [] []"
  have w: "db_wf (site_db ?s)" by (simp add: comment_view_fixture_wf)
  have b: "hd (blogs comment_view_fixture) \<in> set (blogs (site_db ?s))"
    by (simp add: comment_view_fixture_eq)
  have m: "req_method ?rq = ''GET''" by (simp add: list_request_def)
  have u: "blog_get_absolute_url (hd (blogs comment_view_fixture)) = Some (req_path ?rq)"
    by (simp add: blog_get_absolute_url_eq comment_view_fixture_eq list_request_def py_str_nat_eval)
  from blog_absolute_url_detail [OF w b m u] w b m u show ?thesis by simp
qed

theorem run_requests_wf_witness:
  "db_wf (site_db \<lparr>site_db = comment_view_fixture, site_sessions = Map.empty\<rparr>)
   \<and> db_wf (site_db (snd (run_requests \<lparr>site_db = comment_view_fixture, site_sessions = Map.empty\<rparr>
       [create_request ''POST'' [(''content'', ''My comment'')] (Some 2), list_request ''/blog/'' [] [],
        create_request ''POST'' [(''content'', [])] (Some 1)])))"
proof -
  have w: "db_wf (site_db \<lparr>site_db = comment_view_fixture, site_sessions = Map.empty\<rparr>)"
    by (simp add: comment_view_fixture_wf)
  show ?thesis using w run_requests_wf [OF w] by blast
qed

theorem comment_str_wf_witness:
  "db_wf commented_fixture \<and> hd (comments commented_fixture) \<in> set (comments commented_fixture)
   \<and> comment_str commented_fixture (hd (comments commented_fixture)) \<noteq> Inl AttributeError
   \<and> (\<exists>b. get_blog commented_fixture 1 = Some b
        \<and> comment_str commented_fixture (hd (comments commented_fixture)) = Inr (py_str_nat 1 @ '' ('' @ title b @ '')''))"
proof -
  have c: "hd (comments commented_fixture) \<in> set (comments commented_fixture)"
    and k: "comment_blog (hd (comments commented_fixture)) = Some 1"
    and i: "comment_id (hd (comments commented_fixture)) = 1"
    by (simp_all add: commented_fixture_def)
  from comment_str_wf [OF commented_fixture_wf c] k i commented_fixture_wf c show ?thesis by auto
qed

theorem create_comment_view_duplicate_witness:
  "db_wf comment_view_fixture
   \<and> comment_form_clean [(''content'', ''My comment'')] = Inr ''My comment''
   \<and> comment_ids (snd (create_comment_view commented_fixture
        (create_request ''POST'' [(''content'', ''My comment'')] (Some 2)) 1)) = [1, 2]
   \<and> fst (create_comment_view commented_fixture
        (create_request ''POST'' [(''content'', ''My comment'')] (Some 2)) 1) = Redirect ''/blog/blogs/1''"
proof -
  let ?rq = "create_request ''POST'' [(''content'', ''My comment'')] (Some 2)"
  have form: "comment_form_clean (req_post ?rq) = Inr ''My comment''"
    by (simp add: create_request_def comment_form_clean_def charfield_clean_def Let_def
          charfield_to_python_def querydict_get_def charfield_validators_def
          comment_content_max_length_def py_strip_def py_isspace_def)
  have u: "req_user ?rq = Some 2" "2 \<in> set (user_ids comment_view_fixture)"
    and b: "get_blog comment_view_fixture 1 \<noteq> None" and p: "req_method ?rq = ''POST''"
    by (simp_all add: create_request_def comment_view_fixture_eq get_blog_def)
  have "comment_ids (snd (create_comment_view commented_fixture ?rq 1))
      = comment_ids comment_view_fixture @ [next_comment comment_view_fixture, Suc (next_comment comment_view_fixture)]
    \<and> fst (create_comment_view commented_fixture ?rq 1) = Redirect (''/blog/blogs/'' @ py_str_nat 1)"
    using create_comment_view_duplicate [OF comment_view_fixture_wf u b p form comment_view_fixture_post
        surjective_pairing] by auto
  with form comment_view_fixture_wf show ?thesis
    by (simp add: create_request_def comment_view_fixture_eq py_str_nat_eval)
qed

theorem blog_table_refinement_witness:
  "db_wf comment_view_fixture
   \<and> (\<exists>b d'. create_blog comment_view_fixture ''t'' (Some 1) ''c'' None = Inr (b, d')
        \<and> blog_id b = 2 \<and> blog_table d' = (blog_table comment_view_fixture)(2 \<mapsto> b))
   \<and> (\<exists>d''. delete_blog comment_view_fixture 1 = Inr d''
        \<and> blog_table d'' = (blog_table comment_view_fixture)(1 := None))
   \<and> db_wf commented_fixture \<and> \<not> (\<exists>d''. delete_blog commented_fixture 1 = Inr d'')"
proof -
  obtain b d' where cr: "create_blog comment_view_fixture ''t'' (Some 1) ''c'' None = Inr (b, d')"
    by (simp add: create_blog_def comment_view_fixture_eq fk_ok_def Let_def)
  then have b: "blog_id b = 2"
    by (auto simp: create_blog_def comment_view_fixture_eq fk_ok_def Let_def)
  obtain d'' where del: "delete_blog comment_view_fixture 1 = Inr d''"
    by (simp add: delete_blog_def comment_view_fixture_eq get_blog_def)
  have r: "blog_table d' = (blog_table comment_view_fixture)(blog_id b \<mapsto> b)
      \<and> blog_table d'' = (blog_table comment_view_fixture)(1 := None)"
    using blog_table_refinement [OF comment_view_fixture_wf, where t = "''t''" and au = "Some 1"
        and ct = "''c''" and pd = None and b = b and d' = d' and k = 1 and d'' = d''] cr del
    by blast
  have "\<not> (\<exists>d''. delete_blog commented_fixture 1 = Inr d'')"
    using blog_table_refinement [OF commented_fixture_wf, where k = 1]
    by (simp add: commented_fixture_def)
  with r cr del b comment_view_fixture_wf commented_fixture_wf show ?thesis by auto
qed

theorem create_comment_view_new_comment_witness:
  "create_comment_view comment_view_fixture (create_request ''POST'' [(''content'', ''My comment'')] (Some 2)) 1
     = (Redirect ''/blog/blogs/1'', commented_fixture)
   \<and> hd (comments commented_fixture) \<in> set (comments commented_fixture)
   \<and> hd (comments commented_fixture) \<notin> set (comments comment_view_fixture)
   \<and> comment_author (hd (comments commented_fixture)) = Some 2
   \<and> length (comment_content (hd (comments commented_fixture))) \<le> 200"
proof -
  have c: "hd (comments commented_fixture) \<in> set (comments commented_fixture)"
      "hd (comments commented_fixture) \<notin> set (comments comment_view_fixture)"
    by (simp_all add: commented_fixture_def comment_view_fixture_eq)
  from create_comment_view_new_comment [OF comment_view_fixture_post c] comment_view_fixture_post c
  show ?thesis by (simp add: create_request_def)
qed

theorem blog_detail_view_status_witness:
  "req_method (list_request ''/blog/blogs/7'' [] []) = ''GET''
   \<and> 7 \<notin> set (blog_ids comment_view_fixture)
   \<and> status_code (blog_detail_view comment_view_fixture (list_request ''/blog/blogs/7'' [] []) 7) = 404"
proof -
  have r: "req_method (list_request ''/blog/blogs/7'' [] []) = ''GET''" by (simp add: list_request_def)
  have k: "7 \<notin> set (blog_ids comment_view_fixture)" by (simp add: comment_view_fixture_eq)
  from blog_detail_view_status [OF r, of comment_view_fixture 7] r k show ?thesis by simp
qed
theorem blog_list_pages_partition_witness:
  "(\<forall>k. req_method (list_request ''/blog/blogs/'' [] [(''page'', py_str_nat k)]) = ''GET''
      \<and> page_param (list_request ''/blog/blogs/'' [] [(''page'', py_str_nat k)]) = Some (py_str_nat k))
   \<and> concat (map (\<lambda>k. case blog_list_view comment_view_fixture
          (list_request ''/blog/blogs/'' [] [(''page'', py_str_nat k)]) of
             Render _ (BlogListContext bs _) \<Rightarrow> bs | _ \<Rightarrow> [])
        [1..<Suc (paginator_num_pages (length (blogs comment_view_fixture)) 5 0 True)])
     = blogs_all comment_view_fixture"
proof -
  have r: "\<forall>k. req_method (list_request ''/blog/blogs/'' [] [(''page'', py_str_nat k)]) = ''GET''
      \<and> page_param (list_request ''/blog/blogs/'' [] [(''page'', py_str_nat k)]) = Some (py_str_nat k)"
    by (simp add: list_request_def page_param_def querydict_get_def)
  show ?thesis
    using r blog_list_pages_partition [of "\<lambda>k. list_request ''/blog/blogs/'' [] [(''page'', py_str_nat k)]"
        comment_view_fixture, OF r] by blast
qed

theorem blog_list_is_paginated_witness:
  "req_method (list_request ''/blog/blogs/'' [] []) = ''GET''
   \<and> blog_list_view comment_view_fixture (list_request ''/blog/blogs/'' [] []) = Render ''blog/blog_list.html''
       (BlogListContext (blogs comment_view_fixture) \<lparr>is_paginated = False, page_number = 1, num_pages = 1\<rparr>)
   \<and> \<not> 5 < length (blogs comment_view_fixture)"
proof -
  have r: "req_method (list_request ''/blog/blogs/'' [] []) = ''GET''" by (simp add: list_request_def)
  from blog_list_is_paginated [OF r comment_view_fixture_blog_list] r comment_view_fixture_blog_list
  show ?thesis by simp
qed

theorem blog_list_page_bounds_witness:
  "req_method (list_request ''/blog/blogs/'' [] []) = ''GET''
   \<and> blog_list_view comment_view_fixture (list_request ''/blog/blogs/'' [] []) = Render ''blog/blog_list.html''
       (BlogListContext (blogs comment_view_fixture) \<lparr>is_paginated = False, page_number = 1, num_pages = 1\<rparr>)
   \<and> length (blogs comment_view_fixture) \<le> 5
   \<and> blogs comment_view_fixture = take 5 (drop 0 (blogs_all comment_view_fixture))"
proof -
  have r: "req_method (list_request ''/blog/blogs/'' [] []) = ''GET''" by (simp add: list_request_def)
  have "length (blogs comment_view_fixture) \<le> 5
    \<and> blogs comment_view_fixture = take 5 (drop ((1 - 1) * 5) (blogs_all comment_view_fixture))"
    using blog_list_page_bounds [OF r comment_view_fixture_blog_list] unfolding page_info.select_convs
    by blast
  then have "length (blogs comment_view_fixture) \<le> 5
    \<and> blogs comment_view_fixture = take 5 (drop 0 (blogs_all comment_view_fixture))"
    unfolding diff_self_eq_0 mult_zero_left by blast
  with r comment_view_fixture_blog_list show ?thesis by blast
qed

theorem blog_list_page_numbers_witness:
  "req_method (list_request ''/blog/blogs/'' ''page=-1'' [(''page'', ''-1'')]) = ''GET''
   \<and> page_param (list_request ''/blog/blogs/'' ''page=-1'' [(''page'', ''-1'')]) = Some (CHR ''-'' # py_str_nat 1)
   \<and> blog_list_view comment_view_fixture (list_request ''/blog/blogs/'' ''page=-1'' [(''page'', ''-1'')]) = NotFound"
proof -
  let ?rq = "list_request ''/blog/blogs/'' ''page=-1'' [(''page'', ''-1'')]"
  have r: "req_method ?rq = ''GET''" by (simp add: list_request_def)
  have p: "page_param ?rq = Some (CHR ''-'' # py_str_nat 1)"
    by (simp add: list_request_def page_param_def querydict_get_def py_str_nat_eval)
  from blog_list_page_numbers [OF r, of 1 comment_view_fixture] r p show ?thesis by simp
qed

theorem read_views_method_not_allowed_witness:
  "resolve (req_path ((list_request ''/blog/blogs/'' [] [])\<lparr>req_method := ''POST''\<rparr>)) = Some (UBlogs, [])
   \<and> req_method ((list_request ''/blog/blogs/'' [] [])\<lparr>req_method := ''POST''\<rparr>) = ''POST''
   \<and> handle \<lparr>site_db = comment_view_fixture, site_sessions = Map.empty\<rparr>
       ((list_request ''/blog/blogs/'' [] [])\<lparr>req_method := ''POST''\<rparr>)
     = (MethodNotAllowed, \<lparr>site_db = comment_view_fixture, site_sessions = Map.empty\<rparr>)"
proof -
  let ?rq = "(list_request ''/blog/blogs/'' [] [])\<lparr>req_method := ''POST''\<rparr>"
  have r: "resolve (req_path ?rq) = Some (UBlogs, [])" by (simp add: list_request_def resolve_blogs)
  have n: "UBlogs \<notin> {UIndex, UCreateComment}" by simp
  have m: "req_method ?rq \<notin> {''GET'', ''HEAD'', ''OPTIONS''}" by (simp add: list_request_def)
  from read_views_method_not_allowed [OF r n m] r show ?thesis by (simp add: list_request_def)
qed

theorem blog_changelist_rows_typed_witness:
  "db_wf comment_view_fixture
   \<and> (\<exists>rows. blog_changelist_rows comment_view_fixture ''TIT'' AnyDate 20000 = Inr rows
        \<and> list_all2 blog_row_typed (blog_changelist comment_view_fixture ''TIT'' AnyDate 20000) rows)"
  using blog_changelist_rows_typed [OF comment_view_fixture_wf] comment_view_fixture_wf by blast

theorem blog_changelist_order_witness:
  "db_wf comment_view_fixture
   \<and> sorted_wrt (\<lambda>b1 b2. blog_admin_key b1 < blog_admin_key b2) (blog_changelist comment_view_fixture [] HasDate 20000)
   \<and> sorted_wrt newest_first (blog_changelist comment_view_fixture [] HasDate 20000)"
  using blog_changelist_order [OF comment_view_fixture_wf] comment_view_fixture_wf by blast

theorem admin_can_delete_post_witness:
  "db_wf commented_fixture \<and> 1 \<in> set (blog_ids commented_fixture)
   \<and> map comment_id (filter (\<lambda>c. comment_blog c = Some 1) (comments commented_fixture)) = [1]
   \<and> (\<exists>d1 d2. delete_selected comment_ids delete_comment commented_fixture [1] = Inr d1
        \<and> delete_blog d1 1 = Inr d2 \<and> db_wf d2 \<and> blogs d2 = [] \<and> comments d2 = [])"
proof -
  have k: "1 \<in> set (blog_ids commented_fixture)"
    by (simp add: commented_fixture_def comment_view_fixture_eq)
  have l: "map comment_id (filter (\<lambda>c. comment_blog c = Some 1) (comments commented_fixture)) = [1]"
    by (simp add: commented_fixture_def)
  have e: "filter (\<lambda>b. blog_id b \<noteq> 1) (blogs commented_fixture) = []"
    "filter (\<lambda>c. comment_blog c \<noteq> Some 1) (comments commented_fixture) = []"
    by (simp_all add: commented_fixture_def comment_view_fixture_eq)
  from admin_can_delete_post [OF commented_fixture_wf k] l k e commented_fixture_wf show ?thesis by simp
qed

theorem author_admin_biography_witness:
  "db_wf (comment_view_fixture\<lparr>users := users comment_view_fixture @ [\<lparr>user_id = 3, username = ''testuser3''\<rparr>],
      next_user := 4\<rparr>)
   \<and> querydict_get [(''name'', ''3''), (''biography'', replicate 1001 CHR ''a'')] ''name'' = Some (py_str_nat 3)
   \<and> querydict_get [(''name'', ''3''), (''biography'', replicate 1001 CHR ''a'')] ''biography''
       = Some (replicate 1001 CHR ''a'')
   \<and> py_strip (replicate 1001 CHR ''a'') = replicate 1001 CHR ''a''
   \<and> author_admin_add (comment_view_fixture\<lparr>users := users comment_view_fixture @ [\<lparr>user_id = 3, username = ''testuser3''\<rparr>],
         next_user := 4\<rparr>) [(''name'', ''3''), (''biography'', replicate 1001 CHR ''a'')]
     = Inl [(''biography'', MaxLength 1000 1001)]"
proof -
  let ?d = "comment_view_fixture\<lparr>users := users comment_view_fixture @ [\<lparr>user_id = 3, username = ''testuser3''\<rparr>],
      next_user := 4\<rparr>"
  let ?p = "[(''name'', ''3''), (''biography'', replicate 1001 CHR ''a'')]"
  have wf: "db_wf ?d"
    by (simp add: comment_view_fixture_eq db_wf_def keys_ok_def fk_ok_def map_filter_simps)
  have n: "querydict_get ?p ''name'' = Some (py_str_nat 3)"
    by (simp add: querydict_get_def py_str_nat_eval)
  have u: "3 \<in> set (user_ids ?d)" "Some 3 \<notin> set (map author_name (authors ?d))"
    by (simp_all add: comment_view_fixture_eq)
  have b: "querydict_get ?p ''biography'' = Some (replicate 1001 CHR ''a'')"
    by (simp add: querydict_get_def)
  have s: "py_strip (replicate 1001 CHR ''a'') = replicate 1001 CHR ''a''"
    by (rule py_strip_no_space) (simp add: py_isspace_def)
  have z: "CHR 0x00 \<notin> set (replicate 1001 CHR ''a'')" by simp
  from author_admin_biography [OF wf n u b s z] wf n b s show ?thesis by simp
qed


theorem blog_form_post_date_roundtrip_witness:
  "valid_ymd 2024 10 4 \<and> date_isoformat 2024 10 4 = ''2024-10-04''
   \<and> querydict_get blog_edit_post ''post_date'' = Some (date_isoformat 2024 10 4)
   \<and> datefield_clean (querydict_get blog_edit_post ''post_date'') = Inr (days_from_civil 2024 10 4)
   \<and> days_from_civil 2024 10 4 = 20000"
proof -
  have v: "valid_ymd 2024 10 4" by (simp add: valid_ymd_def)
  have i: "date_isoformat 2024 10 4 = ''2024-10-04''" by code_simp
  have q: "querydict_get blog_edit_post ''post_date'' = Some (date_isoformat 2024 10 4)"
    by (simp add: i blog_edit_post_def querydict_get_def)
  have d: "days_from_civil 2024 10 4 = 20000" by code_simp
  from blog_form_post_date_roundtrip [OF v q] v i q d show ?thesis by simp
qed

theorem blog_admin_add_saves_witness:
  "db_wf comment_view_fixture
   \<and> (\<exists>b d'. blog_admin_add comment_view_fixture blog_add_post = Inr (Inr (b, d'))
        \<and> db_wf d' \<and> blogs d' = blogs comment_view_fixture @ [b] \<and> length (title b) \<le> 200)
   \<and> blog_admin_add comment_view_fixture blog_add_post \<noteq> Inl []"
proof -
  have ok: "\<not> isl (blog_admin_add comment_view_fixture blog_add_post)" by code_simp
  then obtain r where r: "blog_admin_add comment_view_fixture blog_add_post = Inr r"
    by (cases "blog_admin_add comment_view_fixture blog_add_post") auto
  from blog_admin_add_saves [OF comment_view_fixture_wf r] r comment_view_fixture_wf
  show ?thesis by auto
qed

theorem sys_reachable_invariant_witness:
  "sys_reachable (foldl sys_step \<lparr>site_db = empty_db, site_sessions = Map.empty\<rparr> blog_session)
   \<and> db_wf (site_db (foldl sys_step \<lparr>site_db = empty_db, site_sessions = Map.empty\<rparr> blog_session))
   \<and> field_limits (site_db (foldl sys_step \<lparr>site_db = empty_db, site_sessions = Map.empty\<rparr> blog_session))"
proof -
  have reach: "sys_reachable (foldl sys_step \<lparr>site_db = empty_db, site_sessions = Map.empty\<rparr> blog_session)"
    by (rule sys_reachable_run [OF sys_reachable.init])
  from sys_reachable_invariant [OF reach] reach show ?thesis by (simp only: simp_thms)
qed

theorem comment_form_post_date_roundtrip_witness:
  "valid_ymd 2024 10 4 \<and> querydict_get comment_edit_post ''post_date_0'' = Some (date_isoformat 2024 10 4)
   \<and> querydict_get comment_edit_post ''post_date_1'' = Some (time_isoformat 12 30 5)
   \<and> splitdatetime_clean (querydict_get comment_edit_post ''post_date_0'') (querydict_get comment_edit_post ''post_date_1'')
       = Inr 1728045005000000"
proof -
  have v: "valid_ymd 2024 10 4" by (simp add: valid_ymd_def)
  have i: "date_isoformat 2024 10 4 = ''2024-10-04''" "time_isoformat 12 30 5 = ''12:30:05''" by code_simp+
  have q: "querydict_get comment_edit_post ''post_date_0'' = Some (date_isoformat 2024 10 4)"
    "querydict_get comment_edit_post ''post_date_1'' = Some (time_isoformat 12 30 5)"
    by (simp_all add: i comment_edit_post_def querydict_get_def)
  have d: "days_from_civil 2024 10 4 = 20000" by code_simp
  from comment_form_post_date_roundtrip [OF v _ _ _ q, of comment_view_fixture] v q d show ?thesis by simp
qed

theorem delete_selected_blogs_witness:
  "db_wf commented_fixture \<and> delete_selected blog_ids delete_blog commented_fixture [1] = Inl RestrictedError
   \<and> db_wf comment_view_fixture
   \<and> delete_selected blog_ids delete_blog comment_view_fixture [1, 5] = Inr (comment_view_fixture\<lparr>blogs := []\<rparr>)"
proof -
  have "delete_selected blog_ids delete_blog commented_fixture [1] = Inl RestrictedError"
    using delete_selected_blogs [OF commented_fixture_wf, of "[1]"] by (simp add: commented_fixture_def)
  moreover have "delete_selected blog_ids delete_blog comment_view_fixture [1, 5] = Inr (comment_view_fixture\<lparr>blogs := []\<rparr>)"
    using delete_selected_blogs [OF comment_view_fixture_wf, of "[1, 5]"] by (simp add: comment_view_fixture_eq)
  ultimately show ?thesis using commented_fixture_wf comment_view_fixture_wf by simp
qed

text \<open>
  The assertions of \<open>tests/test_models.py\<close> and \<open>tests/test_forms.py\<close> hold
  on their fixtures: the declared \<open>max_length\<close> of the author's biography, the
  post's title and content and the comment's content; an author's \<open>str()\<close> is its
  user's name and its URL \<open>/blog/bloggers/1\<close>; a post's \<open>str()\<close> is its title
  and its URL \<open>/blog/blogs/1\<close>; and the comment form's label, help text and
  maximum length.
\<close>

theorem model_and_form_tests:
  "field_max_length ''Author'' ''biography'' = Some 1000
   \<and> (\<exists>a. get_author (model_test_fixture 2) 1 = Some a \<and> author_str (model_test_fixture 2) a = Inr ''test_user''
          \<and> author_get_absolute_url a = Some ''/blog/bloggers/1'')
   \<and> field_max_length ''Blog'' ''title'' = Some 200 \<and> field_max_length ''Blog'' ''content'' = Some 5000
   \<and> (\<exists>b. get_blog (model_test_fixture 3) 1 = Some b \<and> blog_str b = ''My blog post''
          \<and> blog_get_absolute_url b = Some ''/blog/blogs/1'')
   \<and> field_max_length ''Comment'' ''content'' = Some 200
   \<and> (comment_form_label = ''Comment'' \<and> comment_form_help_text = ''Enter a comment''
      \<and> comment_content_max_length = 200)"
  by (simp add: field_max_length_def get_author_def get_blog_def get_user_def author_str_def blog_str_def
      model_test_fixture_prefix model_test_fixture_eq author_get_absolute_url_eq blog_get_absolute_url_eq
      py_str_nat_eval comment_form_label_def comment_form_help_text_def comment_content_max_length_def)

theorem blog_admin_change_inline_witness:
  "db_wf commented_fixture
   \<and> get_blog commented_fixture 1 = Some \<lparr>blog_id = 1, title = ''title'', blog_author = Some 1,
        blog_content = ''blog content'', blog_post_date = Some 20000\<rparr>
   \<and> blog_form_clean commented_fixture blog_edit_post = Inr (''title'', 1, ''blog content'', 20000)
   \<and> inline_formset_errors commented_fixture 1 [] = []
   \<and> (\<exists>d'. blog_admin_change commented_fixture 1 blog_edit_post [] = Inr (Inr d')
        \<and> blog_ids d' = [1])"
proof -
  have g: "get_blog commented_fixture 1 = Some \<lparr>blog_id = 1, title = ''title'', blog_author = Some 1,
        blog_content = ''blog content'', blog_post_date = Some 20000\<rparr>"
    by (simp add: get_blog_def commented_fixture_def comment_view_fixture_eq)
  have f: "blog_form_clean commented_fixture blog_edit_post = Inr (''title'', 1, ''blog content'', 20000)"
    by code_simp
  have e: "inline_formset_errors commented_fixture 1 [] = []" by code_simp
  have i: "blog_ids commented_fixture = [1]"
    by (simp add: commented_fixture_def comment_view_fixture_eq)
  have "\<exists>d'. blog_admin_change commented_fixture 1 blog_edit_post [] = Inr (Inr d')
      \<and> blog_ids d' = blog_ids commented_fixture"
    using blog_admin_change_inline [OF commented_fixture_wf g, of blog_edit_post "[]"] f e by blast
  with f e i g commented_fixture_wf show ?thesis by simp
qed

end
