(* ===== verification/Spec2Isabelle.thy ===== *)
theory Spec2Isabelle
  imports Scenarios
begin

text \<open>
  \<^bold>\<open>A verification model of the blog site in \<open>src/blog/\<close>.\<close>

  The repository is a Django application: three models (\<open>models.py\<close>), one model
  form (\<open>forms.py\<close>), six views (\<open>views.py\<close>), seven URL patterns
  (\<open>urls.py\<close>) and an admin registration (\<open>admin.py\<close>). A request flows
  router \<open>\<rightarrow>\<close> view \<open>\<rightarrow>\<close> (form validation) \<open>\<rightarrow>\<close> ORM read or write
  \<open>\<rightarrow>\<close> response. The development models each layer as plain HOL definitions,
  executable throughout, in one theory per layer:

  \<^item> \<open>Prelude\<close>: key, date and timestamp types; Python's \<open>str.isspace\<close>,
    \<open>str.strip\<close>, \<open>str(int)\<close> on characters; generic list lemmas; the
    \<open>orm_simps\<close>/\<open>wf_simps\<close> collections.
  \<^item> \<open>Models\<close> (\<open>models.py\<close>): the rows \<open>user\<close>, \<open>author\<close>, \<open>blog\<close>,
    \<open>comment\<close> as records with the source's fields; the database \<open>db\<close> as four
    tables in key order with one AUTOINCREMENT counter each; \<open>objects.get\<close>
    (\<open>get_blog\<close>, ...), \<open>objects.create\<close> (\<open>create_comment\<close>, ...) with the
    database's integrity checks as \<open>IntegrityError\<close>, \<open>save\<close> as UPDATE-or-INSERT,
    \<open>delete\<close> with the declared \<open>on_delete\<close> actions (RESTRICT for
    \<open>Comment.blog\<close>, SET_NULL for the others), \<open>Meta.ordering\<close> as a stable sort
    (\<open>order_blogs\<close>, \<open>order_comments\<close>) with SQLite's NULL placement,
    \<open>__str__\<close> and \<open>display_comment\<close>. Every write is an operation of the
    datatype \<open>db_op\<close>; \<open>reachable_db\<close> is the inductive set of databases built
    by successful writes. The invariant \<open>db_wf\<close> (keys increasing and below the
    sequence, foreign keys valid, usernames unique, one author per user) is kept by every
    write.
  \<^item> \<open>Forms\<close> (\<open>forms.py\<close>): \<open>CommentForm\<close> as Django cleans it: strip,
    required, \<open>max_length=200\<close>, no NUL character, errors collected.
  \<^item> \<open>Urls\<close> (\<open>urls.py\<close>, and \<open>get_absolute_url\<close> of \<open>models.py\<close>): the
    ordered patterns, \<open>resolve\<close>, \<open>reverse\<close>, and the \<open>next\<close>-redirect of
    \<open>@login_required\<close> with \<open>urllib.parse.quote\<close>.
  \<^item> \<open>Pagination\<close>: Django's \<open>Paginator\<close> and \<open>paginate_queryset\<close> as the
    list views use them (\<open>paginate_by = 5\<close>, \<open>?page=\<close> read by Python's
    \<open>int()\<close>, \<open>'last'\<close>, 404 on an invalid page).
  \<^item> \<open>Views\<close> (\<open>views.py\<close>): requests and responses, \<open>index\<close> with its
    session counter, the list and detail views with \<open>View.dispatch\<close>'s method
    handling, \<open>BlogListByAuthorView\<close>, and \<open>create_comment\<close>.
  \<^item> \<open>Site\<close>: the whole application as a state machine over the database and the
    session store, \<open>handle\<close> one request, \<open>run_requests\<close> a sequence.
  \<^item> \<open>Admin\<close> (\<open>admin.py\<close>): the change lists of \<open>Author\<close>, \<open>BlogAdmin\<close>
    and the \<open>Comment\<close> admin as Django's \<open>ChangeList\<close> builds them
    (\<open>list_display\<close> cells with \<open>'-'\<close> for empty values, the model ordering made
    total by \<open>-pk\<close>, the title search split into words and matched with SQLite's
    ASCII-case-insensitive \<open>LIKE\<close>, the \<open>post_date\<close> filter with its calendar
    bounds), \<open>CommentInline\<close> (the post's comments; \<open>inline_delete\<close> removes
    the rows ticked for deletion), the
    \<open>delete selected\<close> action (\<open>delete_selected\<close>: the ticked rows deleted in
    one transaction), and the add form of the
    \<open>Author\<close> admin (\<open>ModelChoiceField\<close>, \<open>max_length=1000\<close>, the unique
    check of the one-to-one field).
  \<^item> \<open>AdminForms\<close> (\<open>admin.py\<close> with the \<open>Blog\<close> and \<open>Author\<close> fields of
    \<open>models.py\<close>): the \<open>ModelForm\<close> of \<open>BlogAdmin\<close> (\<open>blog_form_clean\<close>:
    title and content as length-checked \<open>CharField\<close>s, author as
    \<open>ModelChoiceField\<close>, post date as \<open>DateField\<close>, all four required because
    no field has \<open>blank=True\<close>), its add and change views (\<open>blog_admin_add\<close>,
    \<open>blog_admin_change\<close>: the post's form and the comments inline validated
    together, an unticked inline row cleaned like the \<open>Comment\<close> fields
    (\<open>inline_row_errors\<close>, \<open>inline_formset_errors\<close>), and only when all are
    valid the post saved and then the formset, deleting the ticked rows and re-saving
    the changed ones (\<open>inline_save\<close>)), the change view of the \<open>Author\<close> admin, the
    add and change views of the \<open>Comment\<close> admin (\<open>comment_admin_form_clean\<close>:
    blog and author as \<open>ModelChoiceField\<close>s, content with \<open>max_length=200\<close>,
    \<open>post_date\<close> as the admin's \<open>SplitDateTimeField\<close>, posted as
    \<open>post_date_0\<close> and \<open>post_date_1\<close>), and \<open>Model.save()\<close> of an
    edited instance (\<open>save_blog\<close>, \<open>save_author\<close>).
    The \<open>DateField\<close> is modelled down to Python's \<open>_strptime\<close>: each of Django's
    \<open>DATE_INPUT_FORMATS\<close> is compiled (\<open>compile_format\<close>) into a pattern whose
    groups are lists of alternatives of character classes (\<open>dir_regex\<close>), matched
    with backtracking as a list of successes in the engine's order (\<open>strp_match\<close>);
    the first match must reach the end, its groups give year, month, day, hour, minute,
    second and microseconds (\<open>strp_set\<close>), and \<open>datetime\<close>'s checks
    (\<open>valid_ymd\<close>, the time ranges) decide (\<open>strptime\<close>). The time part
    tries \<open>TIME_INPUT_FORMATS\<close> the same way (\<open>strptime_time\<close>), and
    \<open>splitdatetime_clean\<close> combines date and time into microseconds from the
    epoch in UTC (the settings module is not in the repository; \<open>USE_TZ = True\<close>
    and \<open>TIME_ZONE = 'UTC'\<close>, the values of \<open>startproject\<close>, are assumed).
  \<^item> \<open>System\<close>: the public site, the admin views and the auth app's account
    changes as one state machine (\<open>sys_event\<close>, \<open>sys_step\<close>); a failed write
    leaves the database unchanged (\<open>commit\<close>, one transaction per admin view), and
    \<open>sys_reachable\<close> is the inductive set of states a sequence of events builds from
    an empty database.
  \<^item> \<open>Scenarios\<close>: the fixtures of \<open>tests/test_views.py\<close> and of
    \<open>tests/test_models.py\<close> built with the model's own operations, the assertions
    of the model and form tests evaluated on them, and the closed instances (witnesses)
    of the theorems.

  What the lemma groups show. \<open>Models\<close>: every write keeps \<open>db_wf\<close>, so every
  reachable database satisfies it (rule induction on \<open>reachable_db\<close>); the
  referential actions (RESTRICT refuses; SET_NULL clears exactly the links to the
  deleted row, row by row); the one-to-one constraint on every reachable database; the default orders as sorted permutations; \<open>Comment.__str__\<close> fails
  only on a NULL blog; and the blog table refines a finite map (\<open>blog_table\<close>:
  \<open>get\<close> is lookup, \<open>create\<close> a fresh update, \<open>delete\<close> succeeds exactly on an
  unreferenced key and removes only it).
  \<open>Forms\<close>: the exact acceptance condition of \<open>CommentForm\<close>. \<open>Urls\<close>:
  \<open>resolve\<close> inverts \<open>reverse\<close>. \<open>Pagination\<close>: the pages partition the
  list, \<open>is_paginated\<close> and the size bound of a page, and \<open>int()\<close> reads back
  \<open>str()\<close>. \<open>Views\<close>: every branch of \<open>create_comment\<close> (valid, invalid,
  anonymous, missing post, unbound form), what a created comment holds, duplicate
  submissions, the blog list's pages and page numbers, and the read views' 404s. \<open>Site\<close>: any request sequence keeps the
  invariant, leaves posts, authors and users alone and only appends comments with a
  logged-in author, an existing post and 1 to 200 characters, the visit counter counts, \<open>get_absolute_url\<close> leads to the detail
  page, and the class-based read views refuse other methods with 405. \<open>Admin\<close>:
  the change list rows are well typed, the change list is the filtered table in a strict
  total order, the query splitter is correct and terminates, the title test is the
  library's \<open>sublist\<close>, the date filter's choices split the list, the biography
  limit of the add form, the all-or-nothing bulk deletion of posts under
  \<open>RESTRICT\<close>, and a liveness property: every post can be removed through the
  admin, whatever its fields hold (the \<open>Comment\<close> admin's \<open>delete selected\<close>
  on its comments, then the post's delete view). \<open>AdminForms\<close>: the
  post-date field reads back every valid date written by \<open>date.isoformat()\<close> (a
  round trip through the regular-expression matcher), and the \<open>Comment\<close>
  admin's split field reads back every date and whole-second time its widget writes;
  every date it accepts is a real calendar date, an accepted add-form submission saves exactly one post within the
  field limits, the post's change page writes only when its form and every kept inline
  row are valid and then deletes exactly the ticked comments, and saving an edited post
  or author keeps \<open>db_wf\<close> (the author's unique check excludes the instance
  itself). \<open>System\<close>: by rule induction on
  \<open>sys_reachable\<close>, every reachable state satisfies \<open>db_wf\<close> and the declared
  \<open>max_length\<close> limits with non-empty values (\<open>field_limits\<close>), because every
  path that writes a text field goes through a form. This theory holds the
  scenarios of the specification's section 8 run on the test fixtures: the eight-post
  pagination, the thirteen-author list and the comment submissions.

  What is not modelled: templates and HTML rendering (not in the repository's Python
  sources); of the admin, time zones other than UTC, typing into the rows of the
  comments inline (each row is posted as the page renders it, only its \<open>DELETE\<close>
  box may change), the
  \<open>LogEntry\<close> history rows the admin writes, the change list's own pagination (100
  rows a page), and quoted phrases in the search query (the query is split at
  whitespace only); of the date input, characters beyond the 8-bit range (Unicode
  digits and case folds);
  authentication and
  session middleware beyond \<open>request.user\<close> and the \<open>num_visits\<close> key; the
  project URLconf (only its \<open>blog/\<close> prefix and \<open>LOGIN_URL\<close>); concurrency,
  since the spec and the code handle one request at a time; non-ASCII characters
  (a \<open>char\<close> is a byte, Python counts code points). No loop of the program runs
  unboundedly: every function is total, by structural recursion or, for the search
  query's splitter \<open>split_words\<close>, by the measure \<open>length\<close> of the rest of the
  query, so no fuel and no bound is needed (the date matcher recurses on the compiled
  pattern, and \<open>\s+\<close> tries the finitely many whitespace runs); the integers are Python's unbounded ones,
  modelled as \<open>nat\<close>/\<open>int\<close>.
\<close>

section \<open>Scenarios of the specification\<close>

text \<open>
  With eight posts (the fixture of \<open>BlogPostListViewTest\<close>), \<open>GET /blog/blogs/\<close>
  renders five posts and is paginated, \<open>GET /blog/blogs/?page=2\<close> renders the
  remaining three and is paginated, and the two pages together are all posts in the
  default order.
\<close>

theorem blog_list_eight_posts:
  "\<exists>bs1 pg1 bs2 pg2.
     handle blog_list_site (list_request ''/blog/blogs/'' [] []) =
       (Render ''blog/blog_list.html'' (BlogListContext bs1 pg1), blog_list_site)
   \<and> handle blog_list_site (list_request ''/blog/blogs/'' ''page=2'' [(''page'', ''2'')]) =
       (Render ''blog/blog_list.html'' (BlogListContext bs2 pg2), blog_list_site)
   \<and> length bs1 = 5 \<and> is_paginated pg1 \<and> length bs2 = 3 \<and> is_paginated pg2
   \<and> bs1 @ bs2 = blogs_all blog_list_fixture"
proof -
  let ?d = "blog_list_fixture"
  have n: "paginator_num_pages (length (blogs ?d)) 5 0 True = 2"
    by (simp add: blog_list_fixture_blogs paginator_num_pages_def)
  have len: "length (blogs_all ?d) = 8"
    by (simp add: blogs_all_def order_blogs_def blog_list_fixture_blogs)
  have two: "''2'' = py_str_nat 2" by (simp add: py_str_nat_eval)
  have p1: "handle blog_list_site (list_request ''/blog/blogs/'' [] []) =
      (blog_list_view ?d (list_request ''/blog/blogs/'' [] []), blog_list_site)"
    using handle_blogs [of "list_request ''/blog/blogs/'' [] []" blog_list_site]
    by (simp add: list_request_def blog_list_site_def)
  have p2: "handle blog_list_site (list_request ''/blog/blogs/'' ''page=2'' [(''page'', ''2'')]) =
      (blog_list_view ?d (list_request ''/blog/blogs/'' ''page=2'' [(''page'', ''2'')]), blog_list_site)"
    using handle_blogs [of "list_request ''/blog/blogs/'' ''page=2'' [(''page'', ''2'')]" blog_list_site]
    by (simp add: list_request_def blog_list_site_def)
  have v1: "blog_list_view ?d (list_request ''/blog/blogs/'' [] []) = Render ''blog/blog_list.html''
      (BlogListContext (take 5 (blogs_all ?d)) \<lparr>is_paginated = True, page_number = 1, num_pages = 2\<rparr>)"
    using blog_list_view_first_page [of "list_request ''/blog/blogs/'' [] []" ?d] n
    by (simp add: list_request_def page_param_def querydict_get_def)
  have v2: "blog_list_view ?d (list_request ''/blog/blogs/'' ''page=2'' [(''page'', ''2'')]) =
      Render ''blog/blog_list.html''
      (BlogListContext (take 5 (drop 5 (blogs_all ?d))) \<lparr>is_paginated = True, page_number = 2, num_pages = 2\<rparr>)"
  proof -
    have "page_param (list_request ''/blog/blogs/'' ''page=2'' [(''page'', ''2'')]) = Some (py_str_nat 2)"
      by (simp add: list_request_def page_param_def querydict_get_def two)
    then show ?thesis
      using blog_list_view_page [of "list_request ''/blog/blogs/'' ''page=2'' [(''page'', ''2'')]" 2 ?d] n
      by (simp add: list_request_def)
  qed
  have "take 5 (blogs_all ?d) @ take 5 (drop 5 (blogs_all ?d)) = blogs_all ?d"
  proof -
    have "take 5 (drop 5 (blogs_all ?d)) = drop 5 (blogs_all ?d)" using len by (simp add: take_all)
    then show ?thesis by simp
  qed
  with p1 p2 v1 v2 len show ?thesis by (auto simp: blog_list_site_def)
qed

text \<open>
  On the post of \<open>CommentFormViewTest\<close>, an authenticated \<open>POST\<close> with empty
  content re-renders the form with the required-field error, one with 201 characters
  re-renders it with the max-length error (and Django's message), and nothing is
  written; content of 200 characters padded with whitespace is accepted, stored
  stripped, and answered by the redirect to \<open>/blog/blogs/1\<close>.
\<close>

theorem comment_form_submissions:
  "create_comment_view comment_view_fixture (create_request ''POST'' [(''content'', [])] (Some 2)) 1
     = (Render ''blog/create_comment.html''
          (CreateCommentContext (BoundForm [(''content'', [])] [Required]) (hd (blogs comment_view_fixture))),
        comment_view_fixture)
   \<and> create_comment_view comment_view_fixture
       (create_request ''POST'' [(''content'', replicate 201 CHR ''a'')] (Some 2)) 1
     = (Render ''blog/create_comment.html''
          (CreateCommentContext (BoundForm [(''content'', replicate 201 CHR ''a'')] [MaxLength 200 201])
             (hd (blogs comment_view_fixture))),
        comment_view_fixture)
   \<and> error_message (MaxLength 200 201) = ''Ensure this value has at most 200 characters (it has 201).''
   \<and> create_comment_view comment_view_fixture
       (create_request ''POST'' [(''content'', CHR '' '' # replicate 200 CHR ''a'' @ ''\<newline>'')] (Some 2)) 1
     = (Redirect ''/blog/blogs/1'',
        comment_view_fixture\<lparr>comments := [\<lparr>comment_id = 1, comment_blog = Some 1,
            comment_content = replicate 200 CHR ''a'', comment_post_date = Some 1728000000000000,
            comment_author = Some 2\<rparr>], next_comment := 2\<rparr>)"
proof (intro conjI)
  have blog: "get_blog comment_view_fixture 1 = Some (hd (blogs comment_view_fixture))"
    by (simp add: comment_view_fixture_eq get_blog_def)
  show "create_comment_view comment_view_fixture (create_request ''POST'' [(''content'', [])] (Some 2)) 1
     = (Render ''blog/create_comment.html''
          (CreateCommentContext (BoundForm [(''content'', [])] [Required]) (hd (blogs comment_view_fixture))),
        comment_view_fixture)"
    using blog by (simp add: create_comment_view_def create_request_def comment_form_clean_def
        charfield_clean_def charfield_to_python_def querydict_get_def py_strip_def)
  have long: "py_strip (replicate 201 CHR ''a'') = replicate 201 CHR ''a''"
    by (rule py_strip_no_space) (simp add: py_isspace_def)
  show "create_comment_view comment_view_fixture
       (create_request ''POST'' [(''content'', replicate 201 CHR ''a'')] (Some 2)) 1
     = (Render ''blog/create_comment.html''
          (CreateCommentContext (BoundForm [(''content'', replicate 201 CHR ''a'')] [MaxLength 200 201])
             (hd (blogs comment_view_fixture))),
        comment_view_fixture)"
    using blog long by (simp add: create_comment_view_def create_request_def comment_form_clean_def
        charfield_clean_def charfield_to_python_def querydict_get_def charfield_validators_def
        comment_content_max_length_def)
  show "error_message (MaxLength 200 201) = ''Ensure this value has at most 200 characters (it has 201).''"
    by (simp add: error_message_def py_str_nat_eval)
  let ?rq = "create_request ''POST'' [(''content'', CHR '' '' # replicate 200 CHR ''a'' @ ''\<newline>'')] (Some 2)"
  have pad: "py_strip ([CHR '' ''] @ replicate 200 CHR ''a'' @ ''\<newline>'') = replicate 200 CHR ''a''"
    by (rule py_strip_pad) (simp_all add: py_isspace_def)
  have form: "comment_form_clean (req_post ?rq) = Inr (replicate 200 CHR ''a'')"
    using pad by (simp add: create_request_def comment_form_clean_def charfield_clean_def Let_def
          charfield_to_python_def querydict_get_def charfield_validators_def comment_content_max_length_def)
  have "create_comment_view comment_view_fixture ?rq 1 =
     (Redirect (''/blog/blogs/'' @ py_str_nat 1),
      comment_view_fixture\<lparr>comments := comments comment_view_fixture @ [\<lparr>comment_id = next_comment comment_view_fixture,
            comment_blog = Some 1, comment_content = replicate 200 CHR ''a'', comment_post_date = Some (req_now ?rq),
            comment_author = Some 2\<rparr>], next_comment := Suc (next_comment comment_view_fixture)\<rparr>)"
    by (rule create_comment_view_post_valid [OF comment_view_fixture_wf _ _ _ _ form])
       (simp_all add: create_request_def comment_view_fixture_eq get_blog_def)
  then show "create_comment_view comment_view_fixture ?rq 1
     = (Redirect ''/blog/blogs/1'',
        comment_view_fixture\<lparr>comments := [\<lparr>comment_id = 1, comment_blog = Some 1,
            comment_content = replicate 200 CHR ''a'', comment_post_date = Some 1728000000000000,
            comment_author = Some 2\<rparr>], next_comment := 2\<rparr>)"
    by (simp add: create_request_def comment_view_fixture_eq py_str_nat_eval)
qed
text \<open>
  With the thirteen authors of \<open>AuthorListViewTest\<close>, \<open>GET /blog/bloggers/\<close>
  renders all thirteen, unpaginated, and changes no state.
\<close>

theorem author_list_thirteen:
  "\<exists>as pg. handle author_list_site (list_request ''/blog/bloggers/'' [] []) =
       (Render ''blog/author_list.html'' (AuthorListContext as pg), author_list_site)
     \<and> length as = 13 \<and> \<not> is_paginated pg"
proof -
  have "handle author_list_site (list_request ''/blog/bloggers/'' [] []) =
      (author_list_view author_list_fixture (list_request ''/blog/bloggers/'' [] []), author_list_site)"
    using handle_authors [of "list_request ''/blog/bloggers/'' [] []" author_list_site]
    by (simp add: list_request_def author_list_site_def)
  moreover have "author_list_view author_list_fixture (list_request ''/blog/bloggers/'' [] []) =
      Render ''blog/author_list.html'' (AuthorListContext (authors author_list_fixture) not_paginated)"
    by (simp add: author_list_view_def get_only_dispatch_def list_request_def)
  ultimately show ?thesis using author_list_fixture_authors by (simp add: not_paginated_def)
qed

end
